(* ===== verification/Art_Prelude.thy ===== *)
theory Art_Prelude
  imports Main "HOL-Library.Word"
begin

text \<open>
  Shared vocabulary of the development: machine words, abnormal terminations as values of a
  sum type, byte buffers and their little-endian contents.

  The target of the repository is 32-bit ARM (the build instructions use aosp_arm), so a
  pointer is a 32 bit word here. A C++ statement whose execution has no defined continuation
  (a store outside a buffer, a failed CHECK, LOG(FATAL)) ends in a \<open>trap\<close>.
\<close>

unbundle bit_operations_syntax

type_synonym u8 = "8 word"
type_synonym u16 = "16 word"
type_synonym u32 = "32 word"
type_synonym u64 = "64 word"
type_synonym ptr = "32 word"

datatype trap =
    OutOfBounds        \<comment> \<open>load or store outside an allocation\<close>
  | CheckFailed        \<comment> \<open>a CHECK of the source does not hold\<close>
  | FatalLog           \<comment> \<open>LOG(FATAL), UNIMPLEMENTED(FATAL)\<close>
  | NullPointer        \<comment> \<open>access through a null pointer\<close>
  | OutOfRange         \<comment> \<open>std::out_of_range thrown by a string operation\<close>
  | BadAlloc           \<comment> \<open>allocation with an impossible size\<close>

type_synonym 'a res = "trap + 'a"

named_theorems res_simps \<open>rewriting of computations that may trap\<close>
named_theorems buf_simps \<open>contents of byte buffers\<close>

section \<open>Computations that may trap\<close>

definition rbind :: "'a res \<Rightarrow> ('a \<Rightarrow> 'b res) \<Rightarrow> 'b res" where
  "rbind m f = (case m of Inl e \<Rightarrow> Inl e | Inr x \<Rightarrow> f x)"

abbreviation rmap :: "('a \<Rightarrow> 'b) \<Rightarrow> 'a res \<Rightarrow> 'b res" where
  "rmap f r \<equiv> rbind r (\<lambda>x. Inr (f x))"

definition check :: "bool \<Rightarrow> trap \<Rightarrow> unit res" where
  "check b e = (if b then Inr () else Inl e)"

lemma rbind_Inl [simp, res_simps]: "rbind (Inl e) f = Inl e"
  by (simp add: rbind_def)

lemma rbind_Inr [simp, res_simps]: "rbind (Inr x) f = f x"
  by (simp add: rbind_def)

lemma rbind_eq_Inr [res_simps]: "rbind m f = Inr y \<longleftrightarrow> (\<exists>x. m = Inr x \<and> f x = Inr y)"
  by (cases m) simp_all

lemma rbind_eq_Inl: "rbind m f = Inl e \<longleftrightarrow> m = Inl e \<or> (\<exists>x. m = Inr x \<and> f x = Inl e)"
  by (cases m) auto

lemma rbindE [elim]:
  assumes "rbind m f = Inr y"
  obtains x where "m = Inr x" and "f x = Inr y"
  using assms by (auto simp: rbind_eq_Inr)

lemma rbind_cong [fundef_cong]:
  "m = m' \<Longrightarrow> (\<And>x. m' = Inr x \<Longrightarrow> f x = f' x) \<Longrightarrow> rbind m f = rbind m' f'"
  by (cases m') simp_all

lemma rbind_assoc: "rbind (rbind m f) g = rbind m (\<lambda>x. rbind (f x) g)"
  by (cases m) simp_all

lemma check_True [simp, res_simps]: "check True e = Inr ()"
  by (simp add: check_def)

lemma check_False [simp, res_simps]: "check False e = Inl e"
  by (simp add: check_def)

lemma check_eq_Inr [simp, res_simps]: "check b e = Inr u \<longleftrightarrow> b"
  by (cases b) simp_all

text \<open>Running a fallible step over a list, left to right, stopping at the first trap.\<close>

fun rfold :: "('a \<Rightarrow> 's \<Rightarrow> 's res) \<Rightarrow> 'a list \<Rightarrow> 's \<Rightarrow> 's res" where
  "rfold f [] s = Inr s"
| "rfold f (x # xs) s = rbind (f x s) (rfold f xs)"

lemma rfold_append: "rfold f (xs @ ys) s = rbind (rfold f xs s) (rfold f ys)"
  by (induction xs arbitrary: s) (simp_all add: rbind_def split: sum.splits)

lemma rfold_invariant:
  assumes "rfold f xs s = Inr t" and "P s"
    and "\<And>x s t. x \<in> set xs \<Longrightarrow> P s \<Longrightarrow> f x s = Inr t \<Longrightarrow> P t"
  shows "P t"
  using assms
proof (induction xs arbitrary: s)
  case (Cons x xs)
  then obtain u where u: "f x s = Inr u" "rfold f xs u = Inr t" by auto
  with Cons.prems have "P u" by auto
  with u(2) Cons show ?case by auto
qed simp

text \<open>A step that establishes a property which all steps keep: it holds at the end.\<close>

lemma rfold_stuck:
  assumes "x \<in> set xs" "\<And>s. \<exists>e. f x s = Inl e"
  shows "\<exists>e. rfold f xs s = Inl e"
  using assms(1)
proof (induction xs arbitrary: s)
  case (Cons y ys)
  show ?case
  proof (cases "f y s")
    case (Inr t)
    with Cons assms(2) [of s] show ?thesis by auto
  qed simp
qed simp

lemma rfold_establish:
  assumes "rfold f xs s = Inr t" "x \<in> set xs" "R s"
    and "\<And>y s t. y \<in> set xs \<Longrightarrow> R s \<Longrightarrow> f y s = Inr t \<Longrightarrow> R t"
    and "\<And>s t. R s \<Longrightarrow> f x s = Inr t \<Longrightarrow> Q t"
    and "\<And>y s t. y \<in> set xs \<Longrightarrow> R s \<Longrightarrow> Q s \<Longrightarrow> f y s = Inr t \<Longrightarrow> Q t"
  shows "Q t"
proof -
  from assms(2) obtain ys zs where xs: "xs = ys @ x # zs" by (meson split_list)
  with assms(1) obtain u v where u: "rfold f ys s = Inr u" "f x u = Inr v" "rfold f zs v = Inr t"
    by (auto simp: rfold_append rbind_eq_Inr)
  have "R u" by (rule rfold_invariant [where P = R, OF u(1) assms(3)]) (use assms(4) xs in auto)
  with assms(4,5) u(2) xs have "R v \<and> Q v" by auto
  then have "R t \<and> Q t"
  proof (rule rfold_invariant [where P = "\<lambda>s. R s \<and> Q s", OF u(3)])
    fix y s t
    assume "y \<in> set zs" "R s \<and> Q s" "f y s = Inr t"
    with assms(4,6) [of y s t] xs show "R t \<and> Q t" by simp
  qed
  then show ?thesis ..
qed

lemma rfold_total:
  assumes "\<And>x s. x \<in> set xs \<Longrightarrow> f x s = Inr (g x s)"
  shows "rfold f xs s = Inr (fold g xs s)"
  using assms by (induction xs arbitrary: s) simp_all

section \<open>Byte buffers\<close>

text \<open>A store is defined only inside the allocation; a load likewise.\<close>

definition store8 :: "u8 list \<Rightarrow> nat \<Rightarrow> u8 \<Rightarrow> u8 list res" where
  "store8 b p x = (if p < length b then Inr (b[p := x]) else Inl OutOfBounds)"

definition load8 :: "u8 list \<Rightarrow> nat \<Rightarrow> u8 res" where
  "load8 b p = (if p < length b then Inr (b ! p) else Inl OutOfBounds)"

text \<open>The statement sequence \<open>*p++ = x0; *p++ = x1; ...\<close>\<close>

fun store_bytes :: "u8 list \<Rightarrow> nat \<Rightarrow> u8 list \<Rightarrow> u8 list res" where
  "store_bytes b p [] = Inr b"
| "store_bytes b p (x # xs) = rbind (store8 b p x) (\<lambda>b. store_bytes b (Suc p) xs)"

definition splice :: "'a list \<Rightarrow> nat \<Rightarrow> 'a list \<Rightarrow> 'a list" where
  "splice b p xs = take p b @ xs @ drop (p + length xs) b"

definition slice :: "'a list \<Rightarrow> nat \<Rightarrow> nat \<Rightarrow> 'a list" where
  "slice b p n = take n (drop p b)"

lemma length_splice [simp, buf_simps]:
  "p + length xs \<le> length b \<Longrightarrow> length (splice b p xs) = length b"
  by (simp add: splice_def)

lemma splice_Nil [simp, buf_simps]: "splice b p [] = b"
  by (simp add: splice_def)

lemma splice_Cons:
  assumes "p + length (x # xs) \<le> length b"
  shows "splice b p (x # xs) = splice (b[p := x]) (Suc p) xs"
  using assms by (simp add: splice_def upd_conv_take_nth_drop take_Suc_conv_app_nth add.commute)

lemma nth_splice:
  assumes "p + length xs \<le> length b" "i < length b"
  shows "splice b p xs ! i = (if p \<le> i \<and> i < p + length xs then xs ! (i - p) else b ! i)"
  using assms by (auto simp: splice_def nth_append)

lemma slice_splice [simp, buf_simps]:
  "p + length xs \<le> length b \<Longrightarrow> n = length xs \<Longrightarrow> slice (splice b p xs) p n = xs"
  by (simp add: slice_def splice_def)

lemma nth_slice [buf_simps]:
  "i < n \<Longrightarrow> p + n \<le> length b \<Longrightarrow> slice b p n ! i = b ! (p + i)"
  by (simp add: slice_def)

lemma length_slice [simp, buf_simps]: "p + n \<le> length b \<Longrightarrow> length (slice b p n) = n"
  by (simp add: slice_def)

lemma slice_splice_disjoint:
  assumes "p + length xs \<le> length b" "q + n \<le> length b" "q + n \<le> p \<or> p + length xs \<le> q"
  shows "slice (splice b p xs) q n = slice b q n"
  using assms by (intro nth_equalityI) (auto simp: nth_slice nth_splice)

lemma store_bytes_eq:
  "store_bytes b p xs =
     (if xs = [] \<or> p + length xs \<le> length b then Inr (splice b p xs) else Inl OutOfBounds)"
proof (induction xs arbitrary: b p)
  case (Cons x xs)
  show ?case
  proof (cases "p < length b")
    case True
    then show ?thesis
      using Cons.IH [of "b[p := x]" "Suc p"] by (auto simp: store8_def splice_Cons)
  next
    case False
    then show ?thesis by (simp add: store8_def)
  qed
qed simp

lemma store_bytes_ok:
  "p + length xs \<le> length b \<Longrightarrow> store_bytes b p xs = Inr (splice b p xs)"
  by (simp add: store_bytes_eq)

lemma store_bytes_out:
  "xs \<noteq> [] \<Longrightarrow> length b < p + length xs \<Longrightarrow> store_bytes b p xs = Inl OutOfBounds"
  by (simp add: store_bytes_eq)

text \<open>Consecutive runs of stores are one run.\<close>

lemma store_bytes_split:
  "store_bytes b p (xs @ ys) =
   rbind (store_bytes b p xs) (\<lambda>b. store_bytes b (p + length xs) ys)"
  by (induction xs arbitrary: b p) (simp_all add: rbind_assoc)

section \<open>Little-endian words\<close>

definition byte_of :: "nat \<Rightarrow> 'a::len word \<Rightarrow> u8" where
  "byte_of i w = ucast (drop_bit (8 * i) w)"

definition le_bytes :: "nat \<Rightarrow> 'a::len word \<Rightarrow> u8 list" where
  "le_bytes n w = map (\<lambda>i. byte_of i w) [0..<n]"

definition le16 :: "u8 \<Rightarrow> u8 \<Rightarrow> u16" where
  "le16 a b = ucast a OR push_bit 8 (ucast b)"

definition le32 :: "u8 \<Rightarrow> u8 \<Rightarrow> u8 \<Rightarrow> u8 \<Rightarrow> u32" where
  "le32 a b c d =
     ucast a OR push_bit 8 (ucast b) OR push_bit 16 (ucast c) OR push_bit 24 (ucast d)"

lemma length_le_bytes [simp, buf_simps]: "length (le_bytes n w) = n"
  by (simp add: le_bytes_def)

lemma le_bytes_Nil [simp, buf_simps]: "le_bytes n w = [] \<longleftrightarrow> n = 0"
  by (simp add: le_bytes_def)

lemma nth_le_bytes [buf_simps]: "i < n \<Longrightarrow> le_bytes n w ! i = byte_of i w"
  by (simp add: le_bytes_def)

lemma bit_byte_of: "bit (byte_of i w) k \<longleftrightarrow> k < 8 \<and> bit w (8 * i + k)"
  by (auto simp: byte_of_def bit_simps)

lemma bit_le16:
  "bit (le16 a b) k \<longleftrightarrow> (if k < 8 then bit a k else k < 16 \<and> bit b (k - 8))"
  using bit_imp_le_length [of a k] by (auto simp: le16_def bit_simps)

lemma bit_le32:
  "bit (le32 a b c d) k \<longleftrightarrow>
     (if k < 8 then bit a k else if k < 16 then bit b (k - 8)
      else if k < 24 then bit c (k - 16) else k < 32 \<and> bit d (k - 24))"
  using bit_imp_le_length [of a k] bit_imp_le_length [of b "k - 8"]
    bit_imp_le_length [of c "k - 16"]
  by (auto simp: le32_def bit_simps)

lemma le16_byte_of [simp]: "le16 (byte_of 0 w) (byte_of (Suc 0) w) = (w :: u16)"
  by (rule bit_word_eqI) (auto simp: bit_le16 bit_byte_of)

lemma le32_byte_of [simp]:
  "le32 (byte_of 0 w) (byte_of (Suc 0) w) (byte_of 2 w) (byte_of 3 w) = (w :: u32)"
  by (rule bit_word_eqI) (auto simp: bit_le32 bit_byte_of)

lemma le_bytes_2: "le_bytes 2 w = [byte_of 0 w, byte_of (Suc 0) w]"
  by (simp add: le_bytes_def upt_rec)

lemma le_bytes_4: "le_bytes 4 w = [byte_of 0 w, byte_of (Suc 0) w, byte_of 2 w, byte_of 3 w]"
  by (simp add: le_bytes_def upt_rec eval_nat_numeral)

lemma le_bytes_8: "le_bytes 8 w =
    [byte_of 0 w, byte_of (Suc 0) w, byte_of 2 w, byte_of 3 w, byte_of 4 w, byte_of 5 w,
     byte_of 6 w, byte_of 7 w]"
  by (simp add: le_bytes_def upt_rec eval_nat_numeral)

text \<open>Reading a word back from a buffer.\<close>

definition read_le16 :: "u8 list \<Rightarrow> nat \<Rightarrow> u16 res" where
  "read_le16 b p = rbind (load8 b p) (\<lambda>b0. rbind (load8 b (p + 1)) (\<lambda>b1. Inr (le16 b0 b1)))"

definition read_le32 :: "u8 list \<Rightarrow> nat \<Rightarrow> u32 res" where
  "read_le32 b p =
     rbind (load8 b p) (\<lambda>b0. rbind (load8 b (p + 1)) (\<lambda>b1.
     rbind (load8 b (p + 2)) (\<lambda>b2. rbind (load8 b (p + 3)) (\<lambda>b3. Inr (le32 b0 b1 b2 b3)))))"

lemma read_le16_slice:
  assumes "slice b p 2 = le_bytes 2 w" "p + 2 \<le> length b"
  shows "read_le16 b p = Inr w"
proof -
  have "b ! (p + i) = le_bytes 2 w ! i" if "i < 2" for i
    using nth_slice [OF that assms(2)] assms(1) by simp
  from this [of 0] this [of 1] show ?thesis
    using assms(2) by (simp add: read_le16_def load8_def le_bytes_2)
qed

lemma read_le32_slice:
  assumes "slice b p 4 = le_bytes 4 w" "p + 4 \<le> length b"
  shows "read_le32 b p = Inr w"
proof -
  have "b ! (p + i) = le_bytes 4 w ! i" if "i < 4" for i
    using nth_slice [OF that assms(2)] assms(1) by simp
  from this [of 0] this [of 1] this [of 2] this [of 3] show ?thesis
    using assms(2) by (simp add: read_le32_def load8_def le_bytes_4)
qed

lemma slice_splice_part:
  assumes "p + length (xs @ ys @ zs) \<le> length b"
  shows "slice (splice b p (xs @ ys @ zs)) (p + length xs) (length ys) = ys"
  using assms by (simp add: slice_def splice_def)

end
