(* ===== verification/Fd_File.thy ===== *)
theory Fd_File
  imports Art_Prelude
begin

text \<open>
  unix\_file::FdFile (runtime/base/unix\_file/fd\_file.cc), the file class behind the trace
  files and the coverage file, with its guard state machine: a checked file must be flushed
  and closed before it is destroyed.

  The kernel is not part of the repository. Each file carries the answers the kernel gives to
  the system calls made on it, in order (\<open>kernel\<close>): \<open>Inl errno\<close> for a return value of -1,
  \<open>Inr n\<close> for a return value n. After the listed answers every call fails with EIO, so every
  execution whose system calls return is covered by some list. POSIX's guarantee that write
  accepts at most the requested number of bytes is built into \<open>write\<close> by taking a prefix.
\<close>

type_synonym sysret = "nat + nat"

abbreviation EINTR :: nat where "EINTR \<equiv> 4"
abbreviation EIO :: nat where "EIO \<equiv> 5"

section \<open>Guard states\<close>

datatype GuardState = kBase | kFlushed | kClosed | kNoCheck

fun guard_rank :: "GuardState \<Rightarrow> nat" where
  "guard_rank kBase = 0"
| "guard_rank kFlushed = 1"
| "guard_rank kClosed = 2"
| "guard_rank kNoCheck = 3"

lemma guard_rank_inject [simp]: "guard_rank a = guard_rank b \<longleftrightarrow> a = b"
  by (cases a; cases b) simp_all

instantiation GuardState :: linorder
begin

definition less_eq_GuardState :: "GuardState \<Rightarrow> GuardState \<Rightarrow> bool" where
  "less_eq_GuardState a b \<longleftrightarrow> guard_rank a \<le> guard_rank b"

definition less_GuardState :: "GuardState \<Rightarrow> GuardState \<Rightarrow> bool" where
  "less_GuardState a b \<longleftrightarrow> guard_rank a < guard_rank b"

instance
  by standard (auto simp: less_eq_GuardState_def less_GuardState_def)

end

lemmas guard_order = less_eq_GuardState_def less_GuardState_def

record FdFile =
  guard_state :: GuardState
  fd_num :: int
  file_path :: string
  auto_close :: bool
  file_bytes :: "u8 list"     \<comment> \<open>contents of the file, as the kernel holds them\<close>
  kernel :: "sysret list"     \<comment> \<open>the kernel's answers to the next system calls\<close>

section \<open>Operations\<close>

definition new_FdFile :: "sysret list \<Rightarrow> FdFile" where
  "new_FdFile ks = \<lparr>guard_state = kClosed, fd_num = -1, file_path = '''', auto_close = True,
     file_bytes = [], kernel = ks\<rparr>"

definition syscall :: "FdFile \<Rightarrow> sysret \<times> FdFile" where
  "syscall f = (case kernel f of [] \<Rightarrow> (Inl EIO, f) | r # rs \<Rightarrow> (r, f\<lparr>kernel := rs\<rparr>))"

text \<open>TEMP\_FAILURE\_RETRY: repeat the call while it fails with EINTR.\<close>

fun drop_EINTR :: "sysret list \<Rightarrow> sysret list" where
  "drop_EINTR (Inl e # rs) = (if e = EINTR then drop_EINTR rs else Inl e # rs)"
| "drop_EINTR rs = rs"

definition TEMP_FAILURE_RETRY :: "FdFile \<Rightarrow> sysret \<times> FdFile" where
  "TEMP_FAILURE_RETRY f = syscall (f\<lparr>kernel := drop_EINTR (kernel f)\<rparr>)"

fun ret_code :: "sysret \<Rightarrow> int" where
  "ret_code (Inl e) = - int e"
| "ret_code (Inr n) = int n"

definition moveTo :: "GuardState \<Rightarrow> FdFile \<Rightarrow> FdFile" where
  "moveTo target f = (if guard_state f < kNoCheck then f\<lparr>guard_state := target\<rparr> else f)"

definition moveUp :: "GuardState \<Rightarrow> FdFile \<Rightarrow> FdFile" where
  "moveUp target f =
     (if guard_state f < kNoCheck
      then if guard_state f < target then f\<lparr>guard_state := target\<rparr> else f
      else f)"

definition DisableAutoClose :: "FdFile \<Rightarrow> FdFile" where
  "DisableAutoClose f = f\<lparr>auto_close := False\<rparr>"

definition MarkUnchecked :: "FdFile \<Rightarrow> FdFile" where
  "MarkUnchecked f = f\<lparr>guard_state := kNoCheck\<rparr>"

text \<open>
  Open: \<open>writable\<close> is \<open>flags & (O_RDWR | O_CREAT | O_WRONLY) != 0\<close>, \<open>trunc\<close> is
  \<open>flags & O_TRUNC\<close>, \<open>old\<close> the contents the named file had before the call.
\<close>

definition Open :: "string \<Rightarrow> bool \<Rightarrow> bool \<Rightarrow> u8 list \<Rightarrow> FdFile \<Rightarrow> (bool \<times> FdFile) res" where
  "Open path writable trunc old f =
     rbind (check (fd_num f = -1) CheckFailed) (\<lambda>_.
       case TEMP_FAILURE_RETRY f of
         (Inl e, f) \<Rightarrow> Inr (False, f)
       | (Inr n, f) \<Rightarrow> Inr (True, f\<lparr>fd_num := int n, file_path := path,
             file_bytes := (if trunc then [] else old),
             guard_state := (if writable then kBase else kNoCheck)\<rparr>))"

definition Close :: "FdFile \<Rightarrow> (int \<times> FdFile) res" where
  "Close f =
     (case syscall f of (result, f) \<Rightarrow>
        rbind (check (kFlushed \<le> guard_state f) CheckFailed) (\<lambda>_.
          let f = moveUp kClosed f in
          case result of
            Inl e \<Rightarrow> Inr (- int e, f)
          | Inr _ \<Rightarrow> Inr (0, f\<lparr>fd_num := -1, file_path := ''''\<rparr>)))"

definition Flush :: "FdFile \<Rightarrow> int \<times> FdFile" where
  "Flush f = (case TEMP_FAILURE_RETRY f of (rc, f) \<Rightarrow> (ret_code rc, moveUp kFlushed f))"

definition resize :: "nat \<Rightarrow> u8 list \<Rightarrow> u8 list" where
  "resize n bs = take n bs @ replicate (n - length bs) 0"

definition SetLength :: "nat \<Rightarrow> FdFile \<Rightarrow> int \<times> FdFile" where
  "SetLength new_length f =
     (case TEMP_FAILURE_RETRY f of
        (Inl e, f) \<Rightarrow> (- int e, moveTo kBase f)
      | (Inr n, f) \<Rightarrow> (int n, moveTo kBase (f\<lparr>file_bytes := resize new_length (file_bytes f)\<rparr>)))"

definition GetLength :: "FdFile \<Rightarrow> int \<times> FdFile" where
  "GetLength f =
     (case TEMP_FAILURE_RETRY f of
        (Inl e, f) \<Rightarrow> (- int e, f)
      | (Inr _, f) \<Rightarrow> (int (length (file_bytes f)), f))"

definition Write :: "u8 list \<Rightarrow> nat \<Rightarrow> FdFile \<Rightarrow> int \<times> FdFile" where
  "Write buf offset f =
     (case TEMP_FAILURE_RETRY f of
        (Inl e, f) \<Rightarrow> (- int e, moveTo kBase f)
      | (Inr n, f) \<Rightarrow>
          (let bs = take n buf; old = file_bytes f;
               new = resize (max (length old) (offset + length bs)) old
           in (int n, moveTo kBase (f\<lparr>file_bytes := splice new offset bs\<rparr>))))"

lemma length_drop_EINTR: "length (drop_EINTR rs) \<le> length rs"
  by (induction rs rule: drop_EINTR.induct) auto

lemma TEMP_FAILURE_RETRY_kernel:
  "TEMP_FAILURE_RETRY f = (Inr n, f') \<Longrightarrow> length (kernel f') < length (kernel f)"
  using length_drop_EINTR [of "kernel f"]
  by (auto simp: TEMP_FAILURE_RETRY_def syscall_def split: list.splits)

text \<open>The loop of WriteFully; each round consumes at least one answer of the kernel.\<close>

function write_loop :: "u8 list \<Rightarrow> FdFile \<Rightarrow> bool \<times> FdFile" where
  "write_loop buf f =
     (if buf = [] then (True, f)
      else case TEMP_FAILURE_RETRY f of
             (Inl e, f') \<Rightarrow> (False, f')
           | (Inr n, f') \<Rightarrow>
               write_loop (drop n buf) (f'\<lparr>file_bytes := file_bytes f' @ take n buf\<rparr>))"
  by pat_completeness auto
termination
  by (relation "measure (\<lambda>(buf, f). length (kernel f))")
    (auto dest: TEMP_FAILURE_RETRY_kernel [OF sym])

declare write_loop.simps [simp del]

definition WriteFully :: "u8 list \<Rightarrow> FdFile \<Rightarrow> bool \<times> FdFile" where
  "WriteFully buf f = write_loop buf (moveTo kBase f)"

definition Erase :: "FdFile \<Rightarrow> FdFile res" where
  "Erase f = rbind (Close (snd (Flush (snd (SetLength 0 f))))) (\<lambda>(_, f). Inr f)"

definition FlushCloseOrErase :: "FdFile \<Rightarrow> (int \<times> FdFile) res" where
  "FlushCloseOrErase f =
     (let (flush_result, f) = Flush f in
      if flush_result \<noteq> 0 then rbind (Erase f) (\<lambda>f. Inr (flush_result, f))
      else rbind (Close f) (\<lambda>(close_result, f).
        if close_result \<noteq> 0 then rbind (Erase f) (\<lambda>f. Inr (close_result, f))
        else Inr (0, f)))"

definition FlushClose :: "FdFile \<Rightarrow> (int \<times> FdFile) res" where
  "FlushClose f =
     (let (flush_result, f) = Flush f in
      rbind (Close f) (\<lambda>(close_result, f).
        Inr (if flush_result \<noteq> 0 then flush_result else close_result, f)))"

text \<open>The destructor; the result is the file's final state.\<close>

definition destroy_FdFile :: "FdFile \<Rightarrow> FdFile res" where
  "destroy_FdFile f =
     rbind (check (guard_state f < kNoCheck \<longrightarrow> kClosed \<le> guard_state f) CheckFailed) (\<lambda>_.
       if auto_close f \<and> fd_num f \<noteq> -1 then rbind (Close f) (\<lambda>(_, f). Inr f) else Inr f)"

text \<open>OS::CreateEmptyFile and OS::OpenFileWithFlags (runtime/os\_linux.cc).\<close>

definition OpenFileWithFlags ::
    "string \<Rightarrow> bool \<Rightarrow> bool \<Rightarrow> u8 list \<Rightarrow> sysret list \<Rightarrow> FdFile option res" where
  "OpenFileWithFlags name writable trunc old ks =
     rbind (Open name writable trunc old (new_FdFile ks)) (\<lambda>(ok, f).
       if ok then Inr (Some f) else rbind (destroy_FdFile f) (\<lambda>_. Inr None))"

definition CreateEmptyFile :: "string \<Rightarrow> sysret list \<Rightarrow> FdFile option res" where
  "CreateEmptyFile name ks = OpenFileWithFlags name True True [] ks"

section \<open>Lemmas\<close>

lemma syscall_frame:
  assumes "syscall f = (r, f')"
  shows "guard_state f' = guard_state f" "fd_num f' = fd_num f" "file_bytes f' = file_bytes f"
    "auto_close f' = auto_close f"
  using assms by (auto simp: syscall_def split: list.splits)

lemma retry_frame:
  assumes "TEMP_FAILURE_RETRY f = (r, f')"
  shows "guard_state f' = guard_state f" "fd_num f' = fd_num f" "file_bytes f' = file_bytes f"
    "auto_close f' = auto_close f"
  using syscall_frame [of "f\<lparr>kernel := drop_EINTR (kernel f)\<rparr>" r f'] assms
  by (simp_all add: TEMP_FAILURE_RETRY_def)

lemma moveTo_simps [simp]:
  "file_bytes (moveTo g f) = file_bytes f" "kernel (moveTo g f) = kernel f"
  "fd_num (moveTo g f) = fd_num f" "auto_close (moveTo g f) = auto_close f"
  by (simp_all add: moveTo_def)

lemma moveUp_simps [simp]:
  "file_bytes (moveUp g f) = file_bytes f" "kernel (moveUp g f) = kernel f"
  "fd_num (moveUp g f) = fd_num f" "auto_close (moveUp g f) = auto_close f"
  by (simp_all add: moveUp_def)

lemma guard_moveTo:
  "guard_state (moveTo g f) = (if guard_state f = kNoCheck then kNoCheck else g)"
  by (cases "guard_state f") (simp_all add: moveTo_def guard_order)

lemma guard_moveUp:
  "guard_state (moveUp g f) = (if guard_state f = kNoCheck then kNoCheck else max g (guard_state f))"
  by (cases "guard_state f"; cases g) (simp_all add: moveUp_def guard_order max_def)

lemma write_loop_spec:
  assumes "write_loop buf f = (ok, f')"
  shows "\<exists>k \<le> length buf. file_bytes f' = file_bytes f @ take k buf \<and> (ok \<longrightarrow> k = length buf)"
  using assms
proof (induction buf f rule: write_loop.induct)
  case (1 buf f)
  show ?case
  proof (cases "buf = []")
    case True
    with "1.prems" show ?thesis by (simp add: write_loop.simps)
  next
    case False
    obtain r g where rg: "TEMP_FAILURE_RETRY f = (r, g)" by force
    note g = retry_frame(3) [OF rg]
    show ?thesis
    proof (cases r)
      case (Inl e)
      with "1.prems" False rg g show ?thesis by (auto simp: write_loop.simps [of buf f])
    next
      case (Inr n)
      with "1.prems" False rg have
        "write_loop (drop n buf) (g\<lparr>file_bytes := file_bytes g @ take n buf\<rparr>) = (ok, f')"
        by (simp add: write_loop.simps [of buf f])
      from "1.IH" [OF False rg [symmetric] Inr this]
      obtain k where k: "k \<le> length buf - n"
        "file_bytes f' = file_bytes f @ take n buf @ take k (drop n buf)" "ok \<longrightarrow> k = length buf - n"
        by (auto simp: g)
      have "take n buf @ take k (drop n buf) = take (n + k) buf" by (simp add: take_add)
      with k show ?thesis
        by (intro exI [of _ "min (n + k) (length buf)"]) (auto simp: min_def)
    qed
  qed
qed

lemma write_loop_guard: "guard_state (snd (write_loop buf f)) = guard_state f"
proof (induction buf f rule: write_loop.induct)
  case (1 buf f)
  show ?case
  proof (cases "buf = []")
    case False
    obtain r g where rg: "TEMP_FAILURE_RETRY f = (r, g)" by force
    with False 1 [OF False rg [symmetric]] retry_frame(1) [OF rg] show ?thesis
      by (cases r) (simp_all add: write_loop.simps [of buf f])
  qed (simp add: write_loop.simps)
qed

lemma WriteFully_guard:
  "guard_state (snd (WriteFully buf f)) = (if guard_state f = kNoCheck then kNoCheck else kBase)"
  by (simp add: WriteFully_def write_loop_guard guard_moveTo)

lemma WriteFully_ok: "WriteFully buf f = (True, f') \<Longrightarrow> file_bytes f' = file_bytes f @ buf"
  using write_loop_spec [of buf "moveTo kBase f" True f'] by (simp add: WriteFully_def)

lemma Flush_guard:
  "guard_state (snd (Flush f)) =
     (if guard_state f = kNoCheck then kNoCheck else max kFlushed (guard_state f))"
  by (cases "TEMP_FAILURE_RETRY f") (simp add: Flush_def guard_moveUp retry_frame(1))

lemma Flush_bytes [simp]: "file_bytes (snd (Flush f)) = file_bytes f"
  by (cases "TEMP_FAILURE_RETRY f") (simp add: Flush_def retry_frame(3))

lemma Close_ok:
  assumes "kFlushed \<le> guard_state f"
  obtains rc f' where "Close f = Inr (rc, f')" "kClosed \<le> guard_state f'"
    "file_bytes f' = file_bytes f" "auto_close f' = auto_close f"
    "rc = 0 \<longrightarrow> fd_num f' = -1 \<or> fd_num f' = fd_num f"
proof -
  obtain r g where rg: "syscall f = (r, g)" by force
  with assms show ?thesis
    by (cases r; cases "guard_state f")
      (auto simp: Close_def Let_def guard_order guard_moveUp max_def syscall_frame [OF rg] intro!: that)
qed

lemma Close_unflushed: "guard_state f = kBase \<Longrightarrow> Close f = Inl CheckFailed"
proof -
  assume g: "guard_state f = kBase"
  obtain r f' where rg: "syscall f = (r, f')" by force
  show "Close f = Inl CheckFailed"
    using syscall_frame(1) [OF rg] rg g by (simp add: Close_def guard_order)
qed

lemma SetLength_guard:
  "guard_state (snd (SetLength n f)) = (if guard_state f = kNoCheck then kNoCheck else kBase)"
  by (cases "TEMP_FAILURE_RETRY f"; cases "fst (TEMP_FAILURE_RETRY f)")
    (auto simp: SetLength_def guard_moveTo retry_frame)

lemma Flush_at_least: "kFlushed \<le> guard_state (snd (Flush f))"
  by (cases "guard_state f") (simp_all add: Flush_guard guard_order max_def)

lemma Erase_ok:
  obtains f' where "Erase f = Inr f'" "kClosed \<le> guard_state f'"
proof (rule Close_ok [OF Flush_at_least])
  fix rc f'
  assume "Close (snd (Flush (snd (SetLength 0 f)))) = Inr (rc, f')" "kClosed \<le> guard_state f'"
  then show thesis by (intro that [of f']) (simp_all add: Erase_def)
qed

text \<open>Whatever the kernel answers, FlushCloseOrErase ends with the file closed and
  without a failed check; when it reports success the contents are kept.\<close>

lemma FlushCloseOrErase_closes:
  "\<exists>rc f'. FlushCloseOrErase f = Inr (rc, f') \<and> kClosed \<le> guard_state f' \<and>
     (rc = 0 \<longrightarrow> file_bytes f' = file_bytes f)"
proof -
  obtain fr g where g: "Flush f = (fr, g)" by force
  from Flush_at_least [of f] g have fl: "kFlushed \<le> guard_state g" by simp
  from Flush_bytes [of f] g have kept: "file_bytes g = file_bytes f" by simp
  obtain cr h where h: "Close g = Inr (cr, h)" "kClosed \<le> guard_state h" "file_bytes h = file_bytes g"
    by (rule Close_ok [OF fl])
  obtain e1 where e1: "Erase g = Inr e1" "kClosed \<le> guard_state e1" by (rule Erase_ok)
  obtain e2 where e2: "Erase h = Inr e2" "kClosed \<le> guard_state e2" by (rule Erase_ok)
  show ?thesis
    using g kept h e1 e2 by (simp add: FlushCloseOrErase_def)
qed

lemma destroy_open_file:
  "guard_state f < kClosed \<Longrightarrow> destroy_FdFile f = Inl CheckFailed"
  by (cases "guard_state f") (simp_all add: destroy_FdFile_def guard_order)

lemma CreateEmptyFile_unchecked:
  assumes "CreateEmptyFile name ks = Inr (Some f)"
  shows "guard_state f = kBase"
  using assms syscall_frame(1)
  by (auto simp: CreateEmptyFile_def OpenFileWithFlags_def Open_def Let_def new_FdFile_def TEMP_FAILURE_RETRY_def
      rbind_eq_Inr check_def moveTo_def split: if_splits prod.splits sum.splits)

lemma destroy_closed_file:
  "kClosed \<le> guard_state f \<Longrightarrow> \<exists>f'. destroy_FdFile f = Inr f'"
proof -
  assume c: "kClosed \<le> guard_state f"
  then have "kFlushed \<le> guard_state f" by (cases "guard_state f") (simp_all add: guard_order)
  then obtain rc f' where "Close f = Inr (rc, f')" by (rule Close_ok)
  with c show ?thesis by (simp add: destroy_FdFile_def)
qed



end
