(* ===== verification/Safe_Map.thy ===== *)
theory Safe_Map
  imports Art_Prelude
begin

text \<open>
  SafeMap (runtime/safe\_map.h), the std::map without operator[] that holds the names of the
  exited threads and the instrumentation level of each client. A map is the list of its
  entries in iteration order, that is by increasing key. The DCHECK of Put is a debug-build
  assertion; in the release build modelled here Put keeps an entry that is already there.
\<close>

type_synonym ('k, 'v) safe_map = "('k \<times> 'v) list"

section \<open>Operations\<close>

fun emplace :: "'k::linorder \<Rightarrow> 'v \<Rightarrow> ('k, 'v) safe_map \<Rightarrow> ('k, 'v) safe_map \<times> bool" where
  "emplace k v [] = ([(k, v)], True)"
| "emplace k v ((k', v') # m) =
     (if k < k' then ((k, v) # (k', v') # m, True)
      else if k = k' then ((k', v') # m, False)
      else let (m', inserted) = emplace k v m in ((k', v') # m', inserted))"

definition Put :: "'k::linorder \<Rightarrow> 'v \<Rightarrow> ('k, 'v) safe_map \<Rightarrow> ('k, 'v) safe_map" where
  "Put k v m = fst (emplace k v m)"

definition find_entry :: "('k, 'v) safe_map \<Rightarrow> 'k \<Rightarrow> 'v option" where
  "find_entry m k = map_of m k"

definition Get :: "'k \<Rightarrow> ('k, 'v) safe_map \<Rightarrow> 'v res" where
  "Get k m = (case find_entry m k of Some v \<Rightarrow> Inr v | None \<Rightarrow> Inl NullPointer)"

text \<open>insert, then an assignment through the iterator when the key was present.\<close>

definition Overwrite :: "'k::linorder \<Rightarrow> 'v \<Rightarrow> ('k, 'v) safe_map \<Rightarrow> ('k, 'v) safe_map" where
  "Overwrite k v m =
     (let (m', inserted) = emplace k v m in
      if inserted then m' else map (\<lambda>(k', v'). if k' = k then (k', v) else (k', v')) m')"

definition erase :: "'k \<Rightarrow> ('k, 'v) safe_map \<Rightarrow> ('k, 'v) safe_map" where
  "erase k m = filter (\<lambda>(k', _). k' \<noteq> k) m"

definition sm_inv :: "('k::linorder, 'v) safe_map \<Rightarrow> bool" where
  "sm_inv m \<longleftrightarrow> sorted_wrt (<) (map fst m)"

definition sm_keys :: "('k, 'v) safe_map \<Rightarrow> 'k set" where
  "sm_keys m = set (map fst m)"

section \<open>The contract of a map\<close>

locale map_contract =
  fixes inv :: "'m \<Rightarrow> bool"
    and lookup :: "'m \<Rightarrow> 'k \<Rightarrow> 'v option"
    and put :: "'k \<Rightarrow> 'v \<Rightarrow> 'm \<Rightarrow> 'm"
    and overwrite :: "'k \<Rightarrow> 'v \<Rightarrow> 'm \<Rightarrow> 'm"
    and remove :: "'k \<Rightarrow> 'm \<Rightarrow> 'm"
  assumes inv_put: "inv m \<Longrightarrow> inv (put k v m)"
    and inv_overwrite: "inv m \<Longrightarrow> inv (overwrite k v m)"
    and inv_remove: "inv m \<Longrightarrow> inv (remove k m)"
    and lookup_put: "inv m \<Longrightarrow>
      lookup (put k v m) = (case lookup m k of None \<Rightarrow> (lookup m)(k := Some v) | Some _ \<Rightarrow> lookup m)"
    and lookup_overwrite: "inv m \<Longrightarrow> lookup (overwrite k v m) = (lookup m)(k := Some v)"
    and lookup_remove: "inv m \<Longrightarrow> lookup (remove k m) = (lookup m)(k := None)"
begin

lemma put_keeps_first: "inv m \<Longrightarrow> lookup (put k w (put k v m)) k = lookup (put k v m) k"
  by (simp add: lookup_put inv_put split: option.splits)

lemma put_fresh: "inv m \<Longrightarrow> lookup m k = None \<Longrightarrow> lookup (put k v m) = lookup (overwrite k v m)"
  by (simp add: lookup_put lookup_overwrite)

lemma remove_overwrite:
  "inv m \<Longrightarrow> lookup m k = None \<Longrightarrow> lookup (remove k (overwrite k v m)) = lookup m"
  by (simp add: lookup_remove lookup_overwrite inv_overwrite fun_upd_idem)

end

section \<open>SafeMap meets the contract\<close>

lemma emplace_Cons:
  "fst (emplace k v ((k', v') # m)) =
     (if k < k' then (k, v) # (k', v') # m else if k = k' then (k', v') # m
      else (k', v') # fst (emplace k v m))"
  "snd (emplace k v ((k', v') # m)) =
     (if k < k' then True else if k = k' then False else snd (emplace k v m))"
  by (simp_all add: case_prod_beta Let_def)

declare emplace.simps(2) [simp del] emplace_Cons [simp]

lemma sm_keys_simps [simp]:
  "sm_keys [] = {}" "sm_keys ((k, v) # m) = insert k (sm_keys m)"
  by (simp_all add: sm_keys_def)

lemma sm_inv_simps [simp]:
  "sm_inv []" "sm_inv ((k, v) # m) \<longleftrightarrow> (\<forall>a \<in> sm_keys m. k < a) \<and> sm_inv m"
  by (simp_all add: sm_inv_def sm_keys_def)

lemma map_of_keys: "map_of m k = None \<longleftrightarrow> k \<notin> sm_keys m"
  by (simp add: sm_keys_def map_of_eq_None_iff)

lemma keys_emplace: "sm_keys (fst (emplace k v m)) = insert k (sm_keys m)"
  by (induction m) (auto split: if_splits)

lemma inv_emplace: "sm_inv m \<Longrightarrow> sm_inv (fst (emplace k v m))"
proof (induction m)
  case (Cons e m)
  obtain k' v' where e: "e = (k', v')" by force
  have "k < a" if "k < k'" "a \<in> sm_keys m" for a
    using that Cons.prems by (auto simp: e intro: less_trans)
  with Cons show ?case by (cases k k' rule: linorder_cases) (auto simp: e keys_emplace)
qed simp

lemma emplace_snd: "sm_inv m \<Longrightarrow> snd (emplace k v m) \<longleftrightarrow> k \<notin> sm_keys m"
  by (induction m) (auto split: if_splits dest!: bspec [of _ _ k] dest: less_asym)

lemma map_of_emplace:
  "sm_inv m \<Longrightarrow> map_of (fst (emplace k v m)) =
     (case map_of m k of None \<Rightarrow> (map_of m)(k := Some v) | Some _ \<Rightarrow> map_of m)"
proof (induction m)
  case (Cons e m)
  obtain k' v' where e: "e = (k', v')" by force
  have "map_of m k = None" if "k < k'"
    using that Cons.prems by (auto simp: e map_of_keys)
  with Cons show ?case
    by (auto simp: e fun_eq_iff split: option.splits)
qed (simp add: fun_eq_iff)

lemma emplace_present: "sm_inv m \<Longrightarrow> k \<in> sm_keys m \<Longrightarrow> fst (emplace k v m) = m"
  by (induction m) (auto dest!: bspec [of _ _ k] dest: less_asym)

lemma fst_replace: "map fst (map (\<lambda>(k', v'). if k' = k then (k', v) else (k', v')) m) = map fst m"
  by (auto simp: comp_def case_prod_beta)

lemma map_of_replace:
  "map_of (map (\<lambda>(k', v'). if k' = k then (k', v) else (k', v')) m) =
     (if k \<in> sm_keys m then (map_of m)(k := Some v) else map_of m)"
  by (induction m) (auto simp: fun_eq_iff)

lemma Overwrite_eq:
  assumes "sm_inv m"
  shows "Overwrite k v m = (if k \<in> sm_keys m
     then map (\<lambda>(k', v'). if k' = k then (k', v) else (k', v')) m else fst (emplace k v m))"
  using emplace_snd [OF assms, of k v] emplace_present [OF assms, of k v]
  by (simp add: Overwrite_def case_prod_beta Let_def)

lemma inv_Overwrite: "sm_inv m \<Longrightarrow> sm_inv (Overwrite k v m)"
  using inv_emplace [of m k v] by (simp add: Overwrite_eq sm_inv_def fst_replace del: map_map)

lemma map_of_Overwrite: "sm_inv m \<Longrightarrow> map_of (Overwrite k v m) = (map_of m)(k := Some v)"
  using map_of_emplace [of m k v]
  by (auto simp: Overwrite_eq map_of_replace map_of_keys simp flip: map_of_keys split: option.splits)

lemma inv_erase: "sm_inv m \<Longrightarrow> sm_inv (erase k m)"
  by (induction m) (auto simp: sm_inv_def erase_def)

lemma map_of_erase: "map_of (erase k m) = (map_of m)(k := None)"
  by (induction m) (auto simp: erase_def fun_eq_iff)

interpretation sm: map_contract sm_inv find_entry Put Overwrite erase
proof
qed (auto simp: Put_def find_entry_def fun_eq_iff inv_emplace inv_Overwrite inv_erase
    map_of_emplace map_of_Overwrite map_of_erase split: option.splits)

lemma set_map_of: "sm_inv m \<Longrightarrow> (k, v) \<in> set m \<longleftrightarrow> find_entry m k = Some v"
proof -
  assume "sm_inv m"
  then have "distinct (map fst m)" by (simp add: sm_inv_def strict_sorted_iff)
  then show ?thesis by (simp add: find_entry_def)
qed

end
