(* ===== verification/MiniTrace_Record.thy ===== *)
theory MiniTrace_Record
  imports Art_Prelude
begin

text \<open>
  Trace records of runtime/mini\_trace.cc: the encoding of a pointer and an action in one
  word, the little-endian writers, and the layout of the three kinds of 14-byte records
  (method, field, monitor).
\<close>

section \<open>Actions and identifiers\<close>

datatype MiniTraceAction =
    kMiniTraceMethodEnter | kMiniTraceMethodExit | kMiniTraceUnroll
  | kMiniTraceFieldRead | kMiniTraceFieldWrite
  | kMiniTraceMonitorEnter | kMiniTraceMonitorExit
  | kMiniTraceActionMask

fun action_code :: "MiniTraceAction \<Rightarrow> u32" where
  "action_code kMiniTraceMethodEnter = 0"
| "action_code kMiniTraceMethodExit = 1"
| "action_code kMiniTraceUnroll = 2"
| "action_code kMiniTraceFieldRead = 3"
| "action_code kMiniTraceFieldWrite = 4"
| "action_code kMiniTraceMonitorEnter = 5"
| "action_code kMiniTraceMonitorExit = 6"
| "action_code kMiniTraceActionMask = 7"

text \<open>static\_cast of a value below 8 to the enumeration.\<close>

definition action_of_code :: "u32 \<Rightarrow> MiniTraceAction" where
  "action_of_code c =
     (if c = 0 then kMiniTraceMethodEnter else if c = 1 then kMiniTraceMethodExit
      else if c = 2 then kMiniTraceUnroll else if c = 3 then kMiniTraceFieldRead
      else if c = 4 then kMiniTraceFieldWrite else if c = 5 then kMiniTraceMonitorEnter
      else if c = 6 then kMiniTraceMonitorExit else kMiniTraceActionMask)"

definition kMiniTraceRecordSize :: nat where
  "kMiniTraceRecordSize = 14"

definition DecodeMiniTraceMethodId :: "u32 \<Rightarrow> ptr" where
  "DecodeMiniTraceMethodId tmid = tmid AND NOT (action_code kMiniTraceActionMask)"

definition DecodeMiniTraceFieldId :: "u32 \<Rightarrow> ptr" where
  "DecodeMiniTraceFieldId tfid = tfid AND NOT (action_code kMiniTraceActionMask)"

definition DecodeMiniTraceAction :: "u32 \<Rightarrow> MiniTraceAction" where
  "DecodeMiniTraceAction tmid = action_of_code (tmid AND action_code kMiniTraceActionMask)"

definition EncodeMiniTraceMethodAndAction :: "ptr \<Rightarrow> MiniTraceAction \<Rightarrow> u32" where
  "EncodeMiniTraceMethodAndAction method action = method OR action_code action"

definition EncodeMiniTraceFieldAndAction :: "ptr \<Rightarrow> MiniTraceAction \<Rightarrow> u32" where
  "EncodeMiniTraceFieldAndAction field action = field OR action_code action"

definition EncodeMiniTraceObjectAndAction :: "ptr \<Rightarrow> MiniTraceAction \<Rightarrow> u32" where
  "EncodeMiniTraceObjectAndAction obj action = obj OR action_code action"

definition EncodeMiniTraceObject :: "ptr \<Rightarrow> u32" where
  "EncodeMiniTraceObject obj = obj"

section \<open>Little-endian writers\<close>

definition Append2LE :: "u8 list \<Rightarrow> nat \<Rightarrow> u16 \<Rightarrow> u8 list res" where
  "Append2LE b p val = store_bytes b p [ucast val, ucast (drop_bit 8 val)]"

definition Append4LE :: "u8 list \<Rightarrow> nat \<Rightarrow> u32 \<Rightarrow> u8 list res" where
  "Append4LE b p val = store_bytes b p
     [ucast val, ucast (drop_bit 8 val), ucast (drop_bit 16 val), ucast (drop_bit 24 val)]"

definition Append8LE :: "u8 list \<Rightarrow> nat \<Rightarrow> u64 \<Rightarrow> u8 list res" where
  "Append8LE b p val = store_bytes b p
     [ucast val, ucast (drop_bit 8 val), ucast (drop_bit 16 val), ucast (drop_bit 24 val),
      ucast (drop_bit 32 val), ucast (drop_bit 40 val), ucast (drop_bit 48 val),
      ucast (drop_bit 56 val)]"

section \<open>The three record writers\<close>

text \<open>
  The data part of LogMethodTraceEvent, LogFieldTraceEvent and LogMonitorTraceEvent, from the
  encoding of the identifier on; \<open>p\<close> is \<open>old_offset\<close>. The thread id is the 32-bit result of
  GetTid, converted to the uint16\_t parameter of Append2LE.
\<close>

definition write_method_record ::
    "u8 list \<Rightarrow> nat \<Rightarrow> u32 \<Rightarrow> ptr \<Rightarrow> MiniTraceAction \<Rightarrow> u64 \<Rightarrow> u8 list res" where
  "write_method_record b p tid method action return_value =
     (let method_value = EncodeMiniTraceMethodAndAction method action in
      rbind (Append2LE b p (ucast tid)) (\<lambda>b.
      rbind (Append4LE b (p + 2) method_value) (\<lambda>b.
      Append8LE b (p + 4) return_value)))"

definition write_field_record ::
    "u8 list \<Rightarrow> nat \<Rightarrow> u32 \<Rightarrow> ptr \<Rightarrow> MiniTraceAction \<Rightarrow> ptr \<Rightarrow> u32 \<Rightarrow> u8 list res" where
  "write_field_record b p tid field action this_object dex_pc =
     (let field_value = EncodeMiniTraceFieldAndAction field action in
      rbind (Append2LE b p (ucast tid)) (\<lambda>b.
      rbind (Append4LE b (p + 2) field_value) (\<lambda>b.
      let p = p + 6; object_value = EncodeMiniTraceObject this_object in
      rbind (Append4LE b p object_value) (\<lambda>b.
      Append4LE b (p + 4) dex_pc))))"

definition write_monitor_record ::
    "u8 list \<Rightarrow> nat \<Rightarrow> u32 \<Rightarrow> ptr \<Rightarrow> MiniTraceAction \<Rightarrow> u32 \<Rightarrow> u8 list res" where
  "write_monitor_record b p tid lock_object action dex_pc =
     (let object_value = EncodeMiniTraceObjectAndAction lock_object action in
      rbind (Append2LE b p (ucast tid)) (\<lambda>b.
      rbind (Append4LE b (p + 2) object_value) (\<lambda>b.
      Append4LE b (p + 6) dex_pc)))"

text \<open>The read-back of FlushBuffer: \<open>ptr[2] | ptr[3] << 8 | ptr[4] << 16 | ptr[5] << 24\<close>.\<close>

definition record_aid :: "u8 list \<Rightarrow> nat \<Rightarrow> u32 res" where
  "record_aid b p =
     rbind (load8 b (p + 2)) (\<lambda>b2. rbind (load8 b (p + 3)) (\<lambda>b3.
     rbind (load8 b (p + 4)) (\<lambda>b4. rbind (load8 b (p + 5)) (\<lambda>b5.
     Inr (ucast b2 OR push_bit 8 (ucast b3) OR push_bit 16 (ucast b4) OR push_bit 24 (ucast b5))))))"

section \<open>Encoding lemmas\<close>

definition aligned8 :: "ptr \<Rightarrow> bool" where
  "aligned8 p \<longleftrightarrow> p AND 7 = 0"

lemma mask7: "(7 :: u32) = mask 3"
  by (simp add: mask_eq_exp_minus_1)

lemma action_code_le: "action_code a AND 7 = action_code a"
  by (cases a) simp_all

lemma action_code_not: "action_code a AND - 8 = 0"
  by (cases a) simp_all

lemma action_of_action_code [simp]: "action_of_code (action_code a) = a"
  by (cases a) (simp_all add: action_of_code_def)

lemma or_action_low: "(p OR action_code a) AND 7 = (p AND 7) OR action_code a"
  by (simp add: bit.conj_disj_distrib2 action_code_le)

lemma or_action_high: "(p OR action_code a) AND - 8 = p AND - 8"
  by (simp add: bit.conj_disj_distrib2 action_code_not)

lemma aligned_not7: "aligned8 p \<Longrightarrow> p AND - 8 = p"
proof -
  assume "aligned8 p"
  then have "p AND 7 = 0" by (simp add: aligned8_def)
  moreover have "p = (p AND 7) OR (p AND NOT 7)"
    by (rule bit_word_eqI) (auto simp: bit_simps)
  ultimately have "p = p AND NOT 7" by simp
  then show ?thesis by simp
qed

lemma decode_action_or:
  "aligned8 p \<Longrightarrow> DecodeMiniTraceAction (p OR action_code a) = a"
  by (simp add: DecodeMiniTraceAction_def or_action_low aligned8_def)

lemmas encode_defs =
  EncodeMiniTraceMethodAndAction_def EncodeMiniTraceFieldAndAction_def
  EncodeMiniTraceObjectAndAction_def EncodeMiniTraceObject_def
  DecodeMiniTraceMethodId_def DecodeMiniTraceFieldId_def

text \<open>An eight-byte aligned pointer and any action are both recovered from the encoded
  word; for a pointer that is not aligned the pointer is not recovered.\<close>

lemma encode_decode_roundtrip:
  "(DecodeMiniTraceMethodId (EncodeMiniTraceMethodAndAction p a) = p \<longleftrightarrow> aligned8 p) \<and>
   (DecodeMiniTraceFieldId (EncodeMiniTraceFieldAndAction p a) = p \<longleftrightarrow> aligned8 p) \<and>
   (aligned8 p \<longrightarrow> DecodeMiniTraceAction (EncodeMiniTraceMethodAndAction p a) = a \<and>
      DecodeMiniTraceAction (EncodeMiniTraceFieldAndAction p a) = a \<and>
      DecodeMiniTraceAction (EncodeMiniTraceObjectAndAction p a) = a)"
proof -
  have "p AND - 8 = p \<longleftrightarrow> aligned8 p"
  proof
    assume "p AND - 8 = p"
    then have "p AND 7 = (p AND - 8) AND 7" by simp
    also have "\<dots> = 0" by (simp add: and.assoc)
    finally show "aligned8 p" by (simp add: aligned8_def)
  qed (rule aligned_not7)
  then show ?thesis by (simp add: encode_defs or_action_high decode_action_or)
qed

section \<open>Layout of a record\<close>

text \<open>
  What the three writers promise: inside the buffer they put their bytes at the offset they
  are given and change nothing else, outside it they trap.
\<close>

locale trace_writer =
  fixes put :: "'e \<Rightarrow> u8 list \<Rightarrow> nat \<Rightarrow> u8 list res"
    and bytes :: "'e \<Rightarrow> u8 list"
  assumes put_eq:
      "put e b p = (if p + length (bytes e) \<le> length b then Inr (splice b p (bytes e))
                      else Inl OutOfBounds)"
    and bytes_min: "6 \<le> length (bytes e)"
    and bytes_max: "length (bytes e) \<le> 14"
begin

lemma put_in_bounds:
  assumes "p + 14 \<le> length b"
  shows "put e b p = Inr (splice b p (bytes e))"
  using assms bytes_max [of e] by (simp add: put_eq)

lemma put_ok:
  assumes "put e b p = Inr b'"
  shows "p + length (bytes e) \<le> length b" and "b' = splice b p (bytes e)" and "length b' = length b"
  using assms by (auto simp: put_eq split: if_splits)

lemma put_frame:
  assumes "put e b p = Inr b'" and "i < length b" and "i < p \<or> p + 14 \<le> i"
  shows "b' ! i = b ! i"
  using assms(2,3) bytes_max [of e] by (auto simp: put_ok(2) [OF assms(1)] nth_splice put_ok(1) [OF assms(1)])

lemma put_other_slot:
  assumes "put e b p = Inr b'" and "q + 14 \<le> length b" and "q + 14 \<le> p \<or> p + 14 \<le> q"
  shows "slice b' q 14 = slice b q 14"
  using assms(2,3) put_ok(3) [OF assms(1)]
  by (intro nth_equalityI) (auto simp: nth_slice put_frame [OF assms(1)])

lemma put_prefix:
  assumes "put e b p = Inr b'"
  shows "take p b' = take p b"
  using put_ok [OF assms] by (simp add: splice_def)

lemma aid_written:
  assumes "put e b p = Inr b'"
  shows "record_aid b' p = Inr (le32 (bytes e ! 2) (bytes e ! 3) (bytes e ! 4) (bytes e ! 5))"
  using put_ok [OF assms] bytes_min [of e]
  by (simp add: record_aid_def load8_def nth_splice le32_def)

end

lemma Append_le:
  "Append2LE b p v2 = store_bytes b p (le_bytes 2 v2)"
  "Append4LE b p v4 = store_bytes b p (le_bytes 4 v4)"
  "Append8LE b p v8 = store_bytes b p (le_bytes 8 v8)"
  by (simp_all add: Append2LE_def Append4LE_def Append8LE_def le_bytes_2 le_bytes_4 le_bytes_8
      byte_of_def)

text \<open>The bytes each writer leaves in the buffer. The eight bytes of a method's return value
  start two bytes into the identifier, so only the low half of the identifier survives.\<close>

definition method_record_bytes :: "u32 \<times> ptr \<times> MiniTraceAction \<times> u64 \<Rightarrow> u8 list" where
  "method_record_bytes e = (case e of (tid, method, action, rv) \<Rightarrow>
     le_bytes 2 (ucast tid :: u16) @ le_bytes 2 (EncodeMiniTraceMethodAndAction method action) @
     le_bytes 8 rv)"

definition field_record_bytes :: "u32 \<times> ptr \<times> MiniTraceAction \<times> ptr \<times> u32 \<Rightarrow> u8 list" where
  "field_record_bytes e = (case e of (tid, field, action, obj, dex_pc) \<Rightarrow>
     le_bytes 2 (ucast tid :: u16) @ le_bytes 4 (EncodeMiniTraceFieldAndAction field action) @
     le_bytes 4 (EncodeMiniTraceObject obj) @ le_bytes 4 dex_pc)"

definition monitor_record_bytes :: "u32 \<times> ptr \<times> MiniTraceAction \<times> u32 \<Rightarrow> u8 list" where
  "monitor_record_bytes e = (case e of (tid, obj, action, dex_pc) \<Rightarrow>
     le_bytes 2 (ucast tid :: u16) @ le_bytes 4 (EncodeMiniTraceObjectAndAction obj action) @
     le_bytes 4 dex_pc)"

lemma splice_half_overwritten:
  assumes "length t = 2" "length lo = 2" "length hi = 2" "length r = 8" "p + 12 \<le> length b"
  shows "splice (splice (splice b p t) (p + 2) (lo @ hi)) (p + 4) r = splice b p (t @ lo @ r)"
  using assms by (intro nth_equalityI) (auto simp: nth_splice nth_append eval_nat_numeral)

interpretation method_writer: trace_writer
  "\<lambda>(tid, method, action, rv) b p. write_method_record b p tid method action rv" method_record_bytes
proof
  fix e :: "u32 \<times> ptr \<times> MiniTraceAction \<times> u64" and b :: "u8 list" and p :: nat
  obtain tid m a rv where e: "e = (tid, m, a, rv)" by (cases e)
  define t where "t = le_bytes 2 (ucast tid :: u16)"
  define v where "v = EncodeMiniTraceMethodAndAction m a"
  have len: "length t = 2" by (simp add: t_def)
  have v4: "le_bytes 4 v = le_bytes 2 v @ [byte_of 2 v, byte_of 3 v]"
    by (simp add: le_bytes_2 le_bytes_4)
  have spl: "splice (splice (splice b p t) (p + 2) (le_bytes 4 v)) (p + 4) (le_bytes 8 rv) =
      splice b p (t @ le_bytes 2 v @ le_bytes 8 rv)" if "p + 12 \<le> length b"
    unfolding v4 using that len by (intro splice_half_overwritten) simp_all
  have "write_method_record b p tid m a rv =
      (if p + 12 \<le> length b then Inr (splice b p (method_record_bytes e)) else Inl OutOfBounds)"
    using spl len
    by (auto simp: write_method_record_def Append_le store_bytes_eq Let_def method_record_bytes_def e
        simp flip: t_def v_def)
  then show "(case e of (tid, method, action, rv) \<Rightarrow> \<lambda>b p. write_method_record b p tid method action rv) b p =
      (if p + length (method_record_bytes e) \<le> length b then Inr (splice b p (method_record_bytes e))
       else Inl OutOfBounds)"
    by (simp add: e method_record_bytes_def)
qed (auto simp: method_record_bytes_def split: prod.splits)

interpretation field_writer: trace_writer
  "\<lambda>(tid, field, action, obj, dex_pc) b p. write_field_record b p tid field action obj dex_pc"
  field_record_bytes
proof
  fix e :: "u32 \<times> ptr \<times> MiniTraceAction \<times> ptr \<times> u32" and b :: "u8 list" and p :: nat
  obtain tid f a obj pc where e: "e = (tid, f, a, obj, pc)" by (cases e)
  have "write_field_record b p tid f a obj pc = store_bytes b p (field_record_bytes e)"
    by (simp add: write_field_record_def Append_le Let_def field_record_bytes_def e store_bytes_split ac_simps)
  then have "write_field_record b p tid f a obj pc =
      (if p + 14 \<le> length b then Inr (splice b p (field_record_bytes e)) else Inl OutOfBounds)"
    by (simp add: store_bytes_eq field_record_bytes_def e)
  then show "(case e of (tid, field, action, obj, dex_pc) \<Rightarrow>
        \<lambda>b p. write_field_record b p tid field action obj dex_pc) b p =
      (if p + length (field_record_bytes e) \<le> length b then Inr (splice b p (field_record_bytes e))
       else Inl OutOfBounds)"
    by (simp add: e field_record_bytes_def)
qed (auto simp: field_record_bytes_def split: prod.splits)

interpretation monitor_writer: trace_writer
  "\<lambda>(tid, obj, action, dex_pc) b p. write_monitor_record b p tid obj action dex_pc"
  monitor_record_bytes
proof
  fix e :: "u32 \<times> ptr \<times> MiniTraceAction \<times> u32" and b :: "u8 list" and p :: nat
  obtain tid obj a pc where e: "e = (tid, obj, a, pc)" by (cases e)
  have "write_monitor_record b p tid obj a pc = store_bytes b p (monitor_record_bytes e)"
    by (simp add: write_monitor_record_def Append_le Let_def monitor_record_bytes_def e store_bytes_split ac_simps)
  then have "write_monitor_record b p tid obj a pc =
      (if p + 10 \<le> length b then Inr (splice b p (monitor_record_bytes e)) else Inl OutOfBounds)"
    by (simp add: store_bytes_eq monitor_record_bytes_def e)
  then show "(case e of (tid, obj, action, dex_pc) \<Rightarrow>
        \<lambda>b p. write_monitor_record b p tid obj action dex_pc) b p =
      (if p + length (monitor_record_bytes e) \<le> length b then Inr (splice b p (monitor_record_bytes e))
       else Inl OutOfBounds)"
    by (simp add: e monitor_record_bytes_def)
qed (auto simp: monitor_record_bytes_def split: prod.splits)

section \<open>What a reader of the trace recovers\<close>

lemma le32_clobbered:
  "le32 (byte_of 0 v) (byte_of (Suc 0) v) (byte_of 0 r) (byte_of (Suc 0) r) =
     take_bit 16 v OR push_bit 16 (ucast (r :: u64))" for v :: u32
  by (rule bit_word_eqI)
    (auto simp: bit_le32 bit_byte_of bit_or_iff bit_take_bit_iff bit_push_bit_iff bit_ucast_iff)

lemma halves_agree:
  "take_bit 16 v OR push_bit 16 (ucast r) = v \<longleftrightarrow> drop_bit 16 v = ucast (take_bit 16 r)"
  for v :: u32 and r :: u64
proof
  assume *: "take_bit 16 v OR push_bit 16 (ucast r) = v"
  have "drop_bit 16 (take_bit 16 v OR push_bit 16 (ucast r)) = (ucast (take_bit 16 r) :: u32)"
    by (rule bit_word_eqI)
      (auto simp: bit_or_iff bit_take_bit_iff bit_push_bit_iff bit_ucast_iff bit_drop_bit_eq)
  with * show "drop_bit 16 v = ucast (take_bit 16 r)" by simp
next
  assume *: "drop_bit 16 v = ucast (take_bit 16 r)"
  have "bit v (16 + n) \<longleftrightarrow> n < 16 \<and> bit r n" for n
    using arg_cong [OF *, of "\<lambda>x. bit x n"] bit_imp_le_length [of v "16 + n"]
    by (auto simp: bit_drop_bit_eq bit_ucast_iff bit_take_bit_iff)
  then have "bit v n \<longleftrightarrow> n - 16 < 16 \<and> bit r (n - 16)" if "16 \<le> n" for n
    using that by (metis le_add_diff_inverse)
  then show "take_bit 16 v OR push_bit 16 (ucast r) = v"
    by (intro bit_word_eqI) (auto simp: bit_or_iff bit_take_bit_iff bit_push_bit_iff bit_ucast_iff not_less)
qed

text \<open>A method record does not hold the method it was written for. The identifier that
  is read back has the low half of the method's encoding and, as its high half, the low half
  of the return value; it is the method's own exactly when these halves happen to agree.\<close>

lemma method_record_loses_method:
  assumes "write_method_record b p tid method action rv = Inr b'"
  shows "\<exists>aid. record_aid b' p = Inr aid \<and>
     aid = take_bit 16 (EncodeMiniTraceMethodAndAction method action) OR push_bit 16 (ucast rv) \<and>
     (aid = EncodeMiniTraceMethodAndAction method action \<longleftrightarrow>
      drop_bit 16 (EncodeMiniTraceMethodAndAction method action) = ucast (take_bit 16 rv))"
  using method_writer.aid_written [of "(tid, method, action, rv)" b p b'] assms
  by (simp add: method_record_bytes_def le_bytes_2 le_bytes_8 le32_clobbered halves_agree)

text \<open>C11: a field record gives back the thread id (modulo 2 to the 16), the field and the
  action, the object and the dex pc, and touches no byte outside its 14.\<close>

theorem field_record_roundtrip:
  assumes "write_field_record b p tid field action obj dex_pc = Inr b'" and "aligned8 field"
  shows "\<exists>aid. record_aid b' p = Inr aid \<and> DecodeMiniTraceFieldId aid = field \<and>
           DecodeMiniTraceAction aid = action \<and>
           read_le16 b' p = Inr (ucast tid) \<and>
           read_le32 b' (p + 6) = Inr obj \<and> read_le32 b' (p + 10) = Inr dex_pc \<and>
           length b' = length b \<and>
           (\<forall>i < length b. i < p \<or> p + 14 \<le> i \<longrightarrow> b' ! i = b ! i)"
proof -
  let ?e = "(tid, field, action, obj, dex_pc)"
  have w: "(case ?e of (tid, field, action, obj, dex_pc) \<Rightarrow>
      \<lambda>b p. write_field_record b p tid field action obj dex_pc) b p = Inr b'"
    using assms(1) by simp
  note ok = field_writer.put_ok [OF w]
  have len: "p + 14 \<le> length b" using ok(1) by (simp add: field_record_bytes_def)
  let ?t = "le_bytes 2 (ucast tid :: u16)" and ?f = "le_bytes 4 (field OR action_code action)"
  have bytes: "field_record_bytes ?e = ?t @ ?f @ le_bytes 4 obj @ le_bytes 4 dex_pc"
    by (simp add: field_record_bytes_def encode_defs)
  have tid: "read_le16 b' p = Inr (ucast tid)"
    using slice_splice_part [of p "[]" ?t "?f @ le_bytes 4 obj @ le_bytes 4 dex_pc" b] len
    by (intro read_le16_slice) (simp_all add: ok(2) bytes)
  have obj: "read_le32 b' (p + 6) = Inr obj"
    using slice_splice_part [of p "?t @ ?f" "le_bytes 4 obj" "le_bytes 4 dex_pc" b] len
    by (intro read_le32_slice) (simp_all add: ok(2) bytes ac_simps)
  have pc: "read_le32 b' (p + 10) = Inr dex_pc"
    using slice_splice_part [of p "?t @ ?f @ le_bytes 4 obj" "le_bytes 4 dex_pc" "[]" b] len
    by (intro read_le32_slice) (simp_all add: ok(2) bytes ac_simps)
  have aid: "record_aid b' p = Inr (field OR action_code action)"
    using field_writer.aid_written [OF w] by (simp add: bytes le_bytes_2 le_bytes_4)
  show ?thesis
    using tid obj pc aid ok(3) field_writer.put_frame [OF w] assms(2)
    by (simp add: DecodeMiniTraceFieldId_def or_action_high aligned_not7 decode_action_or)
qed

theorem field_record_roundtrip_witness:
  "aligned8 0x12F8 \<and> (\<exists>b'. write_field_record (replicate 28 0) 14 77 0x12F8 kMiniTraceFieldWrite 0xAB10 5 = Inr b' \<and>
     read_le32 b' 20 = Inr 0xAB10)"
proof -
  have w: "write_field_record (replicate 28 0) 14 77 0x12F8 kMiniTraceFieldWrite 0xAB10 5 =
      Inr (splice (replicate 28 0) 14 (field_record_bytes (77, 0x12F8, kMiniTraceFieldWrite, 0xAB10, 5)))"
    using field_writer.put_in_bounds [of 14 "replicate 28 0" "(77, 0x12F8, kMiniTraceFieldWrite, 0xAB10, 5)"]
    by simp
  show ?thesis
    using field_record_roundtrip [OF w] w by (auto simp: aligned8_def)
qed

end
