(* ===== verification/Art_Class.thy ===== *)
theory Art_Class
  imports Art_Prelude
begin

text \<open>
  The part of the runtime's class model that tracing and instrumentation read and write:
  ArtMethod, ArtField and mirror::Class with their access flags, the class status order, the
  quick and interpreter entry points of a method, and the heap that maps addresses to them.
\<close>

section \<open>Access flags (runtime/modifiers.h)\<close>

definition kAccStatic :: u32 where "kAccStatic = 0x0008"
definition kAccNative :: u32 where "kAccNative = 0x0100"
definition kAccInterface :: u32 where "kAccInterface = 0x0200"
definition kAccAbstract :: u32 where "kAccAbstract = 0x0400"
definition kAccConstructor :: u32 where "kAccConstructor = 0x00010000"
definition kAccClassIsProxy :: u32 where "kAccClassIsProxy = 0x00040000"
definition kAccIsMiniTraceable :: u32 where "kAccIsMiniTraceable = 0x40000000"

lemmas kAcc_defs = kAccStatic_def kAccNative_def kAccInterface_def kAccAbstract_def
  kAccConstructor_def kAccClassIsProxy_def kAccIsMiniTraceable_def

definition has_flag :: "u32 \<Rightarrow> u32 \<Rightarrow> bool" where
  "has_flag flag flags \<longleftrightarrow> flags AND flag \<noteq> 0"

section \<open>Entry points\<close>

datatype quick_code =
    OatCode nat                       \<comment> \<open>compiled code of an oat file, by its address\<close>
  | JitCode nat                       \<comment> \<open>code of the JIT code cache\<close>
  | QuickToInterpreterBridge
  | QuickResolutionStub
  | QuickInstrumentationEntryPoint
  | QuickGenericJniStub
  | QuickProxyInvokeHandler

datatype interpreter_entry = InterpreterToInterpreterBridge | InterpreterToCompiledCodeBridge

definition IsQuickResolutionStub :: "quick_code \<Rightarrow> bool" where
  "IsQuickResolutionStub c \<longleftrightarrow> c = QuickResolutionStub"

definition IsQuickToInterpreterBridge :: "quick_code \<Rightarrow> bool" where
  "IsQuickToInterpreterBridge c \<longleftrightarrow> c = QuickToInterpreterBridge"

section \<open>Methods, fields and classes\<close>

record ArtMethod =
  declaring_class :: ptr
  m_access_flags :: u32
  dex_code_item_offset :: u32
  dex_method_index :: u32
  m_name :: string
  m_signature :: string
  m_shorty :: string
  entry_point_from_quick_compiled_code :: quick_code
  entry_point_from_interpreter :: interpreter_entry

record ArtField =
  f_declaring_class :: ptr
  f_access_flags :: u32
  f_name :: string
  f_type_descriptor :: string

text \<open>Class status: the enumeration mirror::Class::Status, compared by its values.\<close>

type_synonym Status = int

abbreviation kStatusError :: Status where "kStatusError \<equiv> -1"
abbreviation kStatusIdx :: Status where "kStatusIdx \<equiv> 1"
abbreviation kStatusResolved :: Status where "kStatusResolved \<equiv> 4"
abbreviation kStatusInitialized :: Status where "kStatusInitialized \<equiv> 10"

record Klass =
  c_access_flags :: u32
  c_status :: Status
  c_descriptor :: string
  dex_location :: string
  source_file :: string
  component_type :: ptr               \<comment> \<open>null unless an array class\<close>
  primitive_type :: nat               \<comment> \<open>0 is Primitive::kPrimNot\<close>
  direct_methods :: "ptr list"
  virtual_methods :: "ptr list"
  ifields :: "ptr list"
  sfields :: "ptr list"

text \<open>
  The runtime data the model works on. \<open>oat_code\<close> stands for the contents of the oat files
  (FindOatMethodFor followed by GetQuickCode); \<open>jit_code_map\<close> is None when the runtime has no
  JIT and else the map method\_code\_map\_ of the JIT code cache.
\<close>

record art_heap =
  methods :: "ptr \<rightharpoonup> ArtMethod"
  art_fields :: "ptr \<rightharpoonup> ArtField"
  classes :: "ptr \<rightharpoonup> Klass"
  class_table :: "ptr list"           \<comment> \<open>the classes VisitClasses enumerates, in its order\<close>
  resolution_method :: ptr
  refs_and_args_method :: ptr         \<comment> \<open>GetCalleeSaveMethod(kRefsAndArgs)\<close>
  oat_code :: "ptr \<rightharpoonup> quick_code"
  jit_code_map :: "(ptr \<rightharpoonup> quick_code) option"

definition deref :: "('p \<rightharpoonup> 'a) \<Rightarrow> 'p \<Rightarrow> 'a res" where
  "deref m p = (case m p of None \<Rightarrow> Inl NullPointer | Some x \<Rightarrow> Inr x)"

lemma deref_eq_Inr [simp]: "deref m p = Inr x \<longleftrightarrow> m p = Some x"
  by (simp add: deref_def split: option.splits)

lemma deref_Some [simp]: "m p = Some x \<Longrightarrow> deref m p = Inr x"
  by simp

subsection \<open>ArtMethod\<close>

definition IsStatic :: "ArtMethod \<Rightarrow> bool" where
  "IsStatic m \<longleftrightarrow> has_flag kAccStatic (m_access_flags m)"

definition IsConstructor :: "ArtMethod \<Rightarrow> bool" where
  "IsConstructor m \<longleftrightarrow> has_flag kAccConstructor (m_access_flags m)"

definition IsNative :: "ArtMethod \<Rightarrow> bool" where
  "IsNative m \<longleftrightarrow> has_flag kAccNative (m_access_flags m)"

definition IsAbstract :: "ArtMethod \<Rightarrow> bool" where
  "IsAbstract m \<longleftrightarrow> has_flag kAccAbstract (m_access_flags m)"

definition IsRuntimeMethod :: "ArtMethod \<Rightarrow> bool" where
  "IsRuntimeMethod m \<longleftrightarrow> dex_method_index m = 0xFFFFFFFF"

definition method_IsMiniTraceable :: "ArtMethod \<Rightarrow> bool" where
  "method_IsMiniTraceable m \<longleftrightarrow> has_flag kAccIsMiniTraceable (m_access_flags m)"

definition method_SetIsMiniTraceable :: "ArtMethod \<Rightarrow> ArtMethod" where
  "method_SetIsMiniTraceable m = m\<lparr>m_access_flags := m_access_flags m OR kAccIsMiniTraceable\<rparr>"

definition method_ClearIsMiniTraceable :: "ArtMethod \<Rightarrow> ArtMethod" where
  "method_ClearIsMiniTraceable m = m\<lparr>m_access_flags := m_access_flags m AND NOT kAccIsMiniTraceable\<rparr>"

subsection \<open>ArtField\<close>

definition field_IsMiniTraceable :: "ArtField \<Rightarrow> bool" where
  "field_IsMiniTraceable f \<longleftrightarrow> has_flag kAccIsMiniTraceable (f_access_flags f)"

definition field_SetIsMiniTraceable :: "ArtField \<Rightarrow> ArtField" where
  "field_SetIsMiniTraceable f = f\<lparr>f_access_flags := f_access_flags f OR kAccIsMiniTraceable\<rparr>"

definition field_ClearIsMiniTraceable :: "ArtField \<Rightarrow> ArtField" where
  "field_ClearIsMiniTraceable f = f\<lparr>f_access_flags := f_access_flags f AND NOT kAccIsMiniTraceable\<rparr>"

subsection \<open>mirror::Class\<close>

definition IsErroneous :: "Klass \<Rightarrow> bool" where
  "IsErroneous k \<longleftrightarrow> c_status k = kStatusError"

definition IsIdxLoaded :: "Klass \<Rightarrow> bool" where
  "IsIdxLoaded k \<longleftrightarrow> c_status k \<ge> kStatusIdx"

definition IsResolved :: "Klass \<Rightarrow> bool" where
  "IsResolved k \<longleftrightarrow> c_status k \<ge> kStatusResolved"

definition IsInitialized :: "Klass \<Rightarrow> bool" where
  "IsInitialized k \<longleftrightarrow> c_status k = kStatusInitialized"

definition IsInterface :: "Klass \<Rightarrow> bool" where
  "IsInterface k \<longleftrightarrow> has_flag kAccInterface (c_access_flags k)"

definition IsProxyClass :: "Klass \<Rightarrow> bool" where
  "IsProxyClass k \<longleftrightarrow> has_flag kAccClassIsProxy (c_access_flags k)"

definition IsArrayClass :: "Klass \<Rightarrow> bool" where
  "IsArrayClass k \<longleftrightarrow> component_type k \<noteq> 0"

definition IsPrimitive :: "Klass \<Rightarrow> bool" where
  "IsPrimitive k \<longleftrightarrow> primitive_type k \<noteq> 0"

definition class_IsMiniTraceable :: "Klass \<Rightarrow> bool" where
  "class_IsMiniTraceable k \<longleftrightarrow> has_flag kAccIsMiniTraceable (c_access_flags k)"

definition class_SetIsMiniTraceable :: "Klass \<Rightarrow> Klass" where
  "class_SetIsMiniTraceable k = k\<lparr>c_access_flags := c_access_flags k OR kAccIsMiniTraceable\<rparr>"

definition class_ClearIsMiniTraceable :: "Klass \<Rightarrow> Klass" where
  "class_ClearIsMiniTraceable k = k\<lparr>c_access_flags := c_access_flags k AND NOT kAccIsMiniTraceable\<rparr>"

definition IsProxyMethod :: "art_heap \<Rightarrow> ArtMethod \<Rightarrow> bool res" where
  "IsProxyMethod h m = rbind (deref (classes h) (declaring_class m)) (\<lambda>k. Inr (IsProxyClass k))"

text \<open>ClassLinker::VisitClasses with a visitor that always returns true.\<close>

definition VisitClasses :: "(ptr \<Rightarrow> art_heap \<Rightarrow> art_heap res) \<Rightarrow> art_heap \<Rightarrow> art_heap res" where
  "VisitClasses visitor h = rfold visitor (class_table h) h"

text \<open>The JIT code cache (runtime/jit/jit\_code\_cache.cc).\<close>

definition ContainsCodePtr :: "quick_code \<Rightarrow> bool" where
  "ContainsCodePtr c = (case c of JitCode _ \<Rightarrow> True | _ \<Rightarrow> False)"

definition jit_GetCodeFor :: "(ptr \<rightharpoonup> quick_code) \<Rightarrow> ptr \<Rightarrow> ArtMethod \<Rightarrow> quick_code option" where
  "jit_GetCodeFor cache mp m =
     (let code = entry_point_from_quick_compiled_code m in
      if ContainsCodePtr code then Some code else cache mp)"

definition SaveCompiledCode :: "ptr \<Rightarrow> quick_code \<Rightarrow> (ptr \<rightharpoonup> quick_code) \<Rightarrow> (ptr \<rightharpoonup> quick_code)" where
  "SaveCompiledCode mp old_code_ptr cache =
     (if cache mp \<noteq> None then cache else cache(mp \<mapsto> old_code_ptr))"

text \<open>ClassLinker::GetQuickOatCodeFor (runtime/class\_linker.cc).\<close>

definition GetQuickOatCodeFor :: "art_heap \<Rightarrow> ptr \<Rightarrow> quick_code res" where
  "GetQuickOatCodeFor h mp =
     rbind (deref (methods h) mp) (\<lambda>m.
     rbind (check (\<not> IsAbstract m) CheckFailed) (\<lambda>_.
     rbind (IsProxyMethod h m) (\<lambda>proxy.
       if proxy then Inr QuickProxyInvokeHandler
       else case oat_code h mp of
         Some code \<Rightarrow> Inr code
       | None \<Rightarrow>
          (case (case jit_code_map h of None \<Rightarrow> None | Some cache \<Rightarrow> jit_GetCodeFor cache mp m) of
             Some code \<Rightarrow> Inr code
           | None \<Rightarrow> Inr (if IsNative m then QuickGenericJniStub else QuickToInterpreterBridge)))))"

section \<open>Lemmas\<close>

text \<open>Setting the trace flag sets it and leaves every other access flag alone.\<close>

lemma has_flag_or [simp]: "flag \<noteq> 0 \<Longrightarrow> has_flag flag (x OR flag)"
  by (simp add: has_flag_def and.commute [of _ flag])

lemma has_flag_or_other: "flag AND g = 0 \<Longrightarrow> has_flag flag (x OR g) = has_flag flag x"
  by (simp add: has_flag_def bit.conj_disj_distrib2 and.commute [of g])

lemma has_flag_clear [simp]: "\<not> has_flag flag (x AND NOT flag)"
  by (simp add: has_flag_def and.assoc)

lemma set_traceable [simp]:
  "method_IsMiniTraceable (method_SetIsMiniTraceable m)"
  "field_IsMiniTraceable (field_SetIsMiniTraceable f)"
  "class_IsMiniTraceable (class_SetIsMiniTraceable k)"
  by (simp_all add: method_IsMiniTraceable_def method_SetIsMiniTraceable_def
      field_IsMiniTraceable_def field_SetIsMiniTraceable_def class_IsMiniTraceable_def
      class_SetIsMiniTraceable_def kAccIsMiniTraceable_def)

lemma set_traceable_keeps [simp]:
  "IsStatic (method_SetIsMiniTraceable m) = IsStatic m"
  "IsNative (method_SetIsMiniTraceable m) = IsNative m"
  "IsAbstract (method_SetIsMiniTraceable m) = IsAbstract m"
  "IsConstructor (method_SetIsMiniTraceable m) = IsConstructor m"
  "IsInterface (class_SetIsMiniTraceable k) = IsInterface k"
  "IsProxyClass (class_SetIsMiniTraceable k) = IsProxyClass k"
  "c_status (class_SetIsMiniTraceable k) = c_status k"
  "entry_point_from_quick_compiled_code (method_SetIsMiniTraceable m) =
     entry_point_from_quick_compiled_code m"
  by (simp_all add: IsStatic_def IsNative_def IsAbstract_def IsConstructor_def IsInterface_def
      IsProxyClass_def method_SetIsMiniTraceable_def class_SetIsMiniTraceable_def
      has_flag_or_other kAcc_defs)

section \<open>A small heap for examples\<close>

text \<open>One loaded application class with a method and a field, both marked traceable.\<close>

definition sample_method :: ArtMethod where
  "sample_method = \<lparr>declaring_class = 0x9000, m_access_flags = 0x40000001, dex_code_item_offset = 0x40,
     dex_method_index = 7, m_name = ''run'', m_signature = ''()V'', m_shorty = ''V'',
     entry_point_from_quick_compiled_code = OatCode 5,
     entry_point_from_interpreter = InterpreterToCompiledCodeBridge\<rparr>"

definition sample_field :: ArtField where
  "sample_field = \<lparr>f_declaring_class = 0x9000, f_access_flags = 0x40000002, f_name = ''count'',
     f_type_descriptor = ''I''\<rparr>"

definition sample_class :: Klass where
  "sample_class = \<lparr>c_access_flags = 0x40000001, c_status = 10, c_descriptor = ''Lapp/Main;'',
     dex_location = ''/data/app/base.apk'', source_file = ''Main.java'', component_type = 0,
     primitive_type = 0, direct_methods = [], virtual_methods = [0x70001230], ifields = [0x70002000],
     sfields = []\<rparr>"

definition sample_heap :: art_heap where
  "sample_heap = \<lparr>methods = [0x70001230 \<mapsto> sample_method], art_fields = [0x70002000 \<mapsto> sample_field],
     classes = [0x9000 \<mapsto> sample_class], class_table = [0x9000], resolution_method = 0x100,
     refs_and_args_method = 0x140,
     oat_code = [0x70001230 \<mapsto> OatCode 5], jit_code_map = None\<rparr>"

lemma sample_heap_simps [simp]:
  "methods sample_heap 0x70001230 = Some sample_method"
  "art_fields sample_heap 0x70002000 = Some sample_field"
  "classes sample_heap 0x9000 = Some sample_class"
  "class_table sample_heap = [0x9000]"
  "method_IsMiniTraceable sample_method" "field_IsMiniTraceable sample_field"
  "class_IsMiniTraceable sample_class"
  by (simp_all add: sample_heap_def sample_method_def sample_field_def sample_class_def
      method_IsMiniTraceable_def field_IsMiniTraceable_def class_IsMiniTraceable_def
      has_flag_def kAccIsMiniTraceable_def)

end
