(* ===== verification/Instrumentation.thy ===== *)
theory Instrumentation
  imports Art_Class Safe_Map
begin

text \<open>
  The listener registry of instrumentation::Instrumentation (runtime/instrumentation.h and
  instrumentation.cc): the record of its state, AddListener and RemoveListener, the queries
  and the dispatch of events to the listeners. Stubs and stacks are in \<open>Instrumentation_Stubs\<close>.

  A listener is identified by its address. What a listener does on an event is an argument
  of the dispatch functions (the virtual functions of InstrumentationListener).
\<close>

section \<open>Events, levels, state\<close>

datatype InstrumentationEvent =
    kMethodEntered | kMethodExited | kMethodUnwind | kDexPcMoved
  | kFieldRead | kFieldWritten | kExceptionCaught | kBackwardBranch

fun event_code :: "InstrumentationEvent \<Rightarrow> u32" where
  "event_code kMethodEntered = 0x1"
| "event_code kMethodExited = 0x2"
| "event_code kMethodUnwind = 0x4"
| "event_code kDexPcMoved = 0x8"
| "event_code kFieldRead = 0x10"
| "event_code kFieldWritten = 0x20"
| "event_code kExceptionCaught = 0x40"
| "event_code kBackwardBranch = 0x80"

datatype InstrumentationLevel =
    kInstrumentNothing | kInstrumentWithInstrumentationStubs | kInstrumentWithInterpreter

fun level_rank :: "InstrumentationLevel \<Rightarrow> nat" where
  "level_rank kInstrumentNothing = 0"
| "level_rank kInstrumentWithInstrumentationStubs = 1"
| "level_rank kInstrumentWithInterpreter = 2"

lemma level_rank_inject [simp]: "level_rank a = level_rank b \<longleftrightarrow> a = b"
  by (cases a; cases b) simp_all

instantiation InstrumentationLevel :: linorder
begin

definition less_eq_InstrumentationLevel :: "InstrumentationLevel \<Rightarrow> InstrumentationLevel \<Rightarrow> bool" where
  "less_eq_InstrumentationLevel a b \<longleftrightarrow> level_rank a \<le> level_rank b"

definition less_InstrumentationLevel :: "InstrumentationLevel \<Rightarrow> InstrumentationLevel \<Rightarrow> bool" where
  "less_InstrumentationLevel a b \<longleftrightarrow> level_rank a < level_rank b"

instance
  by standard (auto simp: less_eq_InstrumentationLevel_def less_InstrumentationLevel_def)

end

lemmas level_order = less_eq_InstrumentationLevel_def less_InstrumentationLevel_def

datatype InterpreterHandlerTable = kMainHandlerTable | kAlternativeHandlerTable

type_synonym listener = ptr
type_synonym listeners = "listener list"

text \<open>A std::shared\_ptr to a list is None when it is null.\<close>

record Instrumentation =
  instrumentation_stubs_installed :: bool
  entry_exit_stubs_installed :: bool
  interpreter_stubs_installed :: bool
  interpret_only :: bool
  forced_interpret_only :: bool
  have_method_entry_listeners :: bool
  have_method_exit_listeners :: bool
  have_method_unwind_listeners :: bool
  have_dex_pc_listeners :: bool
  have_field_read_listeners :: bool
  have_field_write_listeners :: bool
  have_exception_caught_listeners :: bool
  have_backward_branch_listeners :: bool
  requested_instrumentation_levels :: "(ptr, InstrumentationLevel) safe_map"
  method_entry_listeners :: listeners
  method_exit_listeners :: listeners
  method_unwind_listeners :: listeners
  backward_branch_listeners :: listeners
  dex_pc_listeners :: "listeners option"
  field_read_listeners :: "listeners option"
  field_write_listeners :: "listeners option"
  exception_caught_listeners :: "listeners option"
  deoptimized_methods :: "ptr list"
  deoptimization_enabled :: bool
  interpreter_handler_table :: InterpreterHandlerTable
  quick_alloc_entry_points_instrumentation_counter :: nat

definition new_Instrumentation :: Instrumentation where
  "new_Instrumentation = \<lparr>
     instrumentation_stubs_installed = False, entry_exit_stubs_installed = False,
     interpreter_stubs_installed = False,
     interpret_only = False, forced_interpret_only = False,
     have_method_entry_listeners = False, have_method_exit_listeners = False,
     have_method_unwind_listeners = False, have_dex_pc_listeners = False,
     have_field_read_listeners = False, have_field_write_listeners = False,
     have_exception_caught_listeners = False, have_backward_branch_listeners = False,
     requested_instrumentation_levels = [],
     method_entry_listeners = [], method_exit_listeners = [], method_unwind_listeners = [],
     backward_branch_listeners = [], dex_pc_listeners = None, field_read_listeners = None,
     field_write_listeners = None, exception_caught_listeners = None,
     deoptimized_methods = [], deoptimization_enabled = False,
     interpreter_handler_table = kMainHandlerTable,
     quick_alloc_entry_points_instrumentation_counter = 0\<rparr>"

section \<open>Registering and removing listeners\<close>

definition HasEvent :: "InstrumentationEvent \<Rightarrow> u32 \<Rightarrow> bool" where
  "HasEvent expected events \<longleftrightarrow> events AND event_code expected \<noteq> 0"

definition IsActive :: "Instrumentation \<Rightarrow> bool" where
  "IsActive i \<longleftrightarrow> have_dex_pc_listeners i \<or> have_method_entry_listeners i \<or>
     have_method_exit_listeners i \<or> have_field_read_listeners i \<or> have_field_write_listeners i \<or>
     have_exception_caught_listeners i \<or> have_method_unwind_listeners i"

definition UpdateInterpreterHandlerTable :: "Instrumentation \<Rightarrow> Instrumentation" where
  "UpdateInterpreterHandlerTable i =
     i\<lparr>interpreter_handler_table := (if IsActive i then kAlternativeHandlerTable else kMainHandlerTable)\<rparr>"

text \<open>A copy of the shared list with the listener at its end: \<open>modified\<close> in AddListener.\<close>

definition modified_add :: "bool \<Rightarrow> listeners option \<Rightarrow> listener \<Rightarrow> listeners res" where
  "modified_add have current listener =
     (if have then (case current of None \<Rightarrow> Inl NullPointer | Some ls \<Rightarrow> Inr (ls @ [listener]))
      else Inr [listener])"

definition AddListener :: "listener \<Rightarrow> u32 \<Rightarrow> Instrumentation \<Rightarrow> Instrumentation res" where
  "AddListener listener events i =
     (let i = (if HasEvent kMethodEntered events
               then i\<lparr>method_entry_listeners := method_entry_listeners i @ [listener],
                      have_method_entry_listeners := True\<rparr> else i);
          i = (if HasEvent kMethodExited events
               then i\<lparr>method_exit_listeners := method_exit_listeners i @ [listener],
                      have_method_exit_listeners := True\<rparr> else i);
          i = (if HasEvent kMethodUnwind events
               then i\<lparr>method_unwind_listeners := method_unwind_listeners i @ [listener],
                      have_method_unwind_listeners := True\<rparr> else i);
          i = (if HasEvent kBackwardBranch events
               then i\<lparr>backward_branch_listeners := backward_branch_listeners i @ [listener],
                      have_backward_branch_listeners := True\<rparr> else i)
      in
      rbind (if HasEvent kDexPcMoved events
             then rbind (modified_add (have_dex_pc_listeners i) (dex_pc_listeners i) listener)
                    (\<lambda>ls. Inr (i\<lparr>dex_pc_listeners := Some ls, have_dex_pc_listeners := True\<rparr>))
             else Inr i) (\<lambda>i.
      rbind (if HasEvent kFieldRead events
             then rbind (modified_add (have_field_read_listeners i) (field_read_listeners i) listener)
                    (\<lambda>ls. Inr (i\<lparr>field_read_listeners := Some ls, have_field_read_listeners := True\<rparr>))
             else Inr i) (\<lambda>i.
      rbind (if HasEvent kFieldWritten events
             then rbind (modified_add (have_field_write_listeners i) (field_write_listeners i) listener)
                    (\<lambda>ls. Inr (i\<lparr>field_write_listeners := Some ls, have_field_write_listeners := True\<rparr>))
             else Inr i) (\<lambda>i.
      rbind (if HasEvent kExceptionCaught events
             then rbind (modified_add (have_exception_caught_listeners i) (exception_caught_listeners i) listener)
                    (\<lambda>ls. Inr (i\<lparr>exception_caught_listeners := Some ls, have_exception_caught_listeners := True\<rparr>))
             else Inr i) (\<lambda>i.
      Inr (UpdateInterpreterHandlerTable i))))))"

text \<open>std::list::remove drops every equal element; the shared lists are copied first.\<close>

definition list_remove :: "listener \<Rightarrow> listeners \<Rightarrow> listeners" where
  "list_remove l ls = filter (\<lambda>x. x \<noteq> l) ls"

definition modified_remove :: "listeners option \<Rightarrow> listener \<Rightarrow> listeners res" where
  "modified_remove current listener =
     (case current of None \<Rightarrow> Inl NullPointer | Some ls \<Rightarrow> Inr (list_remove listener ls))"

definition RemoveListener :: "listener \<Rightarrow> u32 \<Rightarrow> Instrumentation \<Rightarrow> Instrumentation res" where
  "RemoveListener listener events i =
     (let i = (if HasEvent kMethodEntered events \<and> have_method_entry_listeners i
               then let ls = list_remove listener (method_entry_listeners i)
                    in i\<lparr>method_entry_listeners := ls, have_method_entry_listeners := ls \<noteq> []\<rparr> else i);
          i = (if HasEvent kMethodExited events \<and> have_method_exit_listeners i
               then let ls = list_remove listener (method_exit_listeners i)
                    in i\<lparr>method_exit_listeners := ls, have_method_exit_listeners := ls \<noteq> []\<rparr> else i);
          i = (if HasEvent kMethodUnwind events \<and> have_method_unwind_listeners i
               then let ls = list_remove listener (method_unwind_listeners i)
                    in i\<lparr>method_unwind_listeners := ls, have_method_unwind_listeners := ls \<noteq> []\<rparr> else i);
          i = (if HasEvent kBackwardBranch events \<and> have_backward_branch_listeners i
               then let ls = list_remove listener (backward_branch_listeners i)
                    in i\<lparr>backward_branch_listeners := ls, have_backward_branch_listeners := ls \<noteq> []\<rparr> else i)
      in
      rbind (if HasEvent kDexPcMoved events \<and> have_dex_pc_listeners i
             then rbind (modified_remove (dex_pc_listeners i) listener)
                    (\<lambda>ls. Inr (i\<lparr>have_dex_pc_listeners := ls \<noteq> [],
                       dex_pc_listeners := (if ls \<noteq> [] then Some ls else None)\<rparr>))
             else Inr i) (\<lambda>i.
      rbind (if HasEvent kFieldRead events \<and> have_field_read_listeners i
             then rbind (modified_remove (field_read_listeners i) listener)
                    (\<lambda>ls. Inr (i\<lparr>have_field_read_listeners := ls \<noteq> [],
                       field_read_listeners := (if ls \<noteq> [] then Some ls else None)\<rparr>))
             else Inr i) (\<lambda>i.
      rbind (if HasEvent kFieldWritten events \<and> have_field_write_listeners i
             then rbind (modified_remove (field_write_listeners i) listener)
                    (\<lambda>ls. Inr (i\<lparr>have_field_write_listeners := ls \<noteq> [],
                       field_write_listeners := (if ls \<noteq> [] then Some ls else None)\<rparr>))
             else Inr i) (\<lambda>i.
      rbind (if HasEvent kExceptionCaught events \<and> have_exception_caught_listeners i
             then rbind (modified_remove (exception_caught_listeners i) listener)
                    (\<lambda>ls. Inr (i\<lparr>have_exception_caught_listeners := ls \<noteq> [],
                       exception_caught_listeners := (if ls \<noteq> [] then Some ls else None)\<rparr>))
             else Inr i) (\<lambda>i.
      Inr (UpdateInterpreterHandlerTable i))))))"

section \<open>Dispatch of events\<close>

text \<open>
  Each dispatcher calls the listeners in registration order; \<open>cb\<close> is the virtual function,
  the last argument the state the listeners work on. A dispatcher that runs over a null
  shared list traps.
\<close>

definition shared_list :: "listeners option \<Rightarrow> listeners res" where
  "shared_list p = (case p of None \<Rightarrow> Inl NullPointer | Some ls \<Rightarrow> Inr ls)"

definition MethodEnterEvent ::
    "(listener \<Rightarrow> u32 \<Rightarrow> ptr \<Rightarrow> ptr \<Rightarrow> u32 \<Rightarrow> 's \<Rightarrow> 's res) \<Rightarrow> Instrumentation \<Rightarrow>
     u32 \<Rightarrow> ptr \<Rightarrow> ptr \<Rightarrow> u32 \<Rightarrow> 's \<Rightarrow> 's res" where
  "MethodEnterEvent cb i thread this_object method dex_pc s =
     (if have_method_entry_listeners i
      then rfold (\<lambda>l. cb l thread this_object method dex_pc) (method_entry_listeners i) s
      else Inr s)"

definition MethodExitEvent ::
    "(listener \<Rightarrow> u32 \<Rightarrow> ptr \<Rightarrow> ptr \<Rightarrow> u32 \<Rightarrow> u64 \<Rightarrow> 's \<Rightarrow> 's res) \<Rightarrow> Instrumentation \<Rightarrow>
     u32 \<Rightarrow> ptr \<Rightarrow> ptr \<Rightarrow> u32 \<Rightarrow> u64 \<Rightarrow> 's \<Rightarrow> 's res" where
  "MethodExitEvent cb i thread this_object method dex_pc return_value s =
     (if have_method_exit_listeners i
      then rfold (\<lambda>l. cb l thread this_object method dex_pc return_value) (method_exit_listeners i) s
      else Inr s)"

definition MethodUnwindEvent ::
    "(listener \<Rightarrow> u32 \<Rightarrow> ptr \<Rightarrow> ptr \<Rightarrow> u32 \<Rightarrow> 's \<Rightarrow> 's res) \<Rightarrow> Instrumentation \<Rightarrow>
     u32 \<Rightarrow> ptr \<Rightarrow> ptr \<Rightarrow> u32 \<Rightarrow> 's \<Rightarrow> 's res" where
  "MethodUnwindEvent cb i thread this_object method dex_pc s =
     (if have_method_unwind_listeners i
      then rfold (\<lambda>l. cb l thread this_object method dex_pc) (method_unwind_listeners i) s
      else Inr s)"

definition DexPcMovedEvent ::
    "(listener \<Rightarrow> u32 \<Rightarrow> ptr \<Rightarrow> ptr \<Rightarrow> u32 \<Rightarrow> 's \<Rightarrow> 's res) \<Rightarrow> Instrumentation \<Rightarrow>
     u32 \<Rightarrow> ptr \<Rightarrow> ptr \<Rightarrow> u32 \<Rightarrow> 's \<Rightarrow> 's res" where
  "DexPcMovedEvent cb i thread this_object method dex_pc s =
     (if have_dex_pc_listeners i
      then rbind (shared_list (dex_pc_listeners i)) (\<lambda>ls.
             rfold (\<lambda>l. cb l thread this_object method dex_pc) ls s)
      else Inr s)"

definition BackwardBranchEvent ::
    "(listener \<Rightarrow> u32 \<Rightarrow> ptr \<Rightarrow> u32 \<Rightarrow> 's \<Rightarrow> 's res) \<Rightarrow> Instrumentation \<Rightarrow>
     u32 \<Rightarrow> ptr \<Rightarrow> u32 \<Rightarrow> 's \<Rightarrow> 's res" where
  "BackwardBranchEvent cb i thread method offset s =
     (if have_backward_branch_listeners i
      then rfold (\<lambda>l. cb l thread method offset) (backward_branch_listeners i) s
      else Inr s)"

definition FieldReadEvent ::
    "(listener \<Rightarrow> u32 \<Rightarrow> ptr \<Rightarrow> ptr \<Rightarrow> u32 \<Rightarrow> ptr \<Rightarrow> 's \<Rightarrow> 's res) \<Rightarrow> Instrumentation \<Rightarrow>
     u32 \<Rightarrow> ptr \<Rightarrow> ptr \<Rightarrow> u32 \<Rightarrow> ptr \<Rightarrow> 's \<Rightarrow> 's res" where
  "FieldReadEvent cb i thread this_object method dex_pc field s =
     (if have_field_read_listeners i
      then rbind (shared_list (field_read_listeners i)) (\<lambda>ls.
             rfold (\<lambda>l. cb l thread this_object method dex_pc field) ls s)
      else Inr s)"

definition FieldWriteEvent ::
    "(listener \<Rightarrow> u32 \<Rightarrow> ptr \<Rightarrow> ptr \<Rightarrow> u32 \<Rightarrow> ptr \<Rightarrow> u64 \<Rightarrow> 's \<Rightarrow> 's res) \<Rightarrow> Instrumentation \<Rightarrow>
     u32 \<Rightarrow> ptr \<Rightarrow> ptr \<Rightarrow> u32 \<Rightarrow> ptr \<Rightarrow> u64 \<Rightarrow> 's \<Rightarrow> 's res" where
  "FieldWriteEvent cb i thread this_object method dex_pc field field_value s =
     (if have_field_write_listeners i
      then rbind (shared_list (field_write_listeners i)) (\<lambda>ls.
             rfold (\<lambda>l. cb l thread this_object method dex_pc field field_value) ls s)
      else Inr s)"

text \<open>The thread's pending exception is the first component of the state: it is cleared while
  the listeners run and set again afterwards.\<close>

definition ExceptionCaughtEvent ::
    "(listener \<Rightarrow> u32 \<Rightarrow> ptr \<Rightarrow> ptr option \<times> 's \<Rightarrow> (ptr option \<times> 's) res) \<Rightarrow> Instrumentation \<Rightarrow>
     u32 \<Rightarrow> ptr \<Rightarrow> ptr option \<times> 's \<Rightarrow> (ptr option \<times> 's) res" where
  "ExceptionCaughtEvent cb i thread exception_object s =
     (if have_exception_caught_listeners i
      then rbind (shared_list (exception_caught_listeners i)) (\<lambda>ls.
             rbind (rfold (\<lambda>l. cb l thread exception_object) ls (None, snd s))
               (\<lambda>s'. Inr (Some exception_object, snd s')))
      else Inr s)"

section \<open>The registry as a map from events to listener lists\<close>

definition the_list :: "listeners option \<Rightarrow> listeners" where
  "the_list p = (case p of None \<Rightarrow> [] | Some ls \<Rightarrow> ls)"

lemma the_list_simps [simp]: "the_list None = []" "the_list (Some ls) = ls"
  by (simp_all add: the_list_def)

fun registered :: "Instrumentation \<Rightarrow> InstrumentationEvent \<Rightarrow> listeners" where
  "registered i kMethodEntered = method_entry_listeners i"
| "registered i kMethodExited = method_exit_listeners i"
| "registered i kMethodUnwind = method_unwind_listeners i"
| "registered i kDexPcMoved = the_list (dex_pc_listeners i)"
| "registered i kFieldRead = the_list (field_read_listeners i)"
| "registered i kFieldWritten = the_list (field_write_listeners i)"
| "registered i kExceptionCaught = the_list (exception_caught_listeners i)"
| "registered i kBackwardBranch = backward_branch_listeners i"

fun have_listeners :: "Instrumentation \<Rightarrow> InstrumentationEvent \<Rightarrow> bool" where
  "have_listeners i kMethodEntered = have_method_entry_listeners i"
| "have_listeners i kMethodExited = have_method_exit_listeners i"
| "have_listeners i kMethodUnwind = have_method_unwind_listeners i"
| "have_listeners i kDexPcMoved = have_dex_pc_listeners i"
| "have_listeners i kFieldRead = have_field_read_listeners i"
| "have_listeners i kFieldWritten = have_field_write_listeners i"
| "have_listeners i kExceptionCaught = have_exception_caught_listeners i"
| "have_listeners i kBackwardBranch = have_backward_branch_listeners i"

definition shared_ok :: "bool \<Rightarrow> listeners option \<Rightarrow> bool" where
  "shared_ok have p \<longleftrightarrow> p \<noteq> Some [] \<and> (have \<longleftrightarrow> p \<noteq> None)"

definition listeners_inv :: "Instrumentation \<Rightarrow> bool" where
  "listeners_inv i \<longleftrightarrow>
     (have_method_entry_listeners i \<longleftrightarrow> method_entry_listeners i \<noteq> []) \<and>
     (have_method_exit_listeners i \<longleftrightarrow> method_exit_listeners i \<noteq> []) \<and>
     (have_method_unwind_listeners i \<longleftrightarrow> method_unwind_listeners i \<noteq> []) \<and>
     (have_backward_branch_listeners i \<longleftrightarrow> backward_branch_listeners i \<noteq> []) \<and>
     shared_ok (have_dex_pc_listeners i) (dex_pc_listeners i) \<and>
     shared_ok (have_field_read_listeners i) (field_read_listeners i) \<and>
     shared_ok (have_field_write_listeners i) (field_write_listeners i) \<and>
     shared_ok (have_exception_caught_listeners i) (exception_caught_listeners i) \<and>
     (interpreter_handler_table i = kAlternativeHandlerTable \<longleftrightarrow> IsActive i)"

lemma shared_ok_nonempty: "shared_ok have p \<Longrightarrow> have \<longleftrightarrow> the_list p \<noteq> []"
  by (auto simp: shared_ok_def split: option.splits)

lemma have_iff_registered: "listeners_inv i \<Longrightarrow> have_listeners i ev \<longleftrightarrow> registered i ev \<noteq> []"
  by (cases ev) (simp_all add: listeners_inv_def shared_ok_nonempty)

lemma new_listeners_inv: "listeners_inv new_Instrumentation"
  by (simp add: listeners_inv_def new_Instrumentation_def shared_ok_def IsActive_def)

subsection \<open>One block of AddListener or RemoveListener\<close>

definition shared :: "listeners \<Rightarrow> listeners option" where
  "shared ls = (if ls \<noteq> [] then Some ls else None)"

lemma the_list_shared [simp]: "the_list (shared ls) = ls"
  by (simp add: shared_def)

text \<open>Giving one event a new list, with the flag that goes with it.\<close>

fun set_listeners :: "InstrumentationEvent \<Rightarrow> listeners \<Rightarrow> Instrumentation \<Rightarrow> Instrumentation" where
  "set_listeners kMethodEntered ls i = i\<lparr>method_entry_listeners := ls, have_method_entry_listeners := ls \<noteq> []\<rparr>"
| "set_listeners kMethodExited ls i = i\<lparr>method_exit_listeners := ls, have_method_exit_listeners := ls \<noteq> []\<rparr>"
| "set_listeners kMethodUnwind ls i = i\<lparr>method_unwind_listeners := ls, have_method_unwind_listeners := ls \<noteq> []\<rparr>"
| "set_listeners kBackwardBranch ls i = i\<lparr>backward_branch_listeners := ls, have_backward_branch_listeners := ls \<noteq> []\<rparr>"
| "set_listeners kDexPcMoved ls i = i\<lparr>dex_pc_listeners := shared ls, have_dex_pc_listeners := ls \<noteq> []\<rparr>"
| "set_listeners kFieldRead ls i = i\<lparr>field_read_listeners := shared ls, have_field_read_listeners := ls \<noteq> []\<rparr>"
| "set_listeners kFieldWritten ls i = i\<lparr>field_write_listeners := shared ls, have_field_write_listeners := ls \<noteq> []\<rparr>"
| "set_listeners kExceptionCaught ls i = i\<lparr>exception_caught_listeners := shared ls, have_exception_caught_listeners := ls \<noteq> []\<rparr>"

definition lists_ok :: "Instrumentation \<Rightarrow> bool" where
  "lists_ok i \<longleftrightarrow>
     (have_method_entry_listeners i \<longleftrightarrow> method_entry_listeners i \<noteq> []) \<and>
     (have_method_exit_listeners i \<longleftrightarrow> method_exit_listeners i \<noteq> []) \<and>
     (have_method_unwind_listeners i \<longleftrightarrow> method_unwind_listeners i \<noteq> []) \<and>
     (have_backward_branch_listeners i \<longleftrightarrow> backward_branch_listeners i \<noteq> []) \<and>
     shared_ok (have_dex_pc_listeners i) (dex_pc_listeners i) \<and>
     shared_ok (have_field_read_listeners i) (field_read_listeners i) \<and>
     shared_ok (have_field_write_listeners i) (field_write_listeners i) \<and>
     shared_ok (have_exception_caught_listeners i) (exception_caught_listeners i)"

lemma listeners_inv_lists:
  "listeners_inv i \<longleftrightarrow> lists_ok i \<and>
     (interpreter_handler_table i = kAlternativeHandlerTable \<longleftrightarrow> IsActive i)"
  by (simp add: listeners_inv_def lists_ok_def)

lemma shared_ok_shared [simp]: "shared_ok (ls \<noteq> []) (shared ls)"
  by (simp add: shared_def shared_ok_def)

lemma registered_set [simp]:
  "registered (set_listeners ev ls i) ev' = (if ev' = ev then ls else registered i ev')"
  by (cases ev; cases ev') simp_all

lemma lists_ok_set [simp]: "lists_ok i \<Longrightarrow> lists_ok (set_listeners ev ls i)"
  by (cases ev) (simp_all add: lists_ok_def)

lemma registered_Update [simp]: "registered (UpdateInterpreterHandlerTable i) ev = registered i ev"
  by (cases ev) (simp_all add: UpdateInterpreterHandlerTable_def)

lemma lists_ok_Update: "lists_ok i \<Longrightarrow> listeners_inv (UpdateInterpreterHandlerTable i)"
  by (simp add: listeners_inv_lists lists_ok_def UpdateInterpreterHandlerTable_def IsActive_def)

lemma shared_okE:
  assumes "shared_ok b p"
  obtains ls where "b" "p = Some ls" "ls \<noteq> []" | "\<not> b" "p = None"
  using assms by (cases p) (auto simp: shared_ok_def)

lemma update_same:
  "method_entry_listeners i = p \<Longrightarrow> have_method_entry_listeners i = b \<Longrightarrow> i\<lparr>method_entry_listeners := p, have_method_entry_listeners := b\<rparr> = i"
  "method_exit_listeners i = p \<Longrightarrow> have_method_exit_listeners i = b \<Longrightarrow> i\<lparr>method_exit_listeners := p, have_method_exit_listeners := b\<rparr> = i"
  "method_unwind_listeners i = p \<Longrightarrow> have_method_unwind_listeners i = b \<Longrightarrow> i\<lparr>method_unwind_listeners := p, have_method_unwind_listeners := b\<rparr> = i"
  "backward_branch_listeners i = p \<Longrightarrow> have_backward_branch_listeners i = b \<Longrightarrow> i\<lparr>backward_branch_listeners := p, have_backward_branch_listeners := b\<rparr> = i"
  "dex_pc_listeners i = q \<Longrightarrow> have_dex_pc_listeners i = b \<Longrightarrow> i\<lparr>dex_pc_listeners := q, have_dex_pc_listeners := b\<rparr> = i"
  "field_read_listeners i = q \<Longrightarrow> have_field_read_listeners i = b \<Longrightarrow> i\<lparr>field_read_listeners := q, have_field_read_listeners := b\<rparr> = i"
  "field_write_listeners i = q \<Longrightarrow> have_field_write_listeners i = b \<Longrightarrow> i\<lparr>field_write_listeners := q, have_field_write_listeners := b\<rparr> = i"
  "exception_caught_listeners i = q \<Longrightarrow> have_exception_caught_listeners i = b \<Longrightarrow> i\<lparr>exception_caught_listeners := q, have_exception_caught_listeners := b\<rparr> = i"
  by auto

text \<open>The blocks of AddListener.\<close>

lemma add_plain:
  "lists_ok i \<Longrightarrow> (if b then i\<lparr>method_entry_listeners := method_entry_listeners i @ [l], have_method_entry_listeners := True\<rparr> else i) =
     set_listeners kMethodEntered (registered i kMethodEntered @ (if b then [l] else [])) i"
  "lists_ok i \<Longrightarrow> (if b then i\<lparr>method_exit_listeners := method_exit_listeners i @ [l], have_method_exit_listeners := True\<rparr> else i) =
     set_listeners kMethodExited (registered i kMethodExited @ (if b then [l] else [])) i"
  "lists_ok i \<Longrightarrow> (if b then i\<lparr>method_unwind_listeners := method_unwind_listeners i @ [l], have_method_unwind_listeners := True\<rparr> else i) =
     set_listeners kMethodUnwind (registered i kMethodUnwind @ (if b then [l] else [])) i"
  "lists_ok i \<Longrightarrow> (if b then i\<lparr>backward_branch_listeners := backward_branch_listeners i @ [l], have_backward_branch_listeners := True\<rparr> else i) =
     set_listeners kBackwardBranch (registered i kBackwardBranch @ (if b then [l] else [])) i"
  by (simp_all add: lists_ok_def update_same)

lemma add_shared:
  "lists_ok i \<Longrightarrow>
   (if b then rbind (modified_add (have_dex_pc_listeners i) (dex_pc_listeners i) l)
                (\<lambda>ls. Inr (i\<lparr>dex_pc_listeners := Some ls, have_dex_pc_listeners := True\<rparr>)) else Inr i) =
   Inr (set_listeners kDexPcMoved (registered i kDexPcMoved @ (if b then [l] else [])) i)"
  "lists_ok i \<Longrightarrow>
   (if b then rbind (modified_add (have_field_read_listeners i) (field_read_listeners i) l)
                (\<lambda>ls. Inr (i\<lparr>field_read_listeners := Some ls, have_field_read_listeners := True\<rparr>)) else Inr i) =
   Inr (set_listeners kFieldRead (registered i kFieldRead @ (if b then [l] else [])) i)"
  "lists_ok i \<Longrightarrow>
   (if b then rbind (modified_add (have_field_write_listeners i) (field_write_listeners i) l)
                (\<lambda>ls. Inr (i\<lparr>field_write_listeners := Some ls, have_field_write_listeners := True\<rparr>)) else Inr i) =
   Inr (set_listeners kFieldWritten (registered i kFieldWritten @ (if b then [l] else [])) i)"
  "lists_ok i \<Longrightarrow>
   (if b then rbind (modified_add (have_exception_caught_listeners i) (exception_caught_listeners i) l)
                (\<lambda>ls. Inr (i\<lparr>exception_caught_listeners := Some ls, have_exception_caught_listeners := True\<rparr>)) else Inr i) =
   Inr (set_listeners kExceptionCaught (registered i kExceptionCaught @ (if b then [l] else [])) i)"
  by (simp_all add: lists_ok_def shared_ok_def modified_add_def shared_def update_same
      split: option.splits)

text \<open>The blocks of RemoveListener.\<close>

lemma remove_plain:
  "lists_ok i \<Longrightarrow> (if b \<and> have_method_entry_listeners i
       then i\<lparr>method_entry_listeners := list_remove l (method_entry_listeners i), have_method_entry_listeners := list_remove l (method_entry_listeners i) \<noteq> []\<rparr> else i) =
     set_listeners kMethodEntered (if b then list_remove l (registered i kMethodEntered) else registered i kMethodEntered) i"
  "lists_ok i \<Longrightarrow> (if b \<and> have_method_exit_listeners i
       then i\<lparr>method_exit_listeners := list_remove l (method_exit_listeners i), have_method_exit_listeners := list_remove l (method_exit_listeners i) \<noteq> []\<rparr> else i) =
     set_listeners kMethodExited (if b then list_remove l (registered i kMethodExited) else registered i kMethodExited) i"
  "lists_ok i \<Longrightarrow> (if b \<and> have_method_unwind_listeners i
       then i\<lparr>method_unwind_listeners := list_remove l (method_unwind_listeners i), have_method_unwind_listeners := list_remove l (method_unwind_listeners i) \<noteq> []\<rparr> else i) =
     set_listeners kMethodUnwind (if b then list_remove l (registered i kMethodUnwind) else registered i kMethodUnwind) i"
  "lists_ok i \<Longrightarrow> (if b \<and> have_backward_branch_listeners i
       then i\<lparr>backward_branch_listeners := list_remove l (backward_branch_listeners i), have_backward_branch_listeners := list_remove l (backward_branch_listeners i) \<noteq> []\<rparr> else i) =
     set_listeners kBackwardBranch (if b then list_remove l (registered i kBackwardBranch) else registered i kBackwardBranch) i"
  by (simp_all add: lists_ok_def list_remove_def update_same)

lemma remove_shared:
  "lists_ok i \<Longrightarrow>
   (if b \<and> have_dex_pc_listeners i then rbind (modified_remove (dex_pc_listeners i) l)
       (\<lambda>ls. Inr (i\<lparr>have_dex_pc_listeners := ls \<noteq> [], dex_pc_listeners := (if ls \<noteq> [] then Some ls else None)\<rparr>)) else Inr i) =
   Inr (set_listeners kDexPcMoved (if b then list_remove l (registered i kDexPcMoved) else registered i kDexPcMoved) i)"
  "lists_ok i \<Longrightarrow>
   (if b \<and> have_field_read_listeners i then rbind (modified_remove (field_read_listeners i) l)
       (\<lambda>ls. Inr (i\<lparr>have_field_read_listeners := ls \<noteq> [], field_read_listeners := (if ls \<noteq> [] then Some ls else None)\<rparr>)) else Inr i) =
   Inr (set_listeners kFieldRead (if b then list_remove l (registered i kFieldRead) else registered i kFieldRead) i)"
  "lists_ok i \<Longrightarrow>
   (if b \<and> have_field_write_listeners i then rbind (modified_remove (field_write_listeners i) l)
       (\<lambda>ls. Inr (i\<lparr>have_field_write_listeners := ls \<noteq> [], field_write_listeners := (if ls \<noteq> [] then Some ls else None)\<rparr>)) else Inr i) =
   Inr (set_listeners kFieldWritten (if b then list_remove l (registered i kFieldWritten) else registered i kFieldWritten) i)"
  "lists_ok i \<Longrightarrow>
   (if b \<and> have_exception_caught_listeners i then rbind (modified_remove (exception_caught_listeners i) l)
       (\<lambda>ls. Inr (i\<lparr>have_exception_caught_listeners := ls \<noteq> [], exception_caught_listeners := (if ls \<noteq> [] then Some ls else None)\<rparr>)) else Inr i) =
   Inr (set_listeners kExceptionCaught (if b then list_remove l (registered i kExceptionCaught) else registered i kExceptionCaught) i)"
  by (simp_all add: lists_ok_def shared_ok_def modified_remove_def list_remove_def shared_def update_same
      split: option.splits)

definition added :: "listener \<Rightarrow> u32 \<Rightarrow> Instrumentation \<Rightarrow> InstrumentationEvent \<Rightarrow> listeners" where
  "added l events i ev = registered i ev @ (if HasEvent ev events then [l] else [])"

definition removed :: "listener \<Rightarrow> u32 \<Rightarrow> Instrumentation \<Rightarrow> InstrumentationEvent \<Rightarrow> listeners" where
  "removed l events i ev =
     (if HasEvent ev events then list_remove l (registered i ev) else registered i ev)"

text \<open>Everything but the listener lists, their flags and the handler table.\<close>

definition same_levels :: "Instrumentation \<Rightarrow> Instrumentation \<Rightarrow> bool" where
  "same_levels i j \<longleftrightarrow>
     instrumentation_stubs_installed i = instrumentation_stubs_installed j \<and>
     entry_exit_stubs_installed i = entry_exit_stubs_installed j \<and>
     interpreter_stubs_installed i = interpreter_stubs_installed j \<and>
     interpret_only i = interpret_only j \<and> forced_interpret_only i = forced_interpret_only j \<and>
     requested_instrumentation_levels i = requested_instrumentation_levels j \<and>
     deoptimized_methods i = deoptimized_methods j \<and>
     deoptimization_enabled i = deoptimization_enabled j \<and>
     quick_alloc_entry_points_instrumentation_counter i = quick_alloc_entry_points_instrumentation_counter j"

lemma same_levels_set [simp]:
  "same_levels (set_listeners ev ls i) j = same_levels i j"
  by (cases ev) (simp_all add: same_levels_def)

lemma same_levels_Update [simp]: "same_levels (UpdateInterpreterHandlerTable i) j = same_levels i j"
  by (simp add: same_levels_def UpdateInterpreterHandlerTable_def)

lemma same_levels_refl [simp]: "same_levels i i"
  by (simp add: same_levels_def)

declare set_listeners.simps [simp del]

definition with_listeners :: "(InstrumentationEvent \<Rightarrow> listeners) \<Rightarrow> Instrumentation \<Rightarrow> Instrumentation" where
  "with_listeners r i = UpdateInterpreterHandlerTable
     (set_listeners kExceptionCaught (r kExceptionCaught)
     (set_listeners kFieldWritten (r kFieldWritten)
     (set_listeners kFieldRead (r kFieldRead)
     (set_listeners kDexPcMoved (r kDexPcMoved)
     (set_listeners kBackwardBranch (r kBackwardBranch)
     (set_listeners kMethodUnwind (r kMethodUnwind)
     (set_listeners kMethodExited (r kMethodExited)
     (set_listeners kMethodEntered (r kMethodEntered) i))))))))"

lemma registered_with: "registered (with_listeners r i) ev = r ev"
  unfolding with_listeners_def
  by (cases ev) (simp_all only: registered_Update registered_set InstrumentationEvent.distinct simp_thms if_True if_False)

lemma inv_with: "lists_ok i \<Longrightarrow> listeners_inv (with_listeners r i)"
  unfolding with_listeners_def by (intro lists_ok_Update lists_ok_set)

lemma same_levels_with: "same_levels (with_listeners r i) i"
  by (simp add: with_listeners_def)

lemma AddListener_eq:
  assumes "lists_ok i"
  shows "AddListener l events i = Inr (with_listeners (added l events i) i)"
  unfolding AddListener_def Let_def added_def with_listeners_def
  by (simp only: add_plain add_shared assms lists_ok_set rbind_Inr registered_set
      InstrumentationEvent.distinct if_False)

lemma RemoveListener_eq:
  assumes "lists_ok i"
  shows "RemoveListener l events i = Inr (with_listeners (removed l events i) i)"
  unfolding RemoveListener_def Let_def removed_def with_listeners_def
  by (simp only: remove_plain remove_shared assms lists_ok_set rbind_Inr registered_set
      InstrumentationEvent.distinct if_False)

lemma ex_event:
  "(\<exists>ev. Q ev) \<longleftrightarrow> Q kMethodEntered \<or> Q kMethodExited \<or> Q kMethodUnwind \<or> Q kDexPcMoved \<or>
     Q kFieldRead \<or> Q kFieldWritten \<or> Q kExceptionCaught \<or> Q kBackwardBranch"
proof
  assume "\<exists>ev. Q ev"
  then obtain ev where "Q ev" by blast
  then show "Q kMethodEntered \<or> Q kMethodExited \<or> Q kMethodUnwind \<or> Q kDexPcMoved \<or>
     Q kFieldRead \<or> Q kFieldWritten \<or> Q kExceptionCaught \<or> Q kBackwardBranch"
    by (cases ev) simp_all
qed blast

lemma IsActive_registered:
  assumes "listeners_inv i"
  shows "IsActive i \<longleftrightarrow> (\<exists>ev. ev \<noteq> kBackwardBranch \<and> registered i ev \<noteq> [])"
proof -
  have "IsActive i \<longleftrightarrow> (\<exists>ev. ev \<noteq> kBackwardBranch \<and> have_listeners i ev)"
    by (simp add: ex_event IsActive_def) blast
  with assms show ?thesis by (simp add: have_iff_registered)
qed

lemma registered_new: "registered new_Instrumentation ev = []"
  by (cases ev) (simp_all add: new_Instrumentation_def)

text \<open>C21: AddListener keeps the registry's invariant and appends the listener to the list of
  exactly the events of its mask.\<close>

theorem AddListener_registers:
  assumes "listeners_inv i"
  shows "\<exists>i'. AddListener l events i = Inr i' \<and> listeners_inv i' \<and> same_levels i' i \<and>
     (\<forall>ev. registered i' ev = registered i ev @ (if HasEvent ev events then [l] else []))"
proof -
  from assms have ok: "lists_ok i" by (simp add: listeners_inv_lists)
  show ?thesis
    using AddListener_eq [OF ok] inv_with [OF ok] same_levels_with registered_with
    unfolding added_def by blast
qed

theorem AddListener_registers_witness:
  "listeners_inv new_Instrumentation \<and>
   (\<exists>i'. AddListener 0x1000 0x31 new_Instrumentation = Inr i' \<and> registered i' kFieldRead = [0x1000])"
proof -
  obtain i' where i': "AddListener 0x1000 0x31 new_Instrumentation = Inr i'"
      "\<forall>ev. registered i' ev = registered new_Instrumentation ev @ (if HasEvent ev 0x31 then [0x1000] else [])"
    using AddListener_registers [OF new_listeners_inv, of "0x1000" "0x31"] by blast
  have "HasEvent kFieldRead 0x31" by (simp add: HasEvent_def)
  with i'(2) have "registered i' kFieldRead = [0x1000]" by (simp only: registered_new if_True append_Nil)
  with i'(1) new_listeners_inv show ?thesis by blast
qed

text \<open>C22: RemoveListener keeps the invariant and drops the listener from exactly the lists of
  the events of its mask; the interpreter uses the alternative handler table afterwards
  exactly when a listener for an event other than backward branches is left.\<close>

theorem RemoveListener_unregisters:
  assumes "listeners_inv i"
  shows "\<exists>i'. RemoveListener l events i = Inr i' \<and> listeners_inv i' \<and> same_levels i' i \<and>
     (\<forall>ev. registered i' ev = (if HasEvent ev events then filter (\<lambda>x. x \<noteq> l) (registered i ev)
                               else registered i ev)) \<and>
     (interpreter_handler_table i' = kAlternativeHandlerTable \<longleftrightarrow>
        (\<exists>ev. ev \<noteq> kBackwardBranch \<and> registered i' ev \<noteq> []))"
proof -
  from assms have ok: "lists_ok i" by (simp add: listeners_inv_lists)
  define i' where "i' = with_listeners (removed l events i) i"
  have i': "RemoveListener l events i = Inr i'" "listeners_inv i'" "same_levels i' i"
      "\<forall>ev. registered i' ev = removed l events i ev"
    using RemoveListener_eq [OF ok] inv_with [OF ok] same_levels_with registered_with
    by (simp_all add: i'_def)
  from i'(2) have "interpreter_handler_table i' = kAlternativeHandlerTable \<longleftrightarrow>
      (\<exists>ev. ev \<noteq> kBackwardBranch \<and> registered i' ev \<noteq> [])"
    using IsActive_registered by (simp add: listeners_inv_lists)
  with i' show ?thesis
    unfolding removed_def list_remove_def by blast
qed

theorem RemoveListener_unregisters_witness:
  "\<exists>i i'. AddListener 0x1000 0x31 new_Instrumentation = Inr i \<and> listeners_inv i \<and>
     RemoveListener 0x1000 0x31 i = Inr i' \<and> registered i' kFieldRead = [] \<and>
     interpreter_handler_table i' = kMainHandlerTable"
proof -
  define i where "i = with_listeners (added 0x1000 0x31 new_Instrumentation) new_Instrumentation"
  have ok: "lists_ok new_Instrumentation" using new_listeners_inv by (simp only: listeners_inv_lists)
  have i: "AddListener 0x1000 0x31 new_Instrumentation = Inr i" "listeners_inv i"
    unfolding i_def by (fact AddListener_eq [OF ok] inv_with [OF ok])+
  have reg: "registered i ev = (if HasEvent ev 0x31 then [0x1000] else [])" for ev
    unfolding i_def by (simp only: registered_with added_def registered_new append_Nil)
  obtain i' where i': "RemoveListener 0x1000 0x31 i = Inr i'"
      "\<forall>ev. registered i' ev = (if HasEvent ev 0x31 then filter (\<lambda>x. x \<noteq> 0x1000) (registered i ev)
                                 else registered i ev)"
      "interpreter_handler_table i' = kAlternativeHandlerTable \<longleftrightarrow>
        (\<exists>ev. ev \<noteq> kBackwardBranch \<and> registered i' ev \<noteq> [])"
    using RemoveListener_unregisters [OF i(2), of "0x1000" "0x31"] by blast
  from i'(2) reg have none: "registered i' ev = []" for ev by (cases "HasEvent ev 0x31") simp_all
  with i'(3) have "interpreter_handler_table i' = kMainHandlerTable"
    by (cases "interpreter_handler_table i'") simp_all
  with i i'(1) none show ?thesis by blast
qed

end
