(* ===== verification/MiniTrace_Buffer.thy ===== *)
theory MiniTrace_Buffer
  imports MiniTrace_Record Fd_File Safe_Map Art_Class Instrumentation
begin

text \<open>
  The trace buffer of runtime/mini\_trace.cc: the tracer object, FlushBuffer, HandleOverflow,
  the reservation loop and the three Log functions with the listener callbacks that call them,
  for one thread at a time (MiniTrace\_Concurrent has the interleavings). A weak
  compare-exchange that fails spuriously repeats the loop in an unchanged state, so here it
  fails exactly when the offset has changed.
\<close>

section \<open>State\<close>

record MiniTrace =
  trace_info_file :: FdFile
  trace_data_file :: FdFile
  trace_buf :: "u8 list"
  trace_events :: u32
  do_coverage :: bool
  do_filter :: bool
  buffer_size :: int
  start_time :: u64
  cur_offset :: nat
  buffer_overflow_count :: nat
  visited_methods :: "ptr set"
  visited_fields :: "ptr set"
  exited_threads :: "(u32, string) safe_map"

definition kDoMonitorEntered :: u32 where "kDoMonitorEntered = 0x80"
definition kDoMonitorExited :: u32 where "kDoMonitorExited = 0x100"
definition kDoCoverage :: u32 where "kDoCoverage = 0x200"
definition kDoFilter :: u32 where "kDoFilter = 0x400"

text \<open>The constructor; \<open>new uint8_t[n]()\<close> throws for a negative size.\<close>

definition new_MiniTrace :: "FdFile \<Rightarrow> FdFile \<Rightarrow> u32 \<Rightarrow> int \<Rightarrow> u64 \<Rightarrow> MiniTrace res" where
  "new_MiniTrace info data events sz now =
     (if sz < 0 then Inl BadAlloc
      else Inr \<lparr>trace_info_file = info, trace_data_file = data,
        trace_buf = replicate (nat sz) 0, trace_events = events,
        do_coverage = (events AND kDoCoverage \<noteq> 0), do_filter = (events AND kDoFilter \<noteq> 0),
        buffer_size = sz, start_time = now, cur_offset = 0, buffer_overflow_count = 0,
        visited_methods = {}, visited_fields = {}, exited_threads = []\<rparr>)"

section \<open>Flushing\<close>

text \<open>One turn of the scan of FlushBuffer: the switch on the action of a record.\<close>

definition visit_record :: "u32 \<Rightarrow> ptr set \<times> ptr set \<Rightarrow> (ptr set \<times> ptr set) res" where
  "visit_record aid v = (case v of (ms, fs) \<Rightarrow>
     (case DecodeMiniTraceAction aid of
        kMiniTraceMethodEnter \<Rightarrow> Inr (insert (DecodeMiniTraceMethodId aid) ms, fs)
      | kMiniTraceMethodExit \<Rightarrow> Inr (insert (DecodeMiniTraceMethodId aid) ms, fs)
      | kMiniTraceUnroll \<Rightarrow> Inr (insert (DecodeMiniTraceMethodId aid) ms, fs)
      | kMiniTraceFieldRead \<Rightarrow> Inr (ms, insert (DecodeMiniTraceFieldId aid) fs)
      | kMiniTraceFieldWrite \<Rightarrow> Inr (ms, insert (DecodeMiniTraceFieldId aid) fs)
      | kMiniTraceMonitorEnter \<Rightarrow> Inr (ms, fs)
      | kMiniTraceMonitorExit \<Rightarrow> Inr (ms, fs)
      | kMiniTraceActionMask \<Rightarrow> Inl FatalLog))"

function scan_records ::
    "u8 list \<Rightarrow> nat \<Rightarrow> nat \<Rightarrow> ptr set \<times> ptr set \<Rightarrow> (ptr set \<times> ptr set) res" where
  "scan_records b p e v =
     (if p < e
      then rbind (record_aid b p) (\<lambda>aid. rbind (visit_record aid v) (\<lambda>v.
             scan_records b (p + kMiniTraceRecordSize) e v))
      else Inr v)"
  by pat_completeness auto
termination
  by (relation "measure (\<lambda>(b, p, e, v). e - p)") (auto simp: kMiniTraceRecordSize_def)

declare scan_records.simps [simp del]

definition FlushBuffer :: "MiniTrace \<Rightarrow> (bool \<times> MiniTrace) res" where
  "FlushBuffer t =
     (let cur = cur_offset t in
      if cur = 0 then Inr (True, t)
      else if length (trace_buf t) < cur then Inl OutOfBounds
      else case WriteFully (take cur (trace_buf t)) (trace_data_file t) of
             (False, f) \<Rightarrow> Inr (False, t\<lparr>trace_data_file := f\<rparr>)
           | (True, f) \<Rightarrow>
               rbind (scan_records (trace_buf t) 0 cur (visited_methods t, visited_fields t))
                 (\<lambda>(ms, fs). Inr (True, t\<lparr>trace_data_file := f, visited_methods := ms,
                                          visited_fields := fs, cur_offset := 0\<rparr>)))"

text \<open>HandleOverflow; \<open>local_count\<close> is the count the thread read before it took the lock.\<close>

definition HandleOverflow_locked :: "nat \<Rightarrow> MiniTrace \<Rightarrow> (bool \<times> MiniTrace) res" where
  "HandleOverflow_locked local_count t =
     (if local_count \<noteq> buffer_overflow_count t then Inr (True, t)
      else FlushBuffer (t\<lparr>buffer_overflow_count := buffer_overflow_count t + 1\<rparr>))"

definition HandleOverflow :: "MiniTrace \<Rightarrow> (bool \<times> MiniTrace) res" where
  "HandleOverflow t =
     (let local_count = buffer_overflow_count t in
      if local_count > 1024 then Inr (False, t) else HandleOverflow_locked local_count t)"

section \<open>Reserving a slot\<close>

lemma FlushBuffer_offset:
  "FlushBuffer t = Inr (ok, t') \<Longrightarrow> cur_offset t' = (if ok then 0 else cur_offset t)"
  by (auto simp: FlushBuffer_def Let_def rbind_eq_Inr split: if_splits prod.splits bool.splits)

lemma HandleOverflow_offset:
  assumes "HandleOverflow t = Inr (ok, t')"
  shows "cur_offset t' = (if ok then 0 else cur_offset t)"
  using assms FlushBuffer_offset
  by (fastforce simp: HandleOverflow_def HandleOverflow_locked_def Let_def split: if_splits)

text \<open>
  The do-while loop of the Log functions. A handled overflow reaches the loop condition
  through \<open>continue\<close>, so the compare-exchange runs with the offsets computed before it.
\<close>

function reserve :: "MiniTrace \<Rightarrow> (nat option \<times> MiniTrace) res" where
  "reserve t =
     (let old_offset = cur_offset t; new_offset = old_offset + kMiniTraceRecordSize in
      if int new_offset > buffer_size t
      then case HandleOverflow t of
             Inl e \<Rightarrow> Inl e
           | Inr (ok, t') \<Rightarrow>
               if \<not> ok then Inr (None, t')
               else if cur_offset t' = old_offset
                    then Inr (Some old_offset, t'\<lparr>cur_offset := new_offset\<rparr>)
                    else reserve t'
      else Inr (Some old_offset, t\<lparr>cur_offset := new_offset\<rparr>))"
  by pat_completeness auto
termination
  by (relation "measure cur_offset") (auto dest: HandleOverflow_offset)

declare reserve.simps [simp del]

section \<open>Logging\<close>

definition LogMethodTraceEvent ::
    "art_heap \<Rightarrow> u32 \<Rightarrow> ptr \<Rightarrow> InstrumentationEvent \<Rightarrow> u64 \<Rightarrow> MiniTrace \<Rightarrow> MiniTrace res" where
  "LogMethodTraceEvent h tid method event return_value t =
     rbind (deref (methods h) method) (\<lambda>m.
     if \<not> method_IsMiniTraceable m then Inr t else
     rbind (case event of
              kMethodEntered \<Rightarrow> Inr kMiniTraceMethodEnter
            | kMethodExited \<Rightarrow> Inr kMiniTraceMethodExit
            | kMethodUnwind \<Rightarrow> Inr kMiniTraceUnroll
            | _ \<Rightarrow> Inl FatalLog) (\<lambda>action.
     rbind (reserve t) (\<lambda>(slot, t).
     case slot of
       None \<Rightarrow> Inr t
     | Some old_offset \<Rightarrow>
         rbind (write_method_record (trace_buf t) old_offset tid method action return_value)
           (\<lambda>b. Inr (t\<lparr>trace_buf := b\<rparr>)))))"

definition LogFieldTraceEvent ::
    "art_heap \<Rightarrow> u32 \<Rightarrow> ptr \<Rightarrow> ptr \<Rightarrow> u32 \<Rightarrow> bool \<Rightarrow> MiniTrace \<Rightarrow> MiniTrace res" where
  "LogFieldTraceEvent h tid this_object field dex_pc read_event t =
     rbind (deref (art_fields h) field) (\<lambda>fl.
     if \<not> field_IsMiniTraceable fl then Inr t else
     let action = (if read_event then kMiniTraceFieldRead else kMiniTraceFieldWrite) in
     rbind (reserve t) (\<lambda>(slot, t).
     case slot of
       None \<Rightarrow> Inr t
     | Some old_offset \<Rightarrow>
         rbind (write_field_record (trace_buf t) old_offset tid field action this_object dex_pc)
           (\<lambda>b. Inr (t\<lparr>trace_buf := b\<rparr>))))"

definition LogMonitorTraceEvent ::
    "u32 \<Rightarrow> ptr \<Rightarrow> u32 \<Rightarrow> bool \<Rightarrow> MiniTrace \<Rightarrow> MiniTrace res" where
  "LogMonitorTraceEvent tid lock_object dex_pc enter_event t =
     (let action = (if enter_event then kMiniTraceMonitorEnter else kMiniTraceMonitorExit) in
      rbind (reserve t) (\<lambda>(slot, t).
      case slot of
        None \<Rightarrow> Inr t
      | Some old_offset \<Rightarrow>
          rbind (write_monitor_record (trace_buf t) old_offset tid lock_object action dex_pc)
            (\<lambda>b. Inr (t\<lparr>trace_buf := b\<rparr>))))"

section \<open>Callbacks of the instrumentation listener\<close>

definition DexPcMoved :: "u32 \<Rightarrow> ptr \<Rightarrow> ptr \<Rightarrow> u32 \<Rightarrow> MiniTrace \<Rightarrow> MiniTrace res" where
  "DexPcMoved thread this_object method new_dex_pc t = Inr t"

definition FieldRead ::
    "art_heap \<Rightarrow> u32 \<Rightarrow> ptr \<Rightarrow> ptr \<Rightarrow> u32 \<Rightarrow> ptr \<Rightarrow> MiniTrace \<Rightarrow> MiniTrace res" where
  "FieldRead h thread this_object method dex_pc field t =
     LogFieldTraceEvent h thread this_object field dex_pc True t"

definition FieldWritten ::
    "art_heap \<Rightarrow> u32 \<Rightarrow> ptr \<Rightarrow> ptr \<Rightarrow> u32 \<Rightarrow> ptr \<Rightarrow> u64 \<Rightarrow> MiniTrace \<Rightarrow> MiniTrace res" where
  "FieldWritten h thread this_object method dex_pc field field_value t =
     LogFieldTraceEvent h thread this_object field dex_pc False t"

definition MethodEntered ::
    "art_heap \<Rightarrow> u32 \<Rightarrow> ptr \<Rightarrow> ptr \<Rightarrow> u32 \<Rightarrow> MiniTrace \<Rightarrow> MiniTrace res" where
  "MethodEntered h thread this_object method dex_pc t =
     LogMethodTraceEvent h thread method kMethodEntered 0 t"

definition MethodExited ::
    "art_heap \<Rightarrow> u32 \<Rightarrow> ptr \<Rightarrow> ptr \<Rightarrow> u32 \<Rightarrow> u64 \<Rightarrow> MiniTrace \<Rightarrow> MiniTrace res" where
  "MethodExited h thread this_object method dex_pc return_value t =
     LogMethodTraceEvent h thread method kMethodExited return_value t"

definition MethodUnwind ::
    "art_heap \<Rightarrow> u32 \<Rightarrow> ptr \<Rightarrow> ptr \<Rightarrow> u32 \<Rightarrow> MiniTrace \<Rightarrow> MiniTrace res" where
  "MethodUnwind h thread this_object method dex_pc t =
     LogMethodTraceEvent h thread method kMethodUnwind 0 t"

definition ExceptionCaught :: "u32 \<Rightarrow> ptr \<Rightarrow> MiniTrace \<Rightarrow> MiniTrace res" where
  "ExceptionCaught thread exception_object t = Inr t"

definition BackwardBranch :: "u32 \<Rightarrow> ptr \<Rightarrow> u32 \<Rightarrow> MiniTrace \<Rightarrow> MiniTrace res" where
  "BackwardBranch thread method dex_pc_offset t = Inr t"

section \<open>The buffer's invariant\<close>

definition aid_at :: "u8 list \<Rightarrow> nat \<Rightarrow> u32" where
  "aid_at b k = le32 (b ! (14 * k + 2)) (b ! (14 * k + 3)) (b ! (14 * k + 4)) (b ! (14 * k + 5))"

definition methods_in :: "u8 list \<Rightarrow> nat set \<Rightarrow> ptr set" where
  "methods_in b K = (\<lambda>k. DecodeMiniTraceMethodId (aid_at b k)) `
     {k \<in> K. DecodeMiniTraceAction (aid_at b k) \<in> {kMiniTraceMethodEnter, kMiniTraceMethodExit, kMiniTraceUnroll}}"

definition fields_in :: "u8 list \<Rightarrow> nat set \<Rightarrow> ptr set" where
  "fields_in b K = (\<lambda>k. DecodeMiniTraceFieldId (aid_at b k)) `
     {k \<in> K. DecodeMiniTraceAction (aid_at b k) \<in> {kMiniTraceFieldRead, kMiniTraceFieldWrite}}"

definition records_ok :: "u8 list \<Rightarrow> nat \<Rightarrow> bool" where
  "records_ok b n \<longleftrightarrow> (\<forall>k < n. DecodeMiniTraceAction (aid_at b k) \<noteq> kMiniTraceActionMask)"

definition trace_inv :: "MiniTrace \<Rightarrow> bool" where
  "trace_inv t \<longleftrightarrow> 14 \<le> buffer_size t \<and> length (trace_buf t) = nat (buffer_size t) \<and>
     int (cur_offset t) \<le> buffer_size t \<and> 14 dvd cur_offset t \<and>
     records_ok (trace_buf t) (cur_offset t div 14)"

text \<open>The bytes traced so far: those in the file and those waiting in the buffer.\<close>

definition stream :: "MiniTrace \<Rightarrow> u8 list" where
  "stream t = file_bytes (trace_data_file t) @ take (cur_offset t) (trace_buf t)"

lemma record_aid_at: "14 * k + 6 \<le> length b \<Longrightarrow> record_aid b (14 * k) = Inr (aid_at b k)"
  by (simp add: record_aid_def load8_def aid_at_def le32_def)

lemma visits_single:
  "methods_in b {k} = (if DecodeMiniTraceAction (aid_at b k) \<in>
      {kMiniTraceMethodEnter, kMiniTraceMethodExit, kMiniTraceUnroll}
    then {DecodeMiniTraceMethodId (aid_at b k)} else {})"
  "fields_in b {k} = (if DecodeMiniTraceAction (aid_at b k) \<in> {kMiniTraceFieldRead, kMiniTraceFieldWrite}
    then {DecodeMiniTraceFieldId (aid_at b k)} else {})"
  unfolding methods_in_def fields_in_def by auto

lemma visit_aid:
  assumes "DecodeMiniTraceAction (aid_at b k) \<noteq> kMiniTraceActionMask"
  shows "visit_record (aid_at b k) (ms, fs) = Inr (methods_in b {k} \<union> ms, fields_in b {k} \<union> fs)"
  using assms
  by (cases "DecodeMiniTraceAction (aid_at b k)") (simp_all add: visit_record_def visits_single)

lemma visits_insert:
  "methods_in b (insert k K) = methods_in b {k} \<union> methods_in b K"
  "fields_in b (insert k K) = fields_in b {k} \<union> fields_in b K"
  by (auto simp: methods_in_def fields_in_def)

lemma visits_empty [simp]: "methods_in b {} = {}" "fields_in b {} = {}"
  by (simp_all add: methods_in_def fields_in_def)

lemma scan_records_from:
  assumes "j \<le> n" "14 * n \<le> length b" "records_ok b n"
  shows "scan_records b (14 * j) (14 * n) (ms, fs) =
     Inr (ms \<union> methods_in b {j..<n}, fs \<union> fields_in b {j..<n})"
  using assms
proof (induction "n - j" arbitrary: j ms fs)
  case 0
  then show ?case by (simp add: scan_records.simps)
next
  case (Suc d)
  then have j: "j < n" "d = n - Suc j" by auto
  have dec: "DecodeMiniTraceAction (aid_at b j) \<noteq> kMiniTraceActionMask"
    using Suc.prems(3) j(1) by (simp add: records_ok_def)
  let ?v = "(methods_in b {j} \<union> ms, fields_in b {j} \<union> fs)"
  have "scan_records b (14 * j) (14 * n) (ms, fs) = scan_records b (14 * Suc j) (14 * n) ?v"
    using j Suc.prems(2) dec
    by (subst scan_records.simps) (simp add: record_aid_at visit_aid kMiniTraceRecordSize_def add.commute)
  also have "\<dots> = Inr (methods_in b {j} \<union> ms \<union> methods_in b {Suc j..<n},
      fields_in b {j} \<union> fs \<union> fields_in b {Suc j..<n})"
    using Suc.hyps(1) [OF j(2)] j(1) Suc.prems by simp
  also have "\<dots> = Inr (ms \<union> methods_in b (insert j {Suc j..<n}), fs \<union> fields_in b (insert j {Suc j..<n}))"
    by (simp add: visits_insert [of b j "{Suc j..<n}"] Un_ac)
  also have "insert j {Suc j..<n} = {j..<n}" using j by auto
  finally show ?case .
qed

text \<open>The tracer after its buffer went to the file \<open>f\<close>.\<close>

definition flushed :: "FdFile \<Rightarrow> MiniTrace \<Rightarrow> MiniTrace" where
  "flushed f t = t\<lparr>trace_data_file := f,
     visited_methods := visited_methods t \<union> methods_in (trace_buf t) {..<cur_offset t div 14},
     visited_fields := visited_fields t \<union> fields_in (trace_buf t) {..<cur_offset t div 14},
     cur_offset := 0\<rparr>"

lemma scan_records_inv:
  assumes "trace_inv t"
  shows "scan_records (trace_buf t) 0 (cur_offset t) (visited_methods t, visited_fields t) =
      Inr (visited_methods t \<union> methods_in (trace_buf t) {..<cur_offset t div 14},
           visited_fields t \<union> fields_in (trace_buf t) {..<cur_offset t div 14})"
  using scan_records_from [of 0 "cur_offset t div 14" "trace_buf t" "visited_methods t" "visited_fields t"] assms
  by (auto simp: trace_inv_def atLeast0LessThan)

lemma FlushBuffer_inv:
  assumes "trace_inv t" "0 < cur_offset t"
  shows "FlushBuffer t = (case WriteFully (take (cur_offset t) (trace_buf t)) (trace_data_file t) of
     (ok, f) \<Rightarrow> Inr (ok, if ok then flushed f t else t\<lparr>trace_data_file := f\<rparr>))"
proof -
  have "cur_offset t \<le> length (trace_buf t)" using assms(1) by (auto simp: trace_inv_def)
  then show ?thesis
    using assms(2) scan_records_inv [OF assms(1)]
    by (auto simp: FlushBuffer_def Let_def flushed_def split: prod.splits bool.splits)
qed

text \<open>The outcomes of the reservation loop.\<close>

lemma reserve_inv:
  assumes "trace_inv t"
  shows "reserve t =
     (if int (cur_offset t + 14) \<le> buffer_size t
      then Inr (Some (cur_offset t), t\<lparr>cur_offset := cur_offset t + 14\<rparr>)
      else if 1024 < buffer_overflow_count t then Inr (None, t)
      else case WriteFully (take (cur_offset t) (trace_buf t)) (trace_data_file t) of
             (ok, f) \<Rightarrow>
               let t1 = t\<lparr>buffer_overflow_count := buffer_overflow_count t + 1\<rparr> in
               if ok then Inr (Some 0, (flushed f t1)\<lparr>cur_offset := 14\<rparr>)
               else Inr (None, t1\<lparr>trace_data_file := f\<rparr>))"
proof (cases "int (cur_offset t + 14) \<le> buffer_size t")
  case True
  then show ?thesis by (simp add: reserve.simps kMiniTraceRecordSize_def Let_def)
next
  case full: False
  then have pos: "0 < cur_offset t" and min: "14 \<le> buffer_size t"
    using assms by (auto simp: trace_inv_def intro: ccontr)
  show ?thesis
  proof (cases "1024 < buffer_overflow_count t")
    case True
    with full show ?thesis
      by (simp add: reserve.simps [of t] kMiniTraceRecordSize_def Let_def HandleOverflow_def)
  next
    case False
    let ?t1 = "t\<lparr>buffer_overflow_count := buffer_overflow_count t + 1\<rparr>"
    have inv1: "trace_inv ?t1" using assms by (simp add: trace_inv_def)
    obtain ok f where w: "WriteFully (take (cur_offset t) (trace_buf t)) (trace_data_file t) = (ok, f)"
      by fastforce
    have h: "HandleOverflow t = Inr (ok, if ok then flushed f ?t1 else ?t1\<lparr>trace_data_file := f\<rparr>)"
      using FlushBuffer_inv [OF inv1] pos False w
      by (simp add: HandleOverflow_def HandleOverflow_locked_def Let_def)
    have again: "reserve (flushed f ?t1) = Inr (Some 0, (flushed f ?t1)\<lparr>cur_offset := 14\<rparr>)"
      using min by (subst reserve.simps) (simp add: flushed_def kMiniTraceRecordSize_def Let_def)
    have off: "cur_offset (flushed f u) = 0" for u by (simp add: flushed_def)
    show ?thesis
      using full False pos h w
      by (simp add: reserve.simps [of t] kMiniTraceRecordSize_def Let_def again [simplified] off)
  qed
qed

text \<open>The state in which Start leaves a tracer.\<close>

lemma new_trace_inv:
  assumes "new_MiniTrace info data events sz now = Inr t" and "14 \<le> sz"
  shows "trace_inv t" "buffer_size t = sz" "cur_offset t = 0" "buffer_overflow_count t = 0"
    "trace_data_file t = data" "stream t = file_bytes data"
  using assms by (auto simp: new_MiniTrace_def trace_inv_def records_ok_def stream_def split: if_splits)

definition sample_trace :: MiniTrace where
  "sample_trace = \<lparr>trace_info_file = new_FdFile [], trace_data_file = new_FdFile [Inr 28],
     trace_buf = replicate 28 0, trace_events = 0x30, do_coverage = False, do_filter = False,
     buffer_size = 28, start_time = 0, cur_offset = 0, buffer_overflow_count = 0,
     visited_methods = {}, visited_fields = {}, exited_threads = []\<rparr>"

lemma sample_trace_new: "new_MiniTrace (new_FdFile []) (new_FdFile [Inr 28]) 0x30 28 0 = Inr sample_trace"
  by (simp add: new_MiniTrace_def sample_trace_def kDoCoverage_def kDoFilter_def)

lemma sample_trace_simps [simp]:
  "trace_inv sample_trace" "buffer_size sample_trace = 28" "cur_offset sample_trace = 0"
  "stream sample_trace = []" "buffer_overflow_count sample_trace = 0"
  using new_trace_inv [OF sample_trace_new] by (simp_all add: new_FdFile_def)

section \<open>Logging one record\<close>

text \<open>The common shape of the three Log functions.\<close>

definition log_with :: "(u8 list \<Rightarrow> nat \<Rightarrow> u8 list res) \<Rightarrow> MiniTrace \<Rightarrow> MiniTrace res" where
  "log_with w t =
     rbind (reserve t) (\<lambda>(slot, t).
     case slot of
       None \<Rightarrow> Inr t
     | Some old_offset \<Rightarrow> rbind (w (trace_buf t) old_offset) (\<lambda>b. Inr (t\<lparr>trace_buf := b\<rparr>)))"

text \<open>\<open>bs\<close> arrived at the end of the stream, in a slot of 14 bytes.\<close>

definition recorded :: "u8 list \<Rightarrow> MiniTrace \<Rightarrow> MiniTrace \<Rightarrow> bool" where
  "recorded bs t t' \<longleftrightarrow>
     (\<exists>pad. length (bs @ pad) = 14 \<and> stream t' = stream t @ bs @ pad)"

text \<open>What a call of log\_with does to the tracer, by the four outcomes of the reservation.\<close>

definition log_outcome :: "u8 list \<Rightarrow> MiniTrace \<Rightarrow> MiniTrace \<Rightarrow> bool" where
  "log_outcome bs t t' \<longleftrightarrow>
     (if int (cur_offset t + 14) \<le> buffer_size t
      then recorded bs t t' \<and> trace_data_file t' = trace_data_file t \<and>
           buffer_overflow_count t' = buffer_overflow_count t \<and> cur_offset t' = cur_offset t + 14 \<and>
           visited_methods t' = visited_methods t \<and> visited_fields t' = visited_fields t
      else if 1024 < buffer_overflow_count t then t' = t
      else case WriteFully (take (cur_offset t) (trace_buf t)) (trace_data_file t) of
             (ok, f) \<Rightarrow> trace_data_file t' = f \<and>
               buffer_overflow_count t' = buffer_overflow_count t + 1 \<and>
               (if ok then recorded bs t t' \<and> cur_offset t' = 14 \<and>
                     visited_methods t' = visited_methods (flushed f t) \<and>
                     visited_fields t' = visited_fields (flushed f t)
                else t' = t\<lparr>buffer_overflow_count := buffer_overflow_count t + 1, trace_data_file := f\<rparr>))"

lemma aid_at_splice_other:
  assumes "p = 14 * m" "p + length bs \<le> length b" "length bs \<le> 14" "k < m"
  shows "aid_at (splice b p bs) k = aid_at b k"
  using assms by (simp add: aid_at_def nth_splice)

lemma aid_at_splice_same:
  assumes "p = 14 * m" "p + length bs \<le> length b" "6 \<le> length bs"
  shows "aid_at (splice b p bs) m = le32 (bs ! 2) (bs ! 3) (bs ! 4) (bs ! 5)"
  using assms by (simp add: aid_at_def nth_splice)

lemma records_ok_splice:
  assumes "records_ok b m" "14 * m + length bs \<le> length b" "6 \<le> length bs" "length bs \<le> 14"
    and "DecodeMiniTraceAction (le32 (bs ! 2) (bs ! 3) (bs ! 4) (bs ! 5)) \<noteq> kMiniTraceActionMask"
  shows "records_ok (splice b (14 * m) bs) (Suc m)"
  using assms by (auto simp: records_ok_def less_Suc_eq aid_at_splice_other aid_at_splice_same)

lemma take_splice_slot:
  assumes "p + 14 \<le> length b" "length bs \<le> 14"
  shows "take (p + 14) (splice b p bs) = take p b @ bs @ take (14 - length bs) (drop (p + length bs) b)"
  using assms by (simp add: splice_def)

lemma le_nat_iff14: "14 \<le> nat x \<longleftrightarrow> 14 \<le> x" for x :: int
  by linarith

context trace_writer
begin

lemma put_slot:
  assumes "14 \<le> buffer_size t" "length (trace_buf t) = nat (buffer_size t)"
    and "cur_offset t = 14 * m" "int (14 * m + 14) \<le> buffer_size t" "records_ok (trace_buf t) m"
    and "DecodeMiniTraceAction (le32 (bytes e ! 2) (bytes e ! 3) (bytes e ! 4) (bytes e ! 5))
           \<noteq> kMiniTraceActionMask"
  shows "\<exists>b. put e (trace_buf t) (cur_offset t) = Inr b \<and>
     trace_inv (t\<lparr>cur_offset := cur_offset t + 14, trace_buf := b\<rparr>) \<and>
     recorded (bytes e) t (t\<lparr>cur_offset := cur_offset t + 14, trace_buf := b\<rparr>)"
proof -
  have room: "14 * m + 14 \<le> length (trace_buf t)" using assms(2,4) by linarith
  let ?b = "splice (trace_buf t) (14 * m) (bytes e)"
  have "put e (trace_buf t) (cur_offset t) = Inr ?b"
    using room assms(3) by (simp add: put_in_bounds)
  moreover have "records_ok ?b (Suc m)"
    using assms(5,6) room bytes_min [of e] bytes_max [of e] by (intro records_ok_splice) auto
  moreover have "length ?b = length (trace_buf t)" using room bytes_max [of e] by simp
  moreover have "14 dvd 14 * m + 14" "(14 * m + 14) div 14 = Suc m" by simp_all
  moreover have "recorded (bytes e) t (t\<lparr>cur_offset := cur_offset t + 14, trace_buf := ?b\<rparr>)"
    unfolding recorded_def stream_def using room assms(3) bytes_max [of e]
    by (intro exI [of _ "take (14 - length (bytes e)) (drop (14 * m + length (bytes e)) (trace_buf t))"])
      (simp add: take_splice_slot [of "14 * m"])
  ultimately show ?thesis using assms(1-4) by (simp add: trace_inv_def)
qed

lemma log_with_spec:
  assumes "trace_inv t"
    and act: "DecodeMiniTraceAction (le32 (bytes e ! 2) (bytes e ! 3) (bytes e ! 4) (bytes e ! 5))
           \<noteq> kMiniTraceActionMask"
  shows "\<exists>t'. log_with (put e) t = Inr t' \<and> trace_inv t' \<and> log_outcome (bytes e) t t' \<and>
     buffer_size t' = buffer_size t"
proof (cases "int (cur_offset t + 14) \<le> buffer_size t")
  case True
  have "cur_offset t = 14 * (cur_offset t div 14)" using assms(1) by (simp add: trace_inv_def)
  then obtain b where "put e (trace_buf t) (cur_offset t) = Inr b"
     "trace_inv (t\<lparr>cur_offset := cur_offset t + 14, trace_buf := b\<rparr>)"
     "recorded (bytes e) t (t\<lparr>cur_offset := cur_offset t + 14, trace_buf := b\<rparr>)"
    using put_slot [of t "cur_offset t div 14" e] True assms by (auto simp: trace_inv_def)
  with True show ?thesis
    by (simp add: log_with_def reserve_inv [OF assms(1)] log_outcome_def)
next
  case full: False
  show ?thesis
  proof (cases "1024 < buffer_overflow_count t")
    case True
    with full assms(1) show ?thesis
      by (simp add: log_with_def reserve_inv [OF assms(1)] log_outcome_def)
  next
    case False
    obtain ok f where w: "WriteFully (take (cur_offset t) (trace_buf t)) (trace_data_file t) = (ok, f)"
      by fastforce
    let ?t1 = "t\<lparr>buffer_overflow_count := buffer_overflow_count t + 1\<rparr>"
    show ?thesis
    proof (cases ok)
      case True
      let ?t2 = "flushed f ?t1"
      obtain b where b: "put e (trace_buf ?t2) (cur_offset ?t2) = Inr b"
          "trace_inv (?t2\<lparr>cur_offset := cur_offset ?t2 + 14, trace_buf := b\<rparr>)"
          "recorded (bytes e) ?t2 (?t2\<lparr>cur_offset := cur_offset ?t2 + 14, trace_buf := b\<rparr>)"
        using put_slot [of ?t2 0 e] assms by (auto simp: trace_inv_def flushed_def records_ok_def)
      have "stream ?t2 = stream t"
        using WriteFully_ok [of "take (cur_offset t) (trace_buf t)" "trace_data_file t" f] w True
        by (simp add: stream_def flushed_def)
      with b(3) have "recorded (bytes e) t (?t2\<lparr>cur_offset := cur_offset ?t2 + 14, trace_buf := b\<rparr>)"
        by (simp add: recorded_def)
      with b full False w True show ?thesis
        by (simp add: log_with_def reserve_inv [OF assms(1)] log_outcome_def Let_def flushed_def)
    next
      case no: False
      with full False w assms(1) show ?thesis
        by (simp add: log_with_def reserve_inv [OF assms(1)] log_outcome_def Let_def trace_inv_def)
    qed
  qed
qed

end

section \<open>The three Log functions\<close>

lemma low_bits_action: "x AND 7 = y AND 7 \<Longrightarrow> DecodeMiniTraceAction x = DecodeMiniTraceAction y"
  by (simp add: DecodeMiniTraceAction_def)

lemma and7_bits: "(\<And>k. k < 3 \<Longrightarrow> bit x k = bit y k) \<Longrightarrow> x AND 7 = y AND 7" for x y :: u32
  unfolding mask7 by (auto simp: bit_eq_iff bit_and_iff bit_mask_iff)

lemma method_aid_action:
  assumes "aligned8 m"
  shows "DecodeMiniTraceAction (le32 (method_record_bytes (tid, m, a, rv) ! 2) (method_record_bytes (tid, m, a, rv) ! 3)
     (method_record_bytes (tid, m, a, rv) ! 4) (method_record_bytes (tid, m, a, rv) ! 5)) = a"
proof -
  have "(take_bit 16 v OR push_bit 16 (ucast rv)) AND 7 = v AND 7" for v :: u32
    by (intro and7_bits) (auto simp: bit_or_iff bit_take_bit_iff bit_push_bit_iff)
  then have "DecodeMiniTraceAction (take_bit 16 (m OR action_code a) OR push_bit 16 (ucast rv)) = a"
    using low_bits_action decode_action_or [OF assms] by metis
  then show ?thesis
    by (simp add: method_record_bytes_def le_bytes_2 le_bytes_8 le32_clobbered EncodeMiniTraceMethodAndAction_def)
qed

lemma field_aid:
  "le32 (field_record_bytes (tid, f, a, obj, pc) ! 2) (field_record_bytes (tid, f, a, obj, pc) ! 3)
     (field_record_bytes (tid, f, a, obj, pc) ! 4) (field_record_bytes (tid, f, a, obj, pc) ! 5) = f OR action_code a"
  by (simp add: field_record_bytes_def le_bytes_2 le_bytes_4 EncodeMiniTraceFieldAndAction_def)

lemma monitor_aid:
  "le32 (monitor_record_bytes (tid, f, a, pc) ! 2) (monitor_record_bytes (tid, f, a, pc) ! 3)
     (monitor_record_bytes (tid, f, a, pc) ! 4) (monitor_record_bytes (tid, f, a, pc) ! 5) = f OR action_code a"
  by (simp add: monitor_record_bytes_def le_bytes_2 le_bytes_4 EncodeMiniTraceObjectAndAction_def)

lemma length_record_bytes [simp]:
  "length (method_record_bytes (tid, m, a, rv)) = 12"
  "length (field_record_bytes (tid, f, a, obj, pc)) = 14"
  "length (monitor_record_bytes (tid, obj, a, pc)) = 10"
  by (simp_all add: method_record_bytes_def field_record_bytes_def monitor_record_bytes_def)

fun method_action :: "InstrumentationEvent \<Rightarrow> MiniTraceAction" where
  "method_action kMethodEntered = kMiniTraceMethodEnter"
| "method_action kMethodExited = kMiniTraceMethodExit"
| "method_action _ = kMiniTraceUnroll"

abbreviation field_action :: "bool \<Rightarrow> MiniTraceAction" where
  "field_action rd \<equiv> if rd then kMiniTraceFieldRead else kMiniTraceFieldWrite"

abbreviation monitor_action :: "bool \<Rightarrow> MiniTraceAction" where
  "monitor_action enter \<equiv> if enter then kMiniTraceMonitorEnter else kMiniTraceMonitorExit"

lemma LogFieldTraceEvent_with:
  assumes "art_fields h field = Some fl"
  shows "LogFieldTraceEvent h tid obj field dex_pc rd t =
     (if field_IsMiniTraceable fl
      then log_with (\<lambda>b p. write_field_record b p tid field (field_action rd) obj dex_pc) t else Inr t)"
  using assms by (simp add: LogFieldTraceEvent_def log_with_def Let_def)

lemma LogMethodTraceEvent_with:
  assumes "methods h method = Some m" and "event \<in> {kMethodEntered, kMethodExited, kMethodUnwind}"
  shows "LogMethodTraceEvent h tid method event rv t =
     (if method_IsMiniTraceable m
      then log_with (\<lambda>b p. write_method_record b p tid method (method_action event) rv) t else Inr t)"
proof -
  have "(case event of kMethodEntered \<Rightarrow> Inr kMiniTraceMethodEnter | kMethodExited \<Rightarrow> Inr kMiniTraceMethodExit
      | kMethodUnwind \<Rightarrow> Inr kMiniTraceUnroll | _ \<Rightarrow> Inl FatalLog) = Inr (method_action event)"
    using assms(2) by auto
  with assms(1) show ?thesis by (simp add: LogMethodTraceEvent_def log_with_def)
qed

lemma field_outcome:
  assumes "trace_inv t" and "art_fields h field = Some fl" and "aligned8 field"
  shows "\<exists>t'. LogFieldTraceEvent h tid obj field dex_pc rd t = Inr t' \<and> trace_inv t' \<and>
     (if field_IsMiniTraceable fl
      then log_outcome (field_record_bytes (tid, field, field_action rd, obj, dex_pc)) t t'
      else t' = t) \<and> buffer_size t' = buffer_size t"
  using field_writer.log_with_spec [of t "(tid, field, field_action rd, obj, dex_pc)"] assms
  unfolding LogFieldTraceEvent_with [OF assms(2)] field_aid
  by (simp add: decode_action_or)

text \<open>C14: an event of a traceable field is logged without a trap, keeps the buffer's
  invariant and appends exactly its record to the stream, unless the buffer is full and the
  overflow limit is reached or the data file cannot be written; then it is dropped.\<close>

theorem LogFieldTraceEvent_outcome:
  assumes "trace_inv t" and "art_fields h field = Some fl" and "aligned8 field"
  shows "\<exists>t'. LogFieldTraceEvent h tid obj field dex_pc rd t = Inr t' \<and> trace_inv t' \<and>
     (if field_IsMiniTraceable fl
      then log_outcome (field_record_bytes (tid, field, field_action rd, obj, dex_pc)) t t'
      else t' = t)"
  using field_outcome [OF assms] by blast

theorem LogFieldTraceEvent_outcome_witness:
  "trace_inv sample_trace \<and>
   (\<exists>t'. LogFieldTraceEvent sample_heap 77 0x12345678 0x70002000 9 True sample_trace = Inr t' \<and>
      recorded (field_record_bytes (77, 0x70002000, kMiniTraceFieldRead, 0x12345678, 9)) sample_trace t')"
  using LogFieldTraceEvent_outcome [of sample_trace sample_heap "0x70002000" sample_field 77 "0x12345678" 9 True]
  by (auto simp: aligned8_def log_outcome_def)

text \<open>The same for the three method events of a traceable method; two of the 14 bytes of
  its slot keep what the buffer held before.\<close>

lemma LogMethodTraceEvent_outcome:
  assumes "trace_inv t" and "methods h method = Some m" and "aligned8 method"
    and "event \<in> {kMethodEntered, kMethodExited, kMethodUnwind}"
  shows "\<exists>t'. LogMethodTraceEvent h tid method event rv t = Inr t' \<and> trace_inv t' \<and>
     (if method_IsMiniTraceable m
      then log_outcome (method_record_bytes (tid, method, method_action event, rv)) t t'
      else t' = t)"
proof -
  have "method_action event \<noteq> kMiniTraceActionMask" by (cases event) simp_all
  then show ?thesis
    using method_writer.log_with_spec [of t "(tid, method, method_action event, rv)"] assms(1)
    unfolding LogMethodTraceEvent_with [OF assms(2,4)] method_aid_action [OF assms(3)] by auto
qed

text \<open>The same for monitor events, on which no traceability is asked.\<close>

lemma LogMonitorTraceEvent_outcome:
  assumes "trace_inv t" and "aligned8 lock_object"
  shows "\<exists>t'. LogMonitorTraceEvent tid lock_object dex_pc enter t = Inr t' \<and> trace_inv t' \<and>
     log_outcome (monitor_record_bytes (tid, lock_object, monitor_action enter, dex_pc)) t t'"
proof -
  have "LogMonitorTraceEvent tid lock_object dex_pc enter t =
      log_with (\<lambda>b p. write_monitor_record b p tid lock_object (monitor_action enter) dex_pc) t"
    by (simp add: LogMonitorTraceEvent_def log_with_def Let_def)
  then show ?thesis
    using monitor_writer.log_with_spec [of t "(tid, lock_object, monitor_action enter, dex_pc)"] assms
    unfolding monitor_aid decode_action_or [OF assms(2)] by (cases enter) auto
qed

section \<open>A complete trace\<close>

text \<open>The records of a sequence of field events, logged one after the other.\<close>

type_synonym field_event = "u32 \<times> ptr \<times> ptr \<times> u32 \<times> bool"

definition log_field_events :: "art_heap \<Rightarrow> field_event list \<Rightarrow> MiniTrace \<Rightarrow> MiniTrace res" where
  "log_field_events h = rfold (\<lambda>(tid, obj, field, dex_pc, rd). LogFieldTraceEvent h tid obj field dex_pc rd)"

definition event_bytes :: "field_event \<Rightarrow> u8 list" where
  "event_bytes ev = (case ev of (tid, obj, field, dex_pc, rd) \<Rightarrow>
     field_record_bytes (tid, field, field_action rd, obj, dex_pc))"

definition traceable_event :: "art_heap \<Rightarrow> field_event \<Rightarrow> bool" where
  "traceable_event h ev = (case ev of (tid, obj, field, dex_pc, rd) \<Rightarrow>
     aligned8 field \<and> (case art_fields h field of None \<Rightarrow> False | Some fl \<Rightarrow> field_IsMiniTraceable fl))"

text \<open>Slots of the buffer, and the number of flushes among the first \<open>n\<close> events.\<close>

abbreviation capacity :: "int \<Rightarrow> nat" where
  "capacity sz \<equiv> nat sz div 14"

abbreviation flushes :: "int \<Rightarrow> nat \<Rightarrow> nat" where
  "flushes sz n \<equiv> (n - 1) div capacity sz"

definition logged_state :: "u8 list \<Rightarrow> sysret list \<Rightarrow> nat \<Rightarrow> int \<Rightarrow> nat \<Rightarrow> MiniTrace \<Rightarrow> bool" where
  "logged_state bytes ks m sz n t \<longleftrightarrow> trace_inv t \<and> buffer_size t = sz \<and> stream t = bytes \<and>
     buffer_overflow_count t = flushes sz n \<and> cur_offset t = 14 * (n - capacity sz * flushes sz n) \<and>
     kernel (trace_data_file t) = replicate (m - flushes sz n) (Inr (14 * capacity sz)) @ ks"

lemma WriteFully_one:
  assumes "kernel f = Inr n # rs" "buf \<noteq> []" "length buf \<le> n"
  shows "\<exists>f'. WriteFully buf f = (True, f') \<and> kernel f' = rs"
  using assms
  by (simp add: WriteFully_def write_loop.simps [of buf] write_loop.simps [of "[]"] TEMP_FAILURE_RETRY_def
      syscall_def moveTo_def)

lemma recorded_field:
  "recorded (event_bytes ev) t t' \<Longrightarrow> stream t' = stream t @ event_bytes ev"
  by (auto simp: recorded_def event_bytes_def split: prod.splits)

lemma flushes_step:
  fixes n c :: nat
  assumes "0 < c" "n - c * ((n - 1) div c) < c"
  shows "n div c = (n - 1) div c"
proof (cases n)
  case (Suc k)
  have "Suc k - c * (k div c) = Suc (k mod c)"
    using minus_mult_div_eq_mod [of k c] by (simp add: Suc_diff_le)
  with Suc assms have "Suc (k mod c) < c" by simp
  then show ?thesis using Suc by (simp add: div_Suc mod_Suc)
qed simp

lemma flushes_full:
  fixes n c :: nat
  assumes "0 < c" "\<not> n - c * ((n - 1) div c) < c"
  shows "n div c = Suc ((n - 1) div c)" "n = c * (n div c)" "n - c * ((n - 1) div c) = c"
proof -
  obtain k where k: "n = Suc k" using assms by (cases n) auto
  have e: "Suc k - c * (k div c) = Suc (k mod c)"
    using minus_mult_div_eq_mod [of k c] by (simp add: Suc_diff_le)
  with k assms(2) have "\<not> Suc (k mod c) < c" by simp
  with mod_less_divisor [OF assms(1), of k] have full: "Suc (k mod c) = c" by linarith
  then show "n div c = Suc ((n - 1) div c)" using k by (simp add: div_Suc mod_Suc)
  show "n - c * ((n - 1) div c) = c" using e full k by simp
  have "n mod c = 0" using full k by (simp add: mod_Suc)
  then show "n = c * (n div c)" by auto
qed

lemma room_iff:
  assumes "14 \<le> sz" "k \<le> capacity sz"
  shows "int (14 * k + 14) \<le> sz \<longleftrightarrow> k < capacity sz"
  using assms by linarith

lemma log_step:
  assumes "logged_state bytes ks m sz n t" "traceable_event h ev" "14 \<le> sz"
    and "flushes sz (Suc n) \<le> m" "flushes sz (Suc n) \<le> 1025"
  shows "\<exists>t'. log_field_events h [ev] t = Inr t' \<and>
     logged_state (bytes @ event_bytes ev) ks m sz (Suc n) t'"
proof -
  obtain tid obj field pc rd where ev: "ev = (tid, obj, field, pc, rd)" by (cases ev)
  let ?c = "capacity sz"
  have c: "0 < ?c" using assms(3) by (simp add: div_greater_zero_iff le_nat_iff)
  have s: "trace_inv t" "buffer_size t = sz" "stream t = bytes" "buffer_overflow_count t = flushes sz n"
      "cur_offset t = 14 * (n - ?c * flushes sz n)"
      "kernel (trace_data_file t) = replicate (m - flushes sz n) (Inr (14 * ?c)) @ ks"
    using assms(1) by (auto simp: logged_state_def)
  obtain t' where t': "log_field_events h [ev] t = Inr t'" "trace_inv t'" "log_outcome (event_bytes ev) t t'"
      "buffer_size t' = sz"
    using field_outcome [OF s(1), of h field _ tid obj pc rd] assms(2) s(2)
    by (auto simp: ev traceable_event_def event_bytes_def log_field_events_def split: option.splits)
  show ?thesis
  proof (cases "n - ?c * flushes sz n < ?c")
    case True
    then have room: "int (cur_offset t + 14) \<le> buffer_size t"
      using room_iff [OF assms(3)] s(2,5) by simp
    have fl: "flushes sz (Suc n) = flushes sz n" using flushes_step [OF c True] by simp
    have le: "?c * flushes sz n \<le> n" by (meson diff_le_self le_trans times_div_less_eq_dividend)
    from t'(3) room have o: "recorded (event_bytes ev) t t'" "trace_data_file t' = trace_data_file t"
        "buffer_overflow_count t' = buffer_overflow_count t" "cur_offset t' = cur_offset t + 14"
      by (simp_all add: log_outcome_def)
    have "cur_offset t' = 14 * (Suc n - ?c * flushes sz n)"
      unfolding o(4) s(5) using le by (simp add: Suc_diff_le)
    with t' s o recorded_field [OF o(1)]
    have "logged_state (bytes @ event_bytes ev) ks m sz (Suc n) t'"
      unfolding logged_state_def fl by (simp only: simp_thms)
    with t'(1) show ?thesis by blast
  next
    case False
    note f = flushes_full [OF c False]
    have cur: "cur_offset t = 14 * ?c" using f(3) s(5) by simp
    have full: "\<not> int (cur_offset t + 14) \<le> buffer_size t"
      using room_iff [OF assms(3), of ?c] cur s(2) by simp
    have fl: "flushes sz (Suc n) = Suc (flushes sz n)" using f(1) by simp
    with assms(4) have "m - flushes sz n = Suc (m - Suc (flushes sz n))"
      by (simp only: Suc_diff_Suc Suc_le_lessD)
    then have k: "kernel (trace_data_file t) =
        Inr (14 * ?c) # replicate (m - Suc (flushes sz n)) (Inr (14 * ?c)) @ ks"
      unfolding s(6) by simp
    have len: "length (take (cur_offset t) (trace_buf t)) = 14 * ?c"
      using s(1) cur by (auto simp: trace_inv_def)
    obtain f' where f': "WriteFully (take (cur_offset t) (trace_buf t)) (trace_data_file t) = (True, f')"
        "kernel f' = replicate (m - Suc (flushes sz n)) (Inr (14 * ?c)) @ ks"
      using WriteFully_one [OF k, of "take (cur_offset t) (trace_buf t)"]
        len c by (metis length_0_conv mult_is_0 neq0_conv order_refl zero_neq_numeral)
    have "\<not> 1024 < buffer_overflow_count t" using assms(5) fl s(4) by simp
    with t'(3) full f' have o: "recorded (event_bytes ev) t t'" "trace_data_file t' = f'"
        "buffer_overflow_count t' = Suc (buffer_overflow_count t)" "cur_offset t' = 14"
      by (simp_all add: log_outcome_def)
    have "Suc n - ?c * Suc (flushes sz n) = 1"
      using f(1,2) by (metis Suc_diff_le diff_self_eq_0 le_refl One_nat_def)
    with o(4) have "cur_offset t' = 14 * (Suc n - ?c * Suc (flushes sz n))" by simp
    with t' s o f' recorded_field [OF o(1)]
    have "logged_state (bytes @ event_bytes ev) ks m sz (Suc n) t'"
      unfolding logged_state_def fl by (simp only: simp_thms)
    with t'(1) show ?thesis by blast
  qed
qed

lemma log_run:
  assumes "logged_state bytes ks m sz 0 t" "\<forall>ev \<in> set evs. traceable_event h ev" "14 \<le> sz"
    and "flushes sz (length evs) \<le> m" "flushes sz (length evs) \<le> 1025"
  shows "\<exists>t'. log_field_events h evs t = Inr t' \<and>
     logged_state (bytes @ concat (map event_bytes evs)) ks m sz (length evs) t'"
  using assms
proof (induction evs rule: rev_induct)
  case Nil
  then show ?case by (simp add: log_field_events_def)
next
  case (snoc ev evs)
  have "flushes sz (length evs) \<le> flushes sz (length (evs @ [ev]))" by (simp add: div_le_mono)
  with snoc obtain t1 where t1: "log_field_events h evs t = Inr t1"
      "logged_state (bytes @ concat (map event_bytes evs)) ks m sz (length evs) t1"
    by auto
  with log_step [OF t1(2), of h ev] snoc.prems show ?case
    by (auto simp: log_field_events_def rfold_append)
qed



section \<open>Flushing and the lists of visited methods and fields\<close>

lemma FlushBuffer_True:
  assumes "trace_inv t" "FlushBuffer t = Inr (True, t')"
  shows "stream t' = stream t" "cur_offset t' = 0" "trace_inv t'" "trace_buf t' = trace_buf t"
    "visited_methods t' = visited_methods t \<union> methods_in (trace_buf t) {..<cur_offset t div 14}"
    "visited_fields t' = visited_fields t \<union> fields_in (trace_buf t) {..<cur_offset t div 14}"
    "exited_threads t' = exited_threads t" "trace_info_file t' = trace_info_file t"
proof -
  have "t' = (if cur_offset t = 0 then t
      else flushed (snd (WriteFully (take (cur_offset t) (trace_buf t)) (trace_data_file t))) t) \<and>
    (0 < cur_offset t \<longrightarrow> fst (WriteFully (take (cur_offset t) (trace_buf t)) (trace_data_file t)))"
    using assms FlushBuffer_inv [OF assms(1)]
    by (cases "cur_offset t = 0") (auto simp: FlushBuffer_def split: prod.splits if_splits)
  moreover have "stream (flushed f t) = stream t"
    if "WriteFully (take (cur_offset t) (trace_buf t)) (trace_data_file t) = (True, f)" for f
    using WriteFully_ok [OF that] by (simp add: flushed_def stream_def)
  ultimately show "stream t' = stream t" "cur_offset t' = 0" "trace_inv t'" "trace_buf t' = trace_buf t"
    "visited_methods t' = visited_methods t \<union> methods_in (trace_buf t) {..<cur_offset t div 14}"
    "visited_fields t' = visited_fields t \<union> fields_in (trace_buf t) {..<cur_offset t div 14}"
    "exited_threads t' = exited_threads t" "trace_info_file t' = trace_info_file t"
    using assms(1) by (auto simp: flushed_def trace_inv_def records_ok_def prod_eq_iff)
qed

lemma recorded_aid:
  assumes "recorded bs t t'" "6 \<le> length bs" "trace_data_file t' = trace_data_file t"
    and "cur_offset t' = cur_offset t + 14" "trace_inv t" "trace_inv t'"
  shows "aid_at (trace_buf t') (cur_offset t div 14) = le32 (bs ! 2) (bs ! 3) (bs ! 4) (bs ! 5)"
proof -
  let ?c = "cur_offset t"
  from assms(1,3,4) obtain pad where
    *: "take (?c + 14) (trace_buf t') = take ?c (trace_buf t) @ bs @ pad"
    by (auto simp: recorded_def stream_def)
  have len: "?c \<le> length (trace_buf t)" "?c + 14 \<le> length (trace_buf t')"
    using assms(4-6) by (auto simp: trace_inv_def)
  have "trace_buf t' ! (?c + i) = bs ! i" if "i < 6" for i
  proof -
    have "trace_buf t' ! (?c + i) = take (?c + 14) (trace_buf t') ! (?c + i)" using that by simp
    also have "\<dots> = bs ! i" unfolding * using that len assms(2) by (simp add: nth_append)
    finally show ?thesis .
  qed
  from this [of 2] this [of 3] this [of 4] this [of 5] show ?thesis
    using assms(5) by (simp add: aid_at_def trace_inv_def)
qed

text \<open>What logging into a buffer with room and then flushing does to the visited sets.\<close>

lemma visited_after_flush:
  assumes "trace_inv t" "int (cur_offset t + 14) \<le> buffer_size t" "log_outcome bs t t'" "6 \<le> length bs"
    and "trace_inv t'" "FlushBuffer t' = Inr (True, t'')"
    and "aid = le32 (bs ! 2) (bs ! 3) (bs ! 4) (bs ! 5)"
  shows "DecodeMiniTraceAction aid \<in> {kMiniTraceFieldRead, kMiniTraceFieldWrite} \<Longrightarrow>
           DecodeMiniTraceFieldId aid \<in> visited_fields t''"
    and "DecodeMiniTraceAction aid \<in> {kMiniTraceMethodEnter, kMiniTraceMethodExit, kMiniTraceUnroll} \<Longrightarrow>
           DecodeMiniTraceMethodId aid \<in> visited_methods t''"
proof -
  from assms(2,3) have o: "recorded bs t t'" "trace_data_file t' = trace_data_file t"
      "cur_offset t' = cur_offset t + 14"
    by (simp_all add: log_outcome_def)
  have aid: "aid_at (trace_buf t') (cur_offset t div 14) = aid"
    using recorded_aid [OF o(1) assms(4) o(2,3) assms(1,5)] assms(7) by simp
  have "cur_offset t div 14 < cur_offset t' div 14" unfolding o(3) by simp
  with aid show "DecodeMiniTraceAction aid \<in> {kMiniTraceFieldRead, kMiniTraceFieldWrite} \<Longrightarrow>
           DecodeMiniTraceFieldId aid \<in> visited_fields t''"
    and "DecodeMiniTraceAction aid \<in> {kMiniTraceMethodEnter, kMiniTraceMethodExit, kMiniTraceUnroll} \<Longrightarrow>
           DecodeMiniTraceMethodId aid \<in> visited_methods t''"
    unfolding FlushBuffer_True(5,6) [OF assms(5,6)] methods_in_def fields_in_def by auto
qed

lemma flush_sample:
  assumes "trace_inv t'" "log_outcome bs sample_trace t'"
  shows "\<exists>t''. FlushBuffer t' = Inr (True, t'')"
proof -
  have o: "trace_data_file t' = trace_data_file sample_trace" "cur_offset t' = 14"
    using assms(2) by (simp_all add: log_outcome_def)
  have "kernel (trace_data_file t') = Inr 28 # []" by (simp add: o(1) sample_trace_def new_FdFile_def)
  moreover have "14 \<le> length (trace_buf t')" using assms(1) o(2) by (auto simp: trace_inv_def)
  ultimately obtain f where "WriteFully (take 14 (trace_buf t')) (trace_data_file t') = (True, f)"
    using WriteFully_one [of "trace_data_file t'" 28 "[]" "take 14 (trace_buf t')"]
    by (cases "trace_buf t'") auto
  then show ?thesis using FlushBuffer_inv [OF assms(1)] o(2) by simp
qed

text \<open>C15: a field whose access was logged is among the visited fields once the buffer is
  flushed, so the field list of the trace names it.\<close>

theorem logged_field_is_listed:
  assumes "trace_inv t" "int (cur_offset t + 14) \<le> buffer_size t"
    and "art_fields h field = Some fl" "field_IsMiniTraceable fl" "aligned8 field"
    and "LogFieldTraceEvent h tid obj field dex_pc rd t = Inr t'" "FlushBuffer t' = Inr (True, t'')"
  shows "field \<in> visited_fields t'' \<and> stream t'' = stream t @ field_record_bytes (tid, field, field_action rd, obj, dex_pc)"
proof -
  let ?bs = "field_record_bytes (tid, field, field_action rd, obj, dex_pc)"
  obtain u where "LogFieldTraceEvent h tid obj field dex_pc rd t = Inr u" "trace_inv u" "log_outcome ?bs t u"
    using field_outcome [OF assms(1,3,5), of tid obj dex_pc rd] unfolding if_P [OF assms(4)] by blast
  with assms(6) have o: "trace_inv t'" "log_outcome ?bs t t'" by simp_all
  have "DecodeMiniTraceFieldId (field OR action_code (field_action rd)) \<in> visited_fields t''"
    using visited_after_flush(1) [OF assms(1,2) o(2) _ o(1) assms(7) field_aid [symmetric]]
    unfolding decode_action_or [OF assms(5)] by (cases rd) simp_all
  moreover have "DecodeMiniTraceFieldId (field OR action_code a) = field" for a
    using aligned_not7 [OF assms(5)] by (simp add: DecodeMiniTraceFieldId_def or_action_high)
  moreover have "recorded ?bs t t'" using o(2) assms(2) by (simp add: log_outcome_def)
  ultimately show ?thesis
    using FlushBuffer_True(1) [OF o(1) assms(7)] by (auto simp: recorded_def)
qed

lemma sample_field_flush:
  "\<exists>t' t''. LogFieldTraceEvent sample_heap 77 0x12345678 0x70002000 9 True sample_trace = Inr t' \<and>
     FlushBuffer t' = Inr (True, t'')"
proof -
  let ?bs = "field_record_bytes (77, 0x70002000, kMiniTraceFieldRead, 0x12345678, 9)"
  obtain t' where t': "LogFieldTraceEvent sample_heap 77 0x12345678 0x70002000 9 True sample_trace = Inr t'"
      "trace_inv t'" "log_outcome ?bs sample_trace t'"
    using field_outcome [of sample_trace sample_heap "0x70002000" sample_field 77 "0x12345678" 9 True]
    by (auto simp: aligned8_def)
  from flush_sample [OF t'(2,3)] t'(1) show ?thesis by blast
qed

theorem logged_field_is_listed_witness:
  "\<exists>t' t''. LogFieldTraceEvent sample_heap 77 0x12345678 0x70002000 9 True sample_trace = Inr t' \<and>
     FlushBuffer t' = Inr (True, t'') \<and> 0x70002000 \<in> visited_fields t''"
  using sample_field_flush
    logged_field_is_listed [of sample_trace sample_heap "0x70002000" sample_field 77 "0x12345678" 9 True]
  by (fastforce simp: aligned8_def)

lemma method_misfiled:
  assumes "trace_inv t" "int (cur_offset t + 14) \<le> buffer_size t"
    and "methods h mid = Some m" "method_IsMiniTraceable m" "aligned8 mid"
    and "MethodEntered h tid this_object mid dex_pc t = Inr t'" "FlushBuffer t' = Inr (True, t'')"
  shows "take_bit 16 mid \<in> visited_methods t''"
proof -
  let ?e = "(tid, mid, kMiniTraceMethodEnter, 0 :: u64)"
  let ?bs = "method_record_bytes ?e"
  have "LogMethodTraceEvent h tid mid kMethodEntered 0 t =
      log_with (\<lambda>b p. write_method_record b p tid mid kMiniTraceMethodEnter 0) t"
    using LogMethodTraceEvent_with [OF assms(3)] assms(4) by simp
  with method_writer.log_with_spec [OF assms(1), of ?e] assms(6)
  have o: "trace_inv t'" "log_outcome ?bs t t'"
    unfolding method_aid_action [OF assms(5)] MethodEntered_def by auto
  have aid: "le32 (?bs ! 2) (?bs ! 3) (?bs ! 4) (?bs ! 5) = take_bit 16 mid"
    using le32_clobbered [of mid 0]
    by (simp add: method_record_bytes_def le_bytes_2 le_bytes_8 EncodeMiniTraceMethodAndAction_def)
  have "DecodeMiniTraceMethodId (take_bit 16 mid) = take_bit 16 mid"
  proof -
    have "take_bit 16 mid AND 7 = take_bit 16 (mid AND 7)" by (simp add: take_bit_and)
    then have "aligned8 (take_bit 16 mid)" using assms(5) by (simp only: aligned8_def take_bit_of_0)
    then show ?thesis using aligned_not7 by (simp add: DecodeMiniTraceMethodId_def)
  qed
  moreover have "DecodeMiniTraceAction (take_bit 16 mid) = kMiniTraceMethodEnter"
    using method_aid_action [OF assms(5), of tid kMiniTraceMethodEnter 0] unfolding aid .
  ultimately show ?thesis
    using visited_after_flush(2) [OF assms(1,2) o(2) _ o(1) assms(7) aid [symmetric]] by simp
qed

text \<open>A method whose entry was logged is filed under its low 16 address bits: that
  address, not the method's own, is among the visited methods after the flush.\<close>

lemma logged_method_is_misfiled:
  assumes "trace_inv t" "int (cur_offset t + 14) \<le> buffer_size t"
    and "methods h mid = Some m" "method_IsMiniTraceable m" "aligned8 mid"
    and "MethodEntered h tid this_object mid dex_pc t = Inr t'" "FlushBuffer t' = Inr (True, t'')"
  shows "take_bit 16 mid \<in> visited_methods t''"
  by (rule method_misfiled [OF assms])

lemma sample_method_flush:
  "\<exists>t' t''. MethodEntered sample_heap 77 0 0x70001230 0 sample_trace = Inr t' \<and>
     FlushBuffer t' = Inr (True, t'')"
proof -
  let ?e = "(77, 0x70001230, kMiniTraceMethodEnter, 0)"
  have "MethodEntered sample_heap 77 0 0x70001230 0 sample_trace =
      log_with (\<lambda>b p. write_method_record b p 77 0x70001230 kMiniTraceMethodEnter 0) sample_trace"
    using LogMethodTraceEvent_with [of sample_heap "0x70001230" sample_method kMethodEntered 77 0 sample_trace]
    by (simp add: MethodEntered_def)
  moreover have "aligned8 0x70001230" by (simp add: aligned8_def)
  ultimately obtain t' where t': "MethodEntered sample_heap 77 0 0x70001230 0 sample_trace = Inr t'"
      "trace_inv t'" "log_outcome (method_record_bytes ?e) sample_trace t'"
    using method_writer.log_with_spec [of sample_trace ?e] method_aid_action [of "0x70001230" 77 kMiniTraceMethodEnter 0]
    by auto
  from flush_sample [OF t'(2,3)] t'(1) show ?thesis by blast
qed

section \<open>What goes wrong\<close>

lemma WriteFully_part:
  assumes "WriteFully buf f = (ok, f')"
  shows "\<exists>k \<le> length buf. file_bytes f' = file_bytes f @ take k buf"
  using write_loop_spec [of buf "moveTo kBase f" ok f'] assms by (auto simp: WriteFully_def)

text \<open>After a failed write the buffer keeps its records, and the next flush that
  succeeds writes all of them again behind the part that had reached the file, so that part is
  in the file twice.\<close>

lemma flush_after_failure_repeats:
  assumes "trace_inv t" and "FlushBuffer t = Inr (False, t1)" and "FlushBuffer t1 = Inr (True, t2)"
  shows "\<exists>k \<le> cur_offset t. file_bytes (trace_data_file t2) =
     file_bytes (trace_data_file t) @ take k (trace_buf t) @ take (cur_offset t) (trace_buf t)"
proof -
  let ?b = "take (cur_offset t) (trace_buf t)"
  have pos: "0 < cur_offset t" using assms(2) by (auto simp: FlushBuffer_def intro: ccontr)
  obtain f where f: "WriteFully ?b (trace_data_file t) = (False, f)" "t1 = t\<lparr>trace_data_file := f\<rparr>"
    using FlushBuffer_inv [OF assms(1) pos] assms(2) by (auto split: prod.splits if_splits)
  have inv1: "trace_inv t1" using assms(1) f(2) by (simp add: trace_inv_def)
  obtain g where "WriteFully ?b f = (True, g)" "t2 = flushed g t1"
    using FlushBuffer_inv [OF inv1] pos assms(3) f(2) by (auto split: prod.splits if_splits)
  with WriteFully_ok have "file_bytes (trace_data_file t2) = file_bytes f @ ?b" by (simp add: flushed_def)
  moreover obtain k where "k \<le> length ?b" "file_bytes f = file_bytes (trace_data_file t) @ take k ?b"
    using WriteFully_part [OF f(1)] by blast
  ultimately show ?thesis by (intro exI [of _ k]) (simp add: min_def split: if_splits)
qed

text \<open>With a buffer smaller than a record the first event of a traceable field is
  written outside the buffer: the handled overflow leaves the offset at zero, and the stale
  compare-exchange succeeds.\<close>

lemma small_buffer_is_overrun:
  assumes "new_MiniTrace info data events sz now = Inr t" and "sz < 14"
    and "art_fields h field = Some fl" and "field_IsMiniTraceable fl"
  shows "LogFieldTraceEvent h tid obj field dex_pc rd t = Inl OutOfBounds"
proof -
  have t: "cur_offset t = 0" "buffer_overflow_count t = 0" "buffer_size t = sz" "length (trace_buf t) = nat sz"
    using assms(1) by (auto simp: new_MiniTrace_def split: if_splits)
  have "reserve t = Inr (Some 0, t\<lparr>buffer_overflow_count := 1, cur_offset := 14\<rparr>)"
    using t assms(2)
    by (simp add: reserve.simps [of t] HandleOverflow_def HandleOverflow_locked_def FlushBuffer_def
        kMiniTraceRecordSize_def)
  moreover have "write_field_record (trace_buf t) 0 tid field a obj dex_pc = Inl OutOfBounds" for a
    using field_writer.put_eq [of "(tid, field, a, obj, dex_pc)" "trace_buf t" 0] t assms(2) by simp
  ultimately show ?thesis
    using assms(3,4) by (simp add: LogFieldTraceEvent_with log_with_def)
qed

end
