(* ===== verification/MiniTrace_Concurrent.thy ===== *)
theory MiniTrace_Concurrent
  imports MiniTrace_Buffer
begin

text \<open>
  Several threads in LogFieldTraceEvent of runtime/mini\_trace.cc at once. The function, with
  HandleOverflow and FlushBuffer inlined, is cut at its accesses to shared state: the load of
  the offset, the unsynchronised read of the overflow count, the acquisition of trace\_lock\_,
  the write to the data file, the scan and the reset of the offset, the compare-exchange and
  the write of the record. A step is one such access of one thread. \<open>history\<close> is a ghost
  variable: the events in the order of their successful compare-exchanges.
\<close>

section \<open>Program points and configurations\<close>

type_synonym event = "u32 \<times> ptr \<times> MiniTraceAction \<times> ptr \<times> u32"

datatype pc =
    Idle
  | AtLoad event                \<comment> \<open>before \<open>old_offset = cur_offset_.LoadRelaxed()\<close>\<close>
  | AtCheck event nat           \<comment> \<open>before the test against buffer\_size\_\<close>
  | AtOverflow event nat        \<comment> \<open>at the entry of HandleOverflow\<close>
  | AtLock event nat nat        \<comment> \<open>waiting for trace\_lock\_, with \<open>local_count\<close>\<close>
  | AtLocked event nat nat      \<comment> \<open>holding it, before the second look at the count\<close>
  | AtFlush event nat nat       \<comment> \<open>in FlushBuffer, with the offset it loaded\<close>
  | AtScan event nat nat        \<comment> \<open>in FlushBuffer, after the write to the file\<close>
  | AtCas event nat             \<comment> \<open>before the compare-exchange\<close>
  | AtWrite event nat           \<comment> \<open>a slot is reserved, the record not yet written\<close>

record config =
  tracer :: MiniTrace
  trace_lock :: "nat option"
  pcs :: "nat \<Rightarrow> pc"
  faulted :: bool
  history :: "event list"

abbreviation put_field :: "event \<Rightarrow> u8 list \<Rightarrow> nat \<Rightarrow> u8 list res" where
  "put_field \<equiv> \<lambda>(tid, field, action, obj, dex_pc) b p. write_field_record b p tid field action obj dex_pc"

abbreviation at :: "nat \<Rightarrow> pc \<Rightarrow> config \<Rightarrow> config" where
  "at i p c \<equiv> c\<lparr>pcs := (pcs c)(i := p)\<rparr>"

inductive cstep :: "config \<Rightarrow> config \<Rightarrow> bool" where
  Enter: "pcs c i = Idle \<Longrightarrow> cstep c (at i (AtLoad e) c)"
| Load: "pcs c i = AtLoad e \<Longrightarrow> cstep c (at i (AtCheck e (cur_offset (tracer c))) c)"
| Room: "pcs c i = AtCheck e old \<Longrightarrow> int (old + kMiniTraceRecordSize) \<le> buffer_size (tracer c) \<Longrightarrow>
    cstep c (at i (AtCas e old) c)"
| Full: "pcs c i = AtCheck e old \<Longrightarrow> buffer_size (tracer c) < int (old + kMiniTraceRecordSize) \<Longrightarrow>
    cstep c (at i (AtOverflow e old) c)"
| GiveUp: "pcs c i = AtOverflow e old \<Longrightarrow> 1024 < buffer_overflow_count (tracer c) \<Longrightarrow>
    cstep c (at i Idle c)"
| ReadCount: "pcs c i = AtOverflow e old \<Longrightarrow> \<not> 1024 < buffer_overflow_count (tracer c) \<Longrightarrow>
    cstep c (at i (AtLock e old (buffer_overflow_count (tracer c))) c)"
| Lock: "pcs c i = AtLock e old n \<Longrightarrow> trace_lock c = None \<Longrightarrow>
    cstep c (at i (AtLocked e old n) (c\<lparr>trace_lock := Some i\<rparr>))"
| Handled: "pcs c i = AtLocked e old n \<Longrightarrow> n \<noteq> buffer_overflow_count (tracer c) \<Longrightarrow>
    cstep c (at i (AtCas e old) (c\<lparr>trace_lock := None\<rparr>))"
| Count: "pcs c i = AtLocked e old n \<Longrightarrow> n = buffer_overflow_count (tracer c) \<Longrightarrow>
    cstep c (at i (AtFlush e old (cur_offset (tracer c)))
      (c\<lparr>tracer := (tracer c)\<lparr>buffer_overflow_count := n + 1\<rparr>\<rparr>))"
| FlushEmpty: "pcs c i = AtFlush e old 0 \<Longrightarrow>
    cstep c (at i (AtCas e old) (c\<lparr>trace_lock := None\<rparr>))"
| FlushFail: "pcs c i = AtFlush e old cur \<Longrightarrow> 0 < cur \<Longrightarrow> cur \<le> length (trace_buf (tracer c)) \<Longrightarrow>
    WriteFully (take cur (trace_buf (tracer c))) (trace_data_file (tracer c)) = (False, f) \<Longrightarrow>
    cstep c (at i Idle (c\<lparr>tracer := (tracer c)\<lparr>trace_data_file := f\<rparr>, trace_lock := None\<rparr>))"
| FlushWrite: "pcs c i = AtFlush e old cur \<Longrightarrow> 0 < cur \<Longrightarrow> cur \<le> length (trace_buf (tracer c)) \<Longrightarrow>
    WriteFully (take cur (trace_buf (tracer c))) (trace_data_file (tracer c)) = (True, f) \<Longrightarrow>
    cstep c (at i (AtScan e old cur) (c\<lparr>tracer := (tracer c)\<lparr>trace_data_file := f\<rparr>\<rparr>))"
| FlushFault: "pcs c i = AtFlush e old cur \<Longrightarrow> length (trace_buf (tracer c)) < cur \<Longrightarrow>
    cstep c (c\<lparr>faulted := True\<rparr>)"
| Scan: "pcs c i = AtScan e old cur \<Longrightarrow>
    scan_records (trace_buf (tracer c)) 0 cur (visited_methods (tracer c), visited_fields (tracer c)) = Inr (ms, fs) \<Longrightarrow>
    cstep c (at i (AtCas e old) (c\<lparr>tracer := (tracer c)\<lparr>visited_methods := ms, visited_fields := fs,
      cur_offset := 0\<rparr>, trace_lock := None\<rparr>))"
| ScanFault: "pcs c i = AtScan e old cur \<Longrightarrow>
    scan_records (trace_buf (tracer c)) 0 cur (visited_methods (tracer c), visited_fields (tracer c)) = Inl trap \<Longrightarrow>
    cstep c (c\<lparr>faulted := True\<rparr>)"
| CasOk: "pcs c i = AtCas e old \<Longrightarrow> cur_offset (tracer c) = old \<Longrightarrow>
    cstep c (at i (AtWrite e old) (c\<lparr>tracer := (tracer c)\<lparr>cur_offset := old + kMiniTraceRecordSize\<rparr>,
      history := history c @ [e]\<rparr>))"
| CasFail: "pcs c i = AtCas e old \<Longrightarrow> cstep c (at i (AtLoad e) c)"
| WriteRecord: "pcs c i = AtWrite e p \<Longrightarrow> put_field e (trace_buf (tracer c)) p = Inr b \<Longrightarrow>
    cstep c (at i Idle (c\<lparr>tracer := (tracer c)\<lparr>trace_buf := b\<rparr>\<rparr>))"
| WriteFault: "pcs c i = AtWrite e p \<Longrightarrow> put_field e (trace_buf (tracer c)) p = Inl trap \<Longrightarrow>
    cstep c (c\<lparr>faulted := True\<rparr>)"

definition initial :: "MiniTrace \<Rightarrow> config" where
  "initial t = \<lparr>tracer = t, trace_lock = None, pcs = \<lambda>_. Idle, faulted = False, history = []\<rparr>"

inductive reachable :: "MiniTrace \<Rightarrow> config \<Rightarrow> bool" for t where
  start: "reachable t (initial t)"
| step: "reachable t c \<Longrightarrow> cstep c c' \<Longrightarrow> reachable t c'"

section \<open>Mutual exclusion\<close>

fun holds :: "pc \<Rightarrow> bool" where
  "holds (AtLocked e old n) = True"
| "holds (AtFlush e old cur) = True"
| "holds (AtScan e old cur) = True"
| "holds _ = False"

definition lock_inv :: "config \<Rightarrow> bool" where
  "lock_inv c \<longleftrightarrow> (\<forall>i. holds (pcs c i) \<longleftrightarrow> trace_lock c = Some i)"

lemma lock_inv_at:
  assumes "lock_inv c" "pcs d = pcs c"
    and "trace_lock d = (if holds p = holds (pcs c i) then trace_lock c else if holds p then Some i else None)"
    and "holds p \<Longrightarrow> holds (pcs c i) \<or> trace_lock c = None"
  shows "lock_inv (at i p d)"
  using assms by (auto simp: lock_inv_def split: if_splits)

lemma lock_inv_step: "cstep c c' \<Longrightarrow> lock_inv c \<Longrightarrow> lock_inv c'"
  by (induction rule: cstep.induct)
    (rule lock_inv_at, assumption, simp, simp, simp | simp add: lock_inv_def)+

lemma lock_inv_initial: "lock_inv (initial t)"
  by (simp add: initial_def lock_inv_def)

lemma lock_inv_reachable: "reachable t c \<Longrightarrow> lock_inv c"
  by (induction rule: reachable.induct) (auto intro: lock_inv_initial lock_inv_step)

text \<open>C16: at most one thread is inside the locked part of HandleOverflow, the one that
  holds trace\_lock\_.\<close>

theorem one_flusher:
  assumes "reachable t c" "holds (pcs c i)" "holds (pcs c j)"
  shows "i = j \<and> trace_lock c = Some i"
  using lock_inv_reachable [OF assms(1)] assms(2,3) by (auto simp: lock_inv_def)

section \<open>Before the first overflow\<close>

text \<open>What a thread at a program point knows while the overflow count is still zero.\<close>

fun pc_ok :: "MiniTrace \<Rightarrow> event list \<Rightarrow> pc \<Rightarrow> bool" where
  "pc_ok t h (AtLock e old n) \<longleftrightarrow> n \<le> buffer_overflow_count t"
| "pc_ok t h (AtLocked e old n) \<longleftrightarrow> n \<le> buffer_overflow_count t"
| "pc_ok t h (AtFlush e old cur) \<longleftrightarrow> 0 < buffer_overflow_count t"
| "pc_ok t h (AtScan e old cur) \<longleftrightarrow> 0 < buffer_overflow_count t"
| "pc_ok t h (AtCas e old) \<longleftrightarrow> (buffer_overflow_count t = 0 \<longrightarrow> int (old + 14) \<le> buffer_size t)"
| "pc_ok t h (AtWrite e p) \<longleftrightarrow> (buffer_overflow_count t = 0 \<longrightarrow> (\<exists>k < length h. p = 14 * k \<and> h ! k = e))"
| "pc_ok t h _ \<longleftrightarrow> True"

fun writing :: "pc \<Rightarrow> (event \<times> nat) option" where
  "writing (AtWrite e p) = Some (e, p)"
| "writing _ = None"

definition slots_ok :: "MiniTrace \<Rightarrow> event list \<Rightarrow> bool \<Rightarrow> (nat \<Rightarrow> (event \<times> nat) option) \<Rightarrow> bool" where
  "slots_ok t h fault w \<longleftrightarrow> \<not> fault \<and> length (trace_buf t) = nat (buffer_size t) \<and>
     cur_offset t = 14 * length h \<and> int (cur_offset t) \<le> buffer_size t \<and>
     (\<forall>i j e e' p. w i = Some (e, p) \<and> w j = Some (e', p) \<longrightarrow> i = j) \<and>
     (\<forall>k < length h. (\<exists>i e. w i = Some (e, 14 * k)) \<or> slice (trace_buf t) (14 * k) 14 = field_record_bytes (h ! k))"

lemma slots_okI:
  assumes "\<not> fault" "length (trace_buf t) = nat (buffer_size t)" "cur_offset t = 14 * length h"
    "int (cur_offset t) \<le> buffer_size t"
    "\<And>i j e e' p. w i = Some (e, p) \<Longrightarrow> w j = Some (e', p) \<Longrightarrow> i = j"
    "\<And>k. k < length h \<Longrightarrow> (\<exists>i e. w i = Some (e, 14 * k)) \<or> slice (trace_buf t) (14 * k) 14 = field_record_bytes (h ! k)"
  shows "slots_ok t h fault w"
  unfolding slots_ok_def using assms by blast

definition early_inv :: "config \<Rightarrow> bool" where
  "early_inv c \<longleftrightarrow> (\<forall>i. pc_ok (tracer c) (history c) (pcs c i)) \<and>
     (buffer_overflow_count (tracer c) = 0 \<longrightarrow>
        slots_ok (tracer c) (history c) (faulted c) (\<lambda>i. writing (pcs c i)))"

lemma pc_ok_mono:
  assumes "pc_ok t h p" "buffer_overflow_count t \<le> buffer_overflow_count t'"
    "buffer_size t' = buffer_size t" "\<exists>x. h' = h @ x"
  shows "pc_ok t' h' p"
proof (cases p)
  case (AtWrite e q)
  with assms(1,2,4) show ?thesis
    by (auto simp: nth_append)
qed (use assms in auto)

text \<open>A step that reserves and writes nothing.\<close>

lemma early_inv_at:
  assumes "early_inv c" "pcs d = pcs c" "history d = history c" "faulted d = faulted c"
    and "buffer_size (tracer d) = buffer_size (tracer c)" "trace_buf (tracer d) = trace_buf (tracer c)"
    and "buffer_overflow_count (tracer c) \<le> buffer_overflow_count (tracer d)"
    and "buffer_overflow_count (tracer d) = 0 \<Longrightarrow> cur_offset (tracer d) = cur_offset (tracer c)"
    and "writing (pcs c i) = None" "writing p = None" "pc_ok (tracer d) (history c) p"
  shows "early_inv (at i p d)"
proof -
  have "pc_ok (tracer d) (history c) (((pcs c)(i := p)) j)" for j
    using assms(1,5,7,11) pc_ok_mono [of "tracer c" "history c"] by (simp add: early_inv_def)
  moreover have "(\<lambda>j. writing (((pcs c)(i := p)) j)) = (\<lambda>j. writing (pcs c j))"
    using assms(9,10) by auto
  moreover have "slots_ok (tracer d) (history c) (faulted c) (\<lambda>j. writing (pcs c j))"
    if "buffer_overflow_count (tracer d) = 0"
    using assms(1,5-8) that by (auto simp: early_inv_def slots_ok_def)
  ultimately show ?thesis using assms(2-4) by (simp add: early_inv_def)
qed

lemma early_inv_late:
  assumes "early_inv c" "tracer d = tracer c" "history d = history c" "pcs d = pcs c"
    and "0 < buffer_overflow_count (tracer c)"
  shows "early_inv d"
  using assms by (simp add: early_inv_def)

lemma early_inv_cas:
  assumes "early_inv c" "pcs c i = AtCas e (cur_offset (tracer c))"
  shows "early_inv (at i (AtWrite e (cur_offset (tracer c)))
    (c\<lparr>tracer := (tracer c)\<lparr>cur_offset := cur_offset (tracer c) + 14\<rparr>, history := history c @ [e]\<rparr>))"
    (is "early_inv ?d")
proof -
  let ?t = "tracer c" and ?h = "history c" and ?w = "\<lambda>j. writing (pcs c j)"
  define w' where "w' j = writing (((pcs c)(i := AtWrite e (cur_offset ?t))) j)" for j
  have ok: "pc_ok ?t ?h (pcs c j)" for j using assms(1) by (simp add: early_inv_def)
  show ?thesis
  proof (cases "buffer_overflow_count ?t = 0")
    case False
    have "pc_ok (tracer ?d) (?h @ [e]) (pcs c j)" for j
      using pc_ok_mono [OF ok [of j], of "tracer ?d" "?h @ [e]"] by simp
    with False show ?thesis by (simp add: early_inv_def)
  next
    case True
    have s: "slots_ok ?t ?h (faulted c) ?w" using assms(1) True by (simp add: early_inv_def)
    have room: "int (cur_offset ?t + 14) \<le> buffer_size ?t" using ok [of i] assms(2) True by simp
    have fresh: "?w j \<noteq> Some (e', 14 * length ?h)" for j e'
      using ok [of j] True by (cases "pcs c j") auto
    have w': "w' j = (if j = i then Some (e, 14 * length ?h) else ?w j)" for j
      using s by (simp add: slots_ok_def w'_def)
    have "slots_ok (tracer ?d) (?h @ [e]) (faulted c) w'"
    proof -
      have inj: "j = k" if "w' j = Some (e1, q)" "w' k = Some (e2, q)" for j k e1 e2 q
      proof -
        have "?w j = Some (e1, q) \<Longrightarrow> ?w k = Some (e2, q) \<Longrightarrow> j = k"
          using s unfolding slots_ok_def by blast
        with that fresh show ?thesis unfolding w' by (auto split: if_splits)
      qed
      have cover: "(\<exists>j e'. w' j = Some (e', 14 * k)) \<or>
          slice (trace_buf ?t) (14 * k) 14 = field_record_bytes ((?h @ [e]) ! k)" if "k < Suc (length ?h)" for k
      proof (cases "k = length ?h")
        case False
        then have k: "k < length ?h" using that by simp
        have none: "?w i = None" using assms(2) by simp
        consider j e' where "?w j = Some (e', 14 * k)"
          | "slice (trace_buf ?t) (14 * k) 14 = field_record_bytes (?h ! k)"
          using s k unfolding slots_ok_def by blast
        then show ?thesis
        proof cases
          case 1
          with none have "w' j = Some (e', 14 * k)" unfolding w' by auto
          then show ?thesis by blast
        next
          case 2
          then show ?thesis using k by (simp add: nth_append)
        qed
      next
        case True
        have "w' i = Some (e, 14 * k)" unfolding w' using True by simp
        then show ?thesis by blast
      qed
      have "\<not> faulted c" "length (trace_buf ?t) = nat (buffer_size ?t)" "cur_offset ?t = 14 * length ?h"
        using s by (simp_all add: slots_ok_def)
      then show ?thesis using inj cover room by (intro slots_okI) simp_all
    qed
    moreover have "pc_ok (tracer ?d) (?h @ [e]) (pcs ?d j)" for j
    proof (cases "j = i")
      case True
      with s show ?thesis by (auto simp: slots_ok_def)
    next
      case False
      then show ?thesis using pc_ok_mono [OF ok [of j], of "tracer ?d" "?h @ [e]"] by simp
    qed
    moreover have "w' = (\<lambda>j. writing (((pcs c)(i := AtWrite e (cur_offset ?t))) j))"
      by (simp add: fun_eq_iff w'_def)
    ultimately show ?thesis by (simp add: early_inv_def)
  qed
qed

lemma put_field_at:
  assumes "k < length h" "14 * length h \<le> length b"
  shows "put_field e b (14 * k) = Inr (splice b (14 * k) (field_record_bytes e))"
  using field_writer.put_in_bounds [of "14 * k" b e] assms by simp

lemma slice_other_slot:
  assumes "j \<noteq> k" "14 * Suc j \<le> length b" "14 * Suc k \<le> length b" "length bs = 14"
  shows "slice (splice b (14 * k) bs) (14 * j) 14 = slice b (14 * j) 14"
  using assms by (intro slice_splice_disjoint) auto

lemma length_event_bytes [simp]: "length (field_record_bytes e) = 14"
  by (cases e) simp

lemma early_inv_write:
  assumes "early_inv c" "pcs c i = AtWrite e p" "put_field e (trace_buf (tracer c)) p = Inr b"
  shows "early_inv (at i Idle (c\<lparr>tracer := (tracer c)\<lparr>trace_buf := b\<rparr>\<rparr>))" (is "early_inv ?d")
proof -
  let ?t = "tracer c" and ?h = "history c" and ?w = "\<lambda>j. writing (pcs c j)"
  have ok: "pc_ok ?t ?h (pcs c j)" for j using assms(1) by (simp add: early_inv_def)
  have ok': "pc_ok (tracer ?d) ?h (pcs ?d j)" for j
    using pc_ok_mono [OF ok [of j], of "tracer ?d" ?h] by simp
  show ?thesis
  proof (cases "buffer_overflow_count ?t = 0")
    case False
    with ok' show ?thesis by (simp add: early_inv_def)
  next
    case True
    have s: "slots_ok ?t ?h (faulted c) ?w" using assms(1) True by (simp add: early_inv_def)
    then have len: "14 * length ?h \<le> length (trace_buf ?t)" by (auto simp: slots_ok_def)
    obtain k where k: "k < length ?h" "p = 14 * k" "?h ! k = e" using ok [of i] assms(2) True by auto
    have b: "b = splice (trace_buf ?t) (14 * k) (field_record_bytes e)"
      using assms(3) put_field_at [OF k(1) len] k(2) by simp
    have room: "14 * k + 14 \<le> length (trace_buf ?t)" using len k(1) by linarith
    define w' where "w' j = writing (((pcs c)(i := Idle)) j)" for j
    have cover: "(\<exists>i' e'. w' i' = Some (e', 14 * j)) \<or> slice b (14 * j) 14 = field_record_bytes (?h ! j)"
      if j: "j < length ?h" for j
    proof (cases "j = k")
      case True
      have "slice b (14 * k) 14 = field_record_bytes e" using room by (simp add: b)
      with True k(3) show ?thesis by simp
    next
      case False
      consider i' e' where "?w i' = Some (e', 14 * j)"
        | "slice (trace_buf ?t) (14 * j) 14 = field_record_bytes (?h ! j)"
        using s j unfolding slots_ok_def by blast
      then show ?thesis
      proof cases
        case 1
        then have "i' \<noteq> i" using assms(2) k(2) False by auto
        with 1 have "w' i' = Some (e', 14 * j)" by (simp add: w'_def)
        then show ?thesis by blast
      next
        case 2
        have "slice b (14 * j) 14 = slice (trace_buf ?t) (14 * j) 14"
          unfolding b using False room len j by (intro slice_other_slot) auto
        with 2 show ?thesis by simp
      qed
    qed
    have inj: "x = y" if "w' x = Some (e1, q)" "w' y = Some (e2, q)" for x y e1 e2 q
    proof -
      from that have "?w x = Some (e1, q)" "?w y = Some (e2, q)"
        by (auto simp: w'_def split: if_splits)
      with s show ?thesis unfolding slots_ok_def by blast
    qed
    have "length b = length (trace_buf ?t)" using room by (simp add: b)
    with s have "\<not> faulted c" "length b = nat (buffer_size ?t)" "cur_offset ?t = 14 * length ?h"
        "int (cur_offset ?t) \<le> buffer_size ?t"
      by (auto simp: slots_ok_def)
    then have "slots_ok (?t\<lparr>trace_buf := b\<rparr>) ?h (faulted c) w'"
      using inj cover by (intro slots_okI) simp_all
    moreover have "w' = (\<lambda>j. writing (((pcs c)(i := Idle)) j))" by (simp add: fun_eq_iff w'_def)
    ultimately show ?thesis using ok' by (simp add: early_inv_def)
  qed
qed

lemma early_pc: "early_inv c \<Longrightarrow> pcs c i = p \<Longrightarrow> pc_ok (tracer c) (history c) p"
  by (auto simp: early_inv_def)

lemma early_inv_step: "cstep c c' \<Longrightarrow> early_inv c \<Longrightarrow> early_inv c'"
proof (induction rule: cstep.induct)
  case (CasOk c i e old)
  then show ?case using early_inv_cas [of c i e] by (simp add: kMiniTraceRecordSize_def)
next
  case (WriteRecord c i e p b)
  then show ?case by (intro early_inv_write)
next
  case (WriteFault c i e p trap)
  have ok: "pc_ok (tracer c) (history c) (pcs c i)" using WriteFault.prems by (simp add: early_inv_def)
  show ?case
  proof (cases "buffer_overflow_count (tracer c) = 0")
    case True
    then obtain k where k: "k < length (history c)" "p = 14 * k" using ok WriteFault.hyps(1) by auto
    moreover have "14 * length (history c) \<le> length (trace_buf (tracer c))"
      using WriteFault.prems True by (auto simp: early_inv_def slots_ok_def)
    ultimately show ?thesis using WriteFault.hyps(2) put_field_at [OF k(1)] by simp
  qed (use WriteFault.prems in \<open>simp add: early_inv_def\<close>)
next
  case (FlushFault c i e old cur)
  note early_pc [OF FlushFault.prems FlushFault.hyps(1)]
  then show ?case by - (rule early_inv_late [OF FlushFault.prems], use FlushFault.hyps in simp_all)
next
  case (ScanFault c i e old cur trap)
  note early_pc [OF ScanFault.prems ScanFault.hyps(1)]
  then show ?case by - (rule early_inv_late [OF ScanFault.prems], use ScanFault.hyps in simp_all)
next
  case (Scan c i e old cur ms fs)
  note early_pc [OF Scan.prems Scan.hyps(1)]
  then show ?case by - (rule early_inv_at [OF Scan.prems], use Scan.hyps in simp_all)
next
  case (Handled c i e old n)
  note early_pc [OF Handled.prems Handled.hyps(1)]
  then show ?case by - (rule early_inv_at [OF Handled.prems], use Handled.hyps in simp_all)
next
  case (FlushEmpty c i e old)
  note early_pc [OF FlushEmpty.prems FlushEmpty.hyps(1)]
  then show ?case by - (rule early_inv_at [OF FlushEmpty.prems], use FlushEmpty.hyps in simp_all)
next
  case (FlushWrite c i e old cur f)
  note early_pc [OF FlushWrite.prems FlushWrite.hyps(1)]
  then show ?case by - (rule early_inv_at [OF FlushWrite.prems], use FlushWrite.hyps in simp_all)
next
  case (Lock c i e old n)
  note early_pc [OF Lock.prems Lock.hyps(1)]
  then show ?case by - (rule early_inv_at [OF Lock.prems], use Lock.hyps in simp_all)
next
  case (Enter c i e)
  show ?case by (rule early_inv_at [OF Enter.prems]) (use Enter.hyps in \<open>simp_all add: kMiniTraceRecordSize_def\<close>)
next
  case (Load c i e)
  show ?case by (rule early_inv_at [OF Load.prems]) (use Load.hyps in \<open>simp_all add: kMiniTraceRecordSize_def\<close>)
next
  case (Room c i e old)
  show ?case by (rule early_inv_at [OF Room.prems]) (use Room.hyps in \<open>simp_all add: kMiniTraceRecordSize_def\<close>)
next
  case (Full c i e old)
  show ?case by (rule early_inv_at [OF Full.prems]) (use Full.hyps in \<open>simp_all add: kMiniTraceRecordSize_def\<close>)
next
  case (GiveUp c i e old)
  show ?case by (rule early_inv_at [OF GiveUp.prems]) (use GiveUp.hyps in \<open>simp_all add: kMiniTraceRecordSize_def\<close>)
next
  case (ReadCount c i e old)
  show ?case by (rule early_inv_at [OF ReadCount.prems]) (use ReadCount.hyps in \<open>simp_all add: kMiniTraceRecordSize_def\<close>)
next
  case (Count c i e old n)
  show ?case by (rule early_inv_at [OF Count.prems]) (use Count.hyps in \<open>simp_all add: kMiniTraceRecordSize_def\<close>)
next
  case (FlushFail c i e old cur f)
  show ?case by (rule early_inv_at [OF FlushFail.prems]) (use FlushFail.hyps in \<open>simp_all add: kMiniTraceRecordSize_def\<close>)
next
  case (CasFail c i e old)
  show ?case by (rule early_inv_at [OF CasFail.prems]) (use CasFail.hyps in \<open>simp_all add: kMiniTraceRecordSize_def\<close>)
qed

lemma early_inv_initial:
  assumes "new_MiniTrace info data events sz now = Inr t"
  shows "early_inv (initial t)"
  using assms by (auto simp: new_MiniTrace_def initial_def early_inv_def slots_ok_def split: if_splits)

lemma early_inv_reachable:
  assumes "reachable t c" "new_MiniTrace info data events sz now = Inr t"
  shows "early_inv c"
  using assms by (induction rule: reachable.induct) (auto intro: early_inv_initial early_inv_step)

text \<open>C3: until the first overflow no thread can write outside the buffer, and the slots
  of two threads that are about to write do not overlap.\<close>

theorem no_fault_before_overflow:
  assumes "new_MiniTrace info data events sz now = Inr t" "reachable t c"
    and "buffer_overflow_count (tracer c) = 0"
  shows "\<not> faulted c \<and>
     (\<forall>i e p. pcs c i = AtWrite e p \<longrightarrow> p + 14 \<le> length (trace_buf (tracer c))) \<and>
     (\<forall>i j e e' p q. pcs c i = AtWrite e p \<and> pcs c j = AtWrite e' q \<and> i \<noteq> j \<longrightarrow> p + 14 \<le> q \<or> q + 14 \<le> p)"
proof -
  note inv = early_inv_reachable [OF assms(2,1)]
  have s: "slots_ok (tracer c) (history c) (faulted c) (\<lambda>i. writing (pcs c i))"
    using inv assms(3) by (simp add: early_inv_def)
  have slot: "\<exists>k < length (history c). p = 14 * k" if "pcs c i = AtWrite e p" for i e p
    using early_pc [OF inv that] assms(3) by auto
  have bound: "14 * length (history c) \<le> length (trace_buf (tracer c))"
    using s by (auto simp: slots_ok_def)
  have "p + 14 \<le> q \<or> q + 14 \<le> p"
    if w: "pcs c i = AtWrite e p" "pcs c j = AtWrite e' q" and "i \<noteq> j" for i j e e' p q
  proof -
    have "p \<noteq> q"
    proof
      assume "p = q"
      with w have "writing (pcs c i) = Some (e, p)" "writing (pcs c j) = Some (e', p)" by simp_all
      with s have "i = j" unfolding slots_ok_def by blast
      with \<open>i \<noteq> j\<close> show False ..
    qed
    moreover obtain k l where "p = 14 * k" "q = 14 * l" using slot w by blast
    ultimately show ?thesis by auto
  qed
  moreover have "p + 14 \<le> length (trace_buf (tracer c))" if "pcs c i = AtWrite e p" for i e p
    using slot [OF that] bound by auto
  moreover have "\<not> faulted c" using s by (simp add: slots_ok_def)
  ultimately show ?thesis by blast
qed

lemma concat_slots:
  assumes "14 * n \<le> length b" "\<forall>k < n. slice b (14 * k) 14 = f k"
  shows "take (14 * n) b = concat (map f [0..<n])"
  using assms
proof (induction n)
  case (Suc n)
  have "take (14 * Suc n) b = take (14 * n) b @ slice b (14 * n) 14"
    by (simp add: slice_def take_add [symmetric] add.commute)
  with Suc show ?case by simp
qed simp


section \<open>After an overflow\<close>

text \<open>One undisturbed pass of a thread through LogFieldTraceEvent with room in the buffer.\<close>

definition log_ok :: "event \<Rightarrow> bool" where
  "log_ok e \<longleftrightarrow> (case e of (tid, field, action, obj, dex_pc) \<Rightarrow>
     aligned8 field \<and> action \<noteq> kMiniTraceActionMask)"

lemma log_ok_aid:
  assumes "log_ok e"
  shows "DecodeMiniTraceAction (le32 (field_record_bytes e ! 2) (field_record_bytes e ! 3)
      (field_record_bytes e ! 4) (field_record_bytes e ! 5)) \<noteq> kMiniTraceActionMask"
  using assms by (cases e) (simp add: log_ok_def field_aid decode_action_or)

lemma at_same: "pcs c i = p \<Longrightarrow> at i p c = c"
  by auto

lemma pass_to_cas:
  assumes "pcs c i = Idle" "int (cur_offset (tracer c) + 14) \<le> buffer_size (tracer c)"
  shows "rtranclp cstep c (at i (AtWrite e (cur_offset (tracer c)))
     (c\<lparr>tracer := (tracer c)\<lparr>cur_offset := cur_offset (tracer c) + 14\<rparr>, history := history c @ [e]\<rparr>))"
proof -
  let ?o = "cur_offset (tracer c)"
  let ?c1 = "at i (AtLoad e) c" and ?c2 = "at i (AtCheck e ?o) c" and ?c3 = "at i (AtCas e ?o) c"
  have "cstep c ?c1" using assms(1) by (rule Enter)
  moreover have "cstep ?c1 ?c2" using Load [of ?c1 i e] by simp
  moreover have "cstep ?c2 ?c3" using Room [of ?c2 i e ?o] assms(2) by (simp add: kMiniTraceRecordSize_def)
  moreover have "cstep ?c3 (at i (AtWrite e ?o)
     (c\<lparr>tracer := (tracer c)\<lparr>cur_offset := ?o + 14\<rparr>, history := history c @ [e]\<rparr>))"
    using CasOk [of ?c3 i e ?o] by (simp add: kMiniTraceRecordSize_def)
  ultimately show ?thesis by (meson converse_rtranclp_into_rtranclp rtranclp.rtrancl_refl)
qed

lemma pass:
  assumes "pcs c i = Idle" "trace_inv (tracer c)" "log_ok e"
    and "int (cur_offset (tracer c) + 14) \<le> buffer_size (tracer c)"
  shows "\<exists>t'. rtranclp cstep c (c\<lparr>tracer := t', history := history c @ [e]\<rparr>) \<and> trace_inv t' \<and>
     cur_offset t' = cur_offset (tracer c) + 14 \<and> buffer_size t' = buffer_size (tracer c) \<and>
     take (cur_offset (tracer c)) (trace_buf t') = take (cur_offset (tracer c)) (trace_buf (tracer c)) \<and>
     trace_data_file t' = trace_data_file (tracer c) \<and>
     buffer_overflow_count t' = buffer_overflow_count (tracer c)"
proof -
  let ?t = "tracer c" and ?o = "cur_offset (tracer c)"
  have "?o = 14 * (?o div 14)" using assms(2) by (simp add: trace_inv_def)
  then obtain b where b: "put_field e (trace_buf ?t) ?o = Inr b"
      "trace_inv (?t\<lparr>cur_offset := ?o + 14, trace_buf := b\<rparr>)"
    using field_writer.put_slot [of ?t "?o div 14" e] assms(2,4) log_ok_aid [OF assms(3)]
    by (auto simp: trace_inv_def)
  let ?c4 = "at i (AtWrite e ?o) (c\<lparr>tracer := ?t\<lparr>cur_offset := ?o + 14\<rparr>, history := history c @ [e]\<rparr>)"
  let ?c5 = "c\<lparr>tracer := ?t\<lparr>cur_offset := ?o + 14, trace_buf := b\<rparr>, history := history c @ [e]\<rparr>"
  have "cstep ?c4 (at i Idle (?c4\<lparr>tracer := (tracer ?c4)\<lparr>trace_buf := b\<rparr>\<rparr>))"
    using b(1) by (intro WriteRecord [of _ i e ?o]) simp_all
  also have "at i Idle (?c4\<lparr>tracer := (tracer ?c4)\<lparr>trace_buf := b\<rparr>\<rparr>) = ?c5"
    using assms(1) by (simp add: fun_upd_idem)
  finally have "rtranclp cstep c ?c5" using pass_to_cas [OF assms(1,4)] by (rule rtranclp.rtrancl_into_rtrancl [rotated])
  moreover have "take ?o b = take ?o (trace_buf ?t)" using field_writer.put_prefix [OF b(1)] .
  ultimately show ?thesis using b(2)
    by (intro exI [of _ "?t\<lparr>cur_offset := ?o + 14, trace_buf := b\<rparr>"]) simp
qed

lemma fill:
  assumes "pcs c i = Idle" "trace_inv (tracer c)" "log_ok e"
    and "int (cur_offset (tracer c) + 14 * n) \<le> buffer_size (tracer c)"
  shows "\<exists>t' h. rtranclp cstep c (c\<lparr>tracer := t', history := h\<rparr>) \<and> trace_inv t' \<and>
     cur_offset t' = cur_offset (tracer c) + 14 * n \<and> buffer_size t' = buffer_size (tracer c) \<and>
     take (cur_offset (tracer c)) (trace_buf t') = take (cur_offset (tracer c)) (trace_buf (tracer c)) \<and>
     trace_data_file t' = trace_data_file (tracer c) \<and>
     buffer_overflow_count t' = buffer_overflow_count (tracer c)"
  using assms(4)
proof (induction n)
  case 0
  have "c = c\<lparr>tracer := tracer c, history := history c\<rparr>" by simp
  with assms(2) show ?case by (metis add.right_neutral mult_0_right rtranclp.rtrancl_refl)
next
  case (Suc n)
  then obtain t h where t: "rtranclp cstep c (c\<lparr>tracer := t, history := h\<rparr>)" "trace_inv t"
     "cur_offset t = cur_offset (tracer c) + 14 * n" "buffer_size t = buffer_size (tracer c)"
     "trace_data_file t = trace_data_file (tracer c)"
     "buffer_overflow_count t = buffer_overflow_count (tracer c)"
     "take (cur_offset (tracer c)) (trace_buf t) = take (cur_offset (tracer c)) (trace_buf (tracer c))"
    by auto
  let ?d = "c\<lparr>tracer := t, history := h\<rparr>"
  obtain t' where t': "rtranclp cstep ?d (?d\<lparr>tracer := t', history := h @ [e]\<rparr>)" "trace_inv t'"
     "cur_offset t' = cur_offset t + 14" "buffer_size t' = buffer_size t" "trace_data_file t' = trace_data_file t"
     "buffer_overflow_count t' = buffer_overflow_count t"
     "take (cur_offset t) (trace_buf t') = take (cur_offset t) (trace_buf t)"
    using pass [of ?d i e] assms(1,3) t Suc.prems by auto
  have "rtranclp cstep c (c\<lparr>tracer := t', history := h @ [e]\<rparr>)"
    using rtranclp_trans [OF t(1) t'(1)] by simp
  moreover have "take (cur_offset (tracer c)) (trace_buf t') = take (cur_offset (tracer c)) (trace_buf t)"
    using arg_cong [OF t'(7), of "take (cur_offset (tracer c))"] t(3) by simp
  ultimately show ?case using t t' by (intro exI [of _ t'] exI [of _ "h @ [e]"]) simp
qed

text \<open>A thread meets a full buffer, flushes it and returns to its compare-exchange.\<close>

lemma flush_pass:
  assumes "pcs c i = Idle" "trace_lock c = None" "trace_inv (tracer c)"
    and "buffer_size (tracer c) < int (cur_offset (tracer c) + 14)" "\<not> 1024 < buffer_overflow_count (tracer c)"
    and "WriteFully (take (cur_offset (tracer c)) (trace_buf (tracer c))) (trace_data_file (tracer c)) = (True, f)"
  shows "rtranclp cstep c (at i (AtCas e (cur_offset (tracer c)))
     (c\<lparr>tracer := flushed f ((tracer c)\<lparr>buffer_overflow_count := buffer_overflow_count (tracer c) + 1\<rparr>)\<rparr>))"
proof -
  let ?t = "tracer c" and ?o = "cur_offset (tracer c)" and ?n = "buffer_overflow_count (tracer c)"
  let ?t1 = "?t\<lparr>buffer_overflow_count := ?n + 1\<rparr>" and ?l = "c\<lparr>trace_lock := Some i\<rparr>"
  let ?c1 = "at i (AtLoad e) c" and ?c2 = "at i (AtCheck e ?o) c" and ?c3 = "at i (AtOverflow e ?o) c"
    and ?c4 = "at i (AtLock e ?o ?n) c" and ?c5 = "at i (AtLocked e ?o ?n) ?l"
    and ?c6 = "at i (AtFlush e ?o ?o) (?l\<lparr>tracer := ?t1\<rparr>)"
    and ?c7 = "at i (AtScan e ?o ?o) (?l\<lparr>tracer := ?t1\<lparr>trace_data_file := f\<rparr>\<rparr>)"
  have pos: "0 < ?o" "?o \<le> length (trace_buf ?t)" using assms(3,4) by (auto simp: trace_inv_def intro: ccontr)
  have scan: "scan_records (trace_buf ?t) 0 ?o (visited_methods ?t, visited_fields ?t) =
      Inr (visited_methods (flushed f ?t1), visited_fields (flushed f ?t1))"
    using scan_records_inv [OF assms(3)] by (simp add: flushed_def)
  have "cstep c ?c1" using assms(1) by (rule Enter)
  moreover have "cstep ?c1 ?c2" using Load [of ?c1 i e] by simp
  moreover have "cstep ?c2 ?c3" using Full [of ?c2 i e ?o] assms(4) by (simp add: kMiniTraceRecordSize_def)
  moreover have "cstep ?c3 ?c4" using ReadCount [of ?c3 i e ?o] assms(5) by simp
  moreover have "cstep ?c4 ?c5" using Lock [of ?c4 i e ?o ?n] assms(2) by simp
  moreover have "cstep ?c5 ?c6" using Count [of ?c5 i e ?o ?n] by simp
  moreover have "cstep ?c6 ?c7" using FlushWrite [of ?c6 i e ?o ?o f] pos assms(6) by simp
  moreover have "cstep ?c7 (at i (AtCas e ?o) (c\<lparr>tracer := flushed f ?t1\<rparr>))"
  proof -
    let ?ms = "visited_methods (flushed f ?t1)" and ?fs = "visited_fields (flushed f ?t1)"
    have "cstep ?c7 (at i (AtCas e ?o) (?c7\<lparr>tracer := (tracer ?c7)\<lparr>visited_methods := ?ms,
        visited_fields := ?fs, cur_offset := 0\<rparr>, trace_lock := None\<rparr>))"
      using scan by (intro Scan [of _ i e ?o ?o]) simp_all
    also have "at i (AtCas e ?o) (?c7\<lparr>tracer := (tracer ?c7)\<lparr>visited_methods := ?ms,
        visited_fields := ?fs, cur_offset := 0\<rparr>, trace_lock := None\<rparr>) =
        at i (AtCas e ?o) (c\<lparr>tracer := flushed f ?t1\<rparr>)"
      using assms(2) by (cases c) (simp add: flushed_def)
    finally show ?thesis .
  qed
  ultimately show ?thesis by (meson converse_rtranclp_into_rtranclp rtranclp.rtrancl_refl)
qed

lemma reachable_rtranclp: "rtranclp cstep c c' \<Longrightarrow> reachable t c \<Longrightarrow> reachable t c'"
  by (induction rule: rtranclp_induct) (auto intro: reachable.step)

lemma fresh_flush:
  assumes "trace_inv t" "kernel (trace_data_file t) = Inr (14 * (nat sz div 14)) # ks"
    and "buffer_size t = sz" "cur_offset t = 14 * (nat sz div 14)"
  shows "\<exists>f. WriteFully (take (cur_offset t) (trace_buf t)) (trace_data_file t) = (True, f)"
proof -
  have "0 < nat sz div 14" using assms(1,3) by (auto simp: trace_inv_def div_greater_zero_iff le_nat_iff)
  moreover have "cur_offset t \<le> length (trace_buf t)" using assms(1) by (auto simp: trace_inv_def)
  ultimately have "take (cur_offset t) (trace_buf t) \<noteq> []"
    using assms(4) by auto
  moreover have "length (take (cur_offset t) (trace_buf t)) \<le> 14 * (nat sz div 14)" using assms(4) by simp
  ultimately show ?thesis using WriteFully_one [OF assms(2)] by blast
qed

text \<open>The buffer is flushed by thread 1, then filled again by thread 2 before thread 1 gets to
  its compare-exchange, which still expects the offset of the full buffer.\<close>

lemma aba_run:
  assumes "trace_inv t" "cur_offset t = 0" "buffer_overflow_count t = 0" "buffer_size t = sz" "log_ok e"
    and "kernel (trace_data_file t) = Inr (14 * (nat sz div 14)) # ks"
  shows "\<exists>t' h. reachable t \<lparr>tracer = t', trace_lock = None, pcs = (\<lambda>_. Idle)(1 := AtCas e (14 * (nat sz div 14))),
     faulted = False, history = h\<rparr> \<and> trace_inv t' \<and> buffer_size t' = sz \<and> cur_offset t' = 14 * (nat sz div 14)"
proof -
  let ?n = "nat sz div 14"
  have n: "int (14 * ?n) \<le> sz" "sz < int (14 * ?n + 14)" using assms(1,4) by (auto simp: trace_inv_def)
  have idle: "pcs (initial t) i = Idle" for i by (simp add: initial_def)
  obtain t1 h1 where t1: "rtranclp cstep (initial t) ((initial t)\<lparr>tracer := t1, history := h1\<rparr>)" "trace_inv t1"
      "cur_offset t1 = 14 * ?n" "buffer_size t1 = sz" "trace_data_file t1 = trace_data_file t"
      "buffer_overflow_count t1 = 0"
    using fill [OF idle [of 1], of e ?n] assms n(1) by (auto simp: initial_def)
  let ?c1 = "(initial t)\<lparr>tracer := t1, history := h1\<rparr>"
  obtain f where f: "WriteFully (take (cur_offset t1) (trace_buf t1)) (trace_data_file t1) = (True, f)"
    using fresh_flush [OF t1(2) _ t1(4,3)] t1(5) assms(6) by auto
  let ?t2 = "flushed f (t1\<lparr>buffer_overflow_count := 1\<rparr>)"
  let ?c2 = "at 1 (AtCas e (14 * ?n)) (?c1\<lparr>tracer := ?t2\<rparr>)"
  have run2: "rtranclp cstep ?c1 ?c2"
    using flush_pass [of ?c1 1 f e] t1 f n(2) by (simp add: initial_def)
  have inv2: "trace_inv ?t2" using t1(2) by (auto simp: trace_inv_def flushed_def records_ok_def)
  obtain t3 h3 where t3: "rtranclp cstep ?c2 (?c2\<lparr>tracer := t3, history := h3\<rparr>)" "trace_inv t3"
      "cur_offset t3 = 14 * ?n" "buffer_size t3 = sz"
    using fill [of ?c2 2 e ?n] assms(5) inv2 n(1) t1(4) by (auto simp: initial_def flushed_def)
  have "reachable t (?c2\<lparr>tracer := t3, history := h3\<rparr>)"
    using t1(1) run2 t3(1) by (meson reachable_rtranclp reachable.start rtranclp_trans)
  with t3 show ?thesis by (auto simp: initial_def)
qed

text \<open>C17: once the buffer can overflow, two threads suffice to write a record behind the end
  of the buffer, whatever its size: the compare-exchange that follows a handled overflow uses
  the offset read before the flush, and succeeds when another thread has filled the buffer again
  to that offset.\<close>

theorem overrun_is_reachable:
  assumes "new_MiniTrace info data events sz now = Inr t" and "14 \<le> sz"
    and "kernel data = Inr (14 * (nat sz div 14)) # ks" and "log_ok e"
  shows "\<exists>c c'. reachable t c \<and> pcs c 1 = AtWrite e (14 * (nat sz div 14)) \<and>
     length (trace_buf (tracer c)) < 14 * (nat sz div 14) + 14 \<and> cstep c c' \<and> faulted c'"
proof -
  let ?n = "nat sz div 14"
  note new = new_trace_inv [OF assms(1,2)]
  obtain t' h where r: "reachable t \<lparr>tracer = t', trace_lock = None, pcs = (\<lambda>_. Idle)(1 := AtCas e (14 * ?n)),
       faulted = False, history = h\<rparr>" (is "reachable t ?c")
     and t': "trace_inv t'" "buffer_size t' = sz" "cur_offset t' = 14 * ?n"
    using aba_run [OF new(1,3,4,2) assms(4)] new(5) assms(3) by auto
  let ?d = "at 1 (AtWrite e (14 * ?n)) (?c\<lparr>tracer := t'\<lparr>cur_offset := 14 * ?n + 14\<rparr>, history := h @ [e]\<rparr>)"
  have "cstep ?c ?d" using CasOk [of ?c 1 e "14 * ?n"] t'(3) by (simp add: kMiniTraceRecordSize_def)
  then have rd: "reachable t ?d" using r by (rule reachable.step [rotated])
  have len: "length (trace_buf t') < 14 * ?n + 14" using t'(1,2) by (auto simp: trace_inv_def)
  then have "put_field e (trace_buf t') (14 * ?n) = Inl OutOfBounds"
    using field_writer.put_eq [of e "trace_buf t'" "14 * ?n"] by simp
  then have "cstep ?d (?d\<lparr>faulted := True\<rparr>)" by (intro WriteFault [of _ 1 e "14 * ?n"]) simp_all
  with rd len show ?thesis by (intro exI [of _ ?d] exI [of _ "?d\<lparr>faulted := True\<rparr>"]) simp
qed

text \<open>C18: a flush does not wait for threads that have reserved a slot and not yet written
  it. After a flush by thread 2 two threads can be about to write their records to the same
  slot, and the flushed zeros of the unwritten slot are filed as a method at address zero.\<close>

theorem unwritten_slot_is_flushed:
  assumes "new_MiniTrace info data events sz now = Inr t" and "14 \<le> sz"
    and "kernel data = Inr (14 * (nat sz div 14)) # ks" and "log_ok e" and "log_ok e'"
  shows "\<exists>c. reachable t c \<and> pcs c 1 = AtWrite e 0 \<and> pcs c 2 = AtWrite e' 0 \<and>
     0 \<in> visited_methods (tracer c)"
proof -
  let ?n = "nat sz div 14"
  have n: "0 < ?n" "int (14 * ?n) \<le> sz" "sz < int (14 * ?n + 14)"
    using assms(2) by (auto simp: div_greater_zero_iff le_nat_iff)
  have slots: "14 + 14 * (?n - Suc 0) = 14 * ?n" using n(1) by (cases ?n) auto
  note new = new_trace_inv [OF assms(1,2)]
  have buf: "trace_buf t = replicate (nat sz) 0" using assms(1) by (auto simp: new_MiniTrace_def split: if_splits)
  let ?t1 = "t\<lparr>cur_offset := 14\<rparr>"
  let ?c1 = "at 1 (AtWrite e 0) ((initial t)\<lparr>tracer := ?t1, history := [e]\<rparr>)"
  have run1: "rtranclp cstep (initial t) ?c1"
    using pass_to_cas [of "initial t" 1 e] new(2,3) assms(2) by (simp add: initial_def)
  have zero: "aid_at (replicate m 0) 0 = 0" if "14 \<le> m" for m
    using that by (simp add: aid_at_def le32_def)
  have inv1: "trace_inv ?t1"
    using new(1,2) assms(2) zero [of "nat sz"]
    by (auto simp: trace_inv_def records_ok_def buf DecodeMiniTraceAction_def action_of_code_def)
  obtain t2 h2 where t2: "rtranclp cstep ?c1 (?c1\<lparr>tracer := t2, history := h2\<rparr>)" "trace_inv t2"
      "cur_offset t2 = 14 * ?n" "buffer_size t2 = sz" "trace_data_file t2 = data" "buffer_overflow_count t2 = 0"
      "take 14 (trace_buf t2) = take 14 (trace_buf t)"
    using fill [of ?c1 2 e "?n - 1"] inv1 assms(4) n new slots by (auto simp: initial_def)
  obtain f where f: "WriteFully (take (cur_offset t2) (trace_buf t2)) (trace_data_file t2) = (True, f)"
    using fresh_flush [OF t2(2) _ t2(4,3)] t2(5) assms(3) by auto
  let ?c2 = "?c1\<lparr>tracer := t2, history := h2\<rparr>" and ?t3 = "flushed f (t2\<lparr>buffer_overflow_count := 1\<rparr>)"
  let ?c3 = "at 2 (AtCas e' (14 * ?n)) (?c2\<lparr>tracer := ?t3\<rparr>)"
  have run3: "rtranclp cstep ?c2 ?c3"
    using flush_pass [of ?c2 2 f e'] t2 f n(3) by (simp add: initial_def)
  let ?c4 = "at 2 (AtLoad e') ?c3" and ?c5 = "at 2 (AtCheck e' 0) ?c3" and ?c6 = "at 2 (AtCas e' 0) ?c3"
  let ?c7 = "at 2 (AtWrite e' 0) (?c6\<lparr>tracer := ?t3\<lparr>cur_offset := 14\<rparr>, history := h2 @ [e']\<rparr>)"
  have "cstep ?c3 ?c4" using CasFail [of ?c3 2 e' "14 * ?n"] by simp
  moreover have "cstep ?c4 ?c5" using Load [of ?c4 2 e'] by (simp add: flushed_def)
  moreover have "cstep ?c5 ?c6"
    using Room [of ?c5 2 e' 0] assms(2) t2(4) by (simp add: kMiniTraceRecordSize_def flushed_def)
  moreover have "cstep ?c6 ?c7" using CasOk [of ?c6 2 e' 0] by (simp add: kMiniTraceRecordSize_def flushed_def)
  ultimately have "rtranclp cstep ?c3 ?c7" by (meson converse_rtranclp_into_rtranclp rtranclp.rtrancl_refl)
  then have "reachable t ?c7"
    using run1 t2(1) run3 by (meson reachable_rtranclp reachable.start rtranclp_trans)
  moreover have "0 \<in> visited_methods (tracer ?c7)"
  proof -
    have "trace_buf t2 ! k = trace_buf t ! k" if "k < 14" for k
      using arg_cong [OF t2(7), of "\<lambda>l. l ! k"] that by simp
    then have "aid_at (trace_buf t2) 0 = aid_at (trace_buf t) 0" by (simp add: aid_at_def)
    with zero [of "nat sz"] assms(2) have "aid_at (trace_buf t2) 0 = 0" by (simp add: buf)
    then have "0 \<in> methods_in (trace_buf t2) {..<?n}"
      using n(1) unfolding methods_in_def
      by (intro image_eqI [of _ _ 0]) (simp_all add: DecodeMiniTraceMethodId_def DecodeMiniTraceAction_def action_of_code_def)
    then show ?thesis by (simp add: flushed_def t2(3))
  qed
  ultimately show ?thesis by (intro exI [of _ ?c7]) simp
qed

section \<open>Witnesses\<close>

abbreviation sample_event :: event where
  "sample_event \<equiv> (77, 0x70002000, kMiniTraceFieldRead, 0x12345678, 9)"

lemma sample_event_ok: "log_ok sample_event"
  by (simp add: log_ok_def aligned8_def)

text \<open>Thread 1 has reserved the first slot of the sample buffer.\<close>

definition sample_config :: config where
  "sample_config = at 1 (AtWrite sample_event 0) ((initial sample_trace)
     \<lparr>tracer := sample_trace\<lparr>cur_offset := 14\<rparr>, history := [sample_event]\<rparr>)"

lemma sample_config_reachable: "reachable sample_trace sample_config"
proof -
  have "rtranclp cstep (initial sample_trace) sample_config"
    using pass_to_cas [of "initial sample_trace" 1 sample_event] by (simp add: initial_def sample_config_def)
  then show ?thesis by (rule reachable_rtranclp) (rule reachable.start)
qed

lemma sample_count: "buffer_overflow_count (tracer sample_config) = 0"
  by (simp add: sample_config_def)

theorem no_fault_before_overflow_witness:
  "reachable sample_trace sample_config \<and> pcs sample_config 1 = AtWrite sample_event 0 \<and> \<not> faulted sample_config"
  using no_fault_before_overflow [OF sample_trace_new sample_config_reachable sample_count]
    sample_config_reachable
  by (simp add: sample_config_def)

text \<open>Thread 1 has filled the sample buffer and holds the lock to flush it.\<close>

lemma sample_flusher: "\<exists>c. reachable sample_trace c \<and> holds (pcs c 1)"
proof -
  obtain t1 h1 where t1: "rtranclp cstep (initial sample_trace) ((initial sample_trace)\<lparr>tracer := t1, history := h1\<rparr>)"
      "cur_offset t1 = 28" "buffer_size t1 = 28" "buffer_overflow_count t1 = 0"
    using fill [of "initial sample_trace" 1 sample_event 2] sample_event_ok by (auto simp: initial_def)
  let ?c = "(initial sample_trace)\<lparr>tracer := t1, history := h1\<rparr>" and ?e = sample_event
  have "cstep ?c (at 1 (AtLoad ?e) ?c)" by (rule Enter) (simp add: initial_def)
  moreover have "cstep (at 1 (AtLoad ?e) ?c) (at 1 (AtCheck ?e 28) ?c)"
    using Load [of "at 1 (AtLoad ?e) ?c" 1 ?e] t1(2) by simp
  moreover have "cstep (at 1 (AtCheck ?e 28) ?c) (at 1 (AtOverflow ?e 28) ?c)"
    using Full [of "at 1 (AtCheck ?e 28) ?c" 1 ?e 28] t1(3) by (simp add: kMiniTraceRecordSize_def)
  moreover have "cstep (at 1 (AtOverflow ?e 28) ?c) (at 1 (AtLock ?e 28 0) ?c)"
    using ReadCount [of "at 1 (AtOverflow ?e 28) ?c" 1 ?e 28] t1(4) by simp
  moreover have "cstep (at 1 (AtLock ?e 28 0) ?c) (at 1 (AtLocked ?e 28 0) (?c\<lparr>trace_lock := Some 1\<rparr>))"
    using Lock [of "at 1 (AtLock ?e 28 0) ?c" 1 ?e 28 0] by (simp add: initial_def)
  ultimately have "reachable sample_trace (at 1 (AtLocked ?e 28 0) (?c\<lparr>trace_lock := Some 1\<rparr>))"
    using t1(1) by (meson reachable_rtranclp reachable.step reachable.start)
  then show ?thesis
    by (intro exI [of _ "at 1 (AtLocked ?e 28 0) (?c\<lparr>trace_lock := Some 1\<rparr>)"] conjI) simp_all
qed

theorem one_flusher_witness:
  "\<exists>c. reachable sample_trace c \<and> holds (pcs c 1) \<and> trace_lock c = Some 1"
  using sample_flusher one_flusher by blast


theorem overrun_is_reachable_witness:
  "\<exists>c c'. reachable sample_trace c \<and> pcs c 1 = AtWrite sample_event 28 \<and> cstep c c' \<and> faulted c'"
  using overrun_is_reachable [OF sample_trace_new, of "[]" sample_event] sample_event_ok
  by (auto simp: new_FdFile_def)

theorem unwritten_slot_is_flushed_witness:
  "\<exists>c. reachable sample_trace c \<and> pcs c 1 = AtWrite sample_event 0 \<and> pcs c 2 = AtWrite sample_event 0"
  using unwritten_slot_is_flushed [OF sample_trace_new, of "[]" sample_event sample_event] sample_event_ok
  by (auto simp: new_FdFile_def)

end
