(* ===== verification/Instrumentation_Stack.thy ===== *)
theory Instrumentation_Stack
  imports Instrumentation
begin

text \<open>
  The side stack of runtime/instrumentation.cc: InstrumentationInstallStack replaces the return
  address of every compiled frame of a thread by the address of the exit stub and remembers the
  real one, InstrumentationRestoreStack undoes it, Push- and PopInstrumentationStackFrame and
  PopMethodForUnwind work on the side stack when an instrumented method is entered or left.

  A stack walk is the list of the frames StackVisitor::WalkStack(true) visits, newest first;
  a frame's id (GetFrameId) is its height plus one, so the head of a list of n frames has
  id n. The address of the exit stub and the map from native to dex program counters
  (ArtMethod::ToDexPc, which reads tables of the compiled code) are arguments. The callbacks
  get the heap, the listener and the event, as in \<open>Instrumentation\<close>.
\<close>

record Frame =
  fr_method :: "ptr option"        \<comment> \<open>GetMethod, null for an upcall\<close>
  fr_quick :: bool                 \<comment> \<open>GetCurrentQuickFrame is not null\<close>
  fr_return_pc :: u32
  fr_dex_pc :: u32
  fr_this :: ptr

record InstrumentationStackFrame =
  this_object :: ptr
  is_method :: ptr
  is_return_pc :: u32
  frame_id :: nat
  interpreter_entry :: bool

record ThreadStack =
  th_tid :: u32
  th_frames :: "Frame list"
  instrumentation_stack :: "InstrumentationStackFrame list"

type_synonym to_dex_pc = "ptr \<Rightarrow> u32 \<Rightarrow> u32"
type_synonym 's enter_cb = "listener \<Rightarrow> u32 \<Rightarrow> ptr \<Rightarrow> ptr \<Rightarrow> u32 \<Rightarrow> 's \<Rightarrow> 's res"
type_synonym 's exit_cb = "listener \<Rightarrow> u32 \<Rightarrow> ptr \<Rightarrow> ptr \<Rightarrow> u32 \<Rightarrow> u64 \<Rightarrow> 's \<Rightarrow> 's res"

abbreviation kDexNoIndex :: u32 where "kDexNoIndex \<equiv> 0xFFFFFFFF"

definition ShouldNotifyMethodEnterExitEvents :: "Instrumentation \<Rightarrow> bool" where
  "ShouldNotifyMethodEnterExitEvents i =
     (if \<not> have_method_entry_listeners i \<and> \<not> have_method_exit_listeners i then False
      else \<not> deoptimization_enabled i \<and> \<not> interpreter_stubs_installed i)"

section \<open>Installing exit stubs\<close>

record InstallStackVisitor =
  v_stack :: "InstrumentationStackFrame list"
  v_shadow :: "InstrumentationStackFrame list"
  v_dex_pcs :: "u32 list"
  v_reached :: bool
  v_depth :: nat
  v_last_return_pc :: u32

fun insert_frame :: "InstrumentationStackFrame \<Rightarrow> InstrumentationStackFrame list \<Rightarrow> InstrumentationStackFrame list" where
  "insert_frame x [] = [x]"
| "insert_frame x (c # cs) = (if frame_id x \<ge> frame_id c then x # c # cs else c # insert_frame x cs)"

definition stack_at :: "InstrumentationStackFrame list \<Rightarrow> nat \<Rightarrow> InstrumentationStackFrame res" where
  "stack_at st d = (if d < length st then Inr (st ! d) else Inl CheckFailed)"

text \<open>VisitFrame of InstallStackVisitor; \<open>fid\<close> is GetFrameId.\<close>

definition Install_VisitFrame ::
    "art_heap \<Rightarrow> u32 \<Rightarrow> to_dex_pc \<Rightarrow> nat \<Rightarrow> Frame \<Rightarrow> InstallStackVisitor \<Rightarrow> (Frame \<times> InstallStackVisitor) res" where
  "Install_VisitFrame h exit_pc to_pc fid fr v =
     (case fr_method fr of
        None \<Rightarrow> Inr (fr, v\<lparr>v_last_return_pc := 0\<rparr>)
      | Some m \<Rightarrow>
          if \<not> fr_quick fr
          then Inr (fr, v\<lparr>v_shadow := v_shadow v @ [\<lparr>this_object = fr_this fr, is_method = m,
                   is_return_pc = 0, frame_id = fid, interpreter_entry = True\<rparr>]\<rparr>)
          else
            let return_pc = fr_return_pc fr in
            rbind (deref (methods h) m) (\<lambda>am.
            if IsRuntimeMethod am
            then if return_pc = exit_pc
                 then rbind (stack_at (v_stack v) (v_depth v)) (\<lambda>frame.
                      rbind (check (interpreter_entry frame) CheckFailed) (\<lambda>_.
                      Inr (fr, v\<lparr>v_dex_pcs := v_dex_pcs v @ [0], v_last_return_pc := is_return_pc frame,
                                 v_depth := v_depth v + 1\<rparr>)))
                 else Inr (fr, v\<lparr>v_last_return_pc := return_pc\<rparr>)
            else
              rbind (if return_pc = exit_pc
                     then rbind (stack_at (v_stack v) (v_depth v)) (\<lambda>frame.
                          rbind (check (m = is_method frame) CheckFailed) (\<lambda>_.
                          Inr (fr, is_return_pc frame, v\<lparr>v_reached := True\<rparr>)))
                     else rbind (check (return_pc \<noteq> 0) CheckFailed) (\<lambda>_.
                          rbind (check (\<not> v_reached v) CheckFailed) (\<lambda>_.
                          Inr (fr\<lparr>fr_return_pc := exit_pc\<rparr>, return_pc,
                               v\<lparr>v_stack := insert_frame \<lparr>this_object = fr_this fr, is_method = m,
                                   is_return_pc = return_pc, frame_id = fid, interpreter_entry = False\<rparr>
                                   (v_stack v)\<rparr>))))
                (\<lambda>(fr, return_pc, v).
                   Inr (fr, v\<lparr>v_dex_pcs := v_dex_pcs v @ [to_pc m (v_last_return_pc v)],
                              v_last_return_pc := return_pc, v_depth := v_depth v + 1\<rparr>))))"

text \<open>The walk, newest frame first.\<close>

fun Install_WalkStack ::
    "art_heap \<Rightarrow> u32 \<Rightarrow> to_dex_pc \<Rightarrow> Frame list \<Rightarrow> InstallStackVisitor \<Rightarrow> (Frame list \<times> InstallStackVisitor) res" where
  "Install_WalkStack h exit_pc to_pc [] v = Inr ([], v)"
| "Install_WalkStack h exit_pc to_pc (fr # frs) v =
     rbind (Install_VisitFrame h exit_pc to_pc (length (fr # frs)) fr v) (\<lambda>(fr', v).
     rbind (Install_WalkStack h exit_pc to_pc frs v) (\<lambda>(frs', v). Inr (fr' # frs', v)))"

text \<open>The enter events for the methods already on the stack, oldest first: the arguments
  are the reversed lists.\<close>

fun post_shadow ::
    "'s enter_cb \<Rightarrow> Instrumentation \<Rightarrow> u32 \<Rightarrow> nat \<Rightarrow> InstrumentationStackFrame list \<Rightarrow> 's \<Rightarrow>
     (InstrumentationStackFrame list \<times> 's) res" where
  "post_shadow cb i tid fid [] s = Inr ([], s)"
| "post_shadow cb i tid fid (ss # rest) s =
     (if frame_id ss < fid
      then rbind (MethodEnterEvent cb i tid (this_object ss) (is_method ss) 0 s) (post_shadow cb i tid fid rest)
      else Inr (ss # rest, s))"

fun post_enter_events ::
    "'s enter_cb \<Rightarrow> Instrumentation \<Rightarrow> u32 \<Rightarrow> InstrumentationStackFrame list \<Rightarrow> InstrumentationStackFrame list \<Rightarrow>
     u32 list \<Rightarrow> 's \<Rightarrow> 's res" where
  "post_enter_events cb i tid ssi [] pcs s = Inr s"
| "post_enter_events cb i tid ssi (is # rest) pcs s =
     rbind (post_shadow cb i tid (frame_id is) ssi s) (\<lambda>(ssi, s).
     rbind (if interpreter_entry is then Inr s
            else MethodEnterEvent cb i tid (this_object is) (is_method is) (hd pcs) s)
       (post_enter_events cb i tid ssi rest (tl pcs)))"

definition InstrumentationInstallStack ::
    "'s enter_cb \<Rightarrow> art_heap \<Rightarrow> u32 \<Rightarrow> to_dex_pc \<Rightarrow> Instrumentation \<Rightarrow> ThreadStack \<times> 's \<Rightarrow> (ThreadStack \<times> 's) res" where
  "InstrumentationInstallStack cb h exit_pc to_pc i ts = (case ts of (th, s) \<Rightarrow>
     rbind (Install_WalkStack h exit_pc to_pc (th_frames th)
              \<lparr>v_stack = instrumentation_stack th, v_shadow = [], v_dex_pcs = [], v_reached = False,
               v_depth = 0, v_last_return_pc = 0\<rparr>) (\<lambda>(frs, v).
     rbind (check (length (v_dex_pcs v) = length (v_stack v)) CheckFailed) (\<lambda>_.
     rbind (if ShouldNotifyMethodEnterExitEvents i
            then post_enter_events cb i (th_tid th) (rev (v_shadow v)) (rev (v_stack v)) (rev (v_dex_pcs v)) s
            else Inr s) (\<lambda>s.
     Inr (th\<lparr>th_frames := frs, instrumentation_stack := v_stack v\<rparr>, s)))))"

section \<open>Removing exit stubs\<close>

text \<open>VisitFrame of RestoreStackVisitor; the search stops at the first frame with this id.\<close>

definition Restore_VisitFrame ::
    "'s exit_cb \<Rightarrow> art_heap \<Rightarrow> Instrumentation \<Rightarrow> u32 \<Rightarrow> InstrumentationStackFrame list \<Rightarrow> nat \<Rightarrow> Frame \<Rightarrow> nat \<times> 's \<Rightarrow>
     (Frame \<times> nat \<times> 's) res" where
  "Restore_VisitFrame cb h i tid st fid fr rs = (case rs of (frames_removed, s) \<Rightarrow>
     if \<not> fr_quick fr then Inr (fr, frames_removed, s)
     else case fr_method fr of
            None \<Rightarrow> Inr (fr, frames_removed, s)
          | Some m \<Rightarrow>
              (case find (\<lambda>f. frame_id f = fid) st of
                 None \<Rightarrow> Inr (fr, frames_removed, s)
               | Some f \<Rightarrow>
                   rbind (check (if interpreter_entry f then m = refs_and_args_method h else m = is_method f) CheckFailed) (\<lambda>_.
                   rbind (if ShouldNotifyMethodEnterExitEvents i
                          then MethodExitEvent cb i tid (this_object f) m (fr_dex_pc fr) 0 s else Inr s) (\<lambda>s.
                   Inr (fr\<lparr>fr_return_pc := is_return_pc f\<rparr>, frames_removed + 1, s)))))"

fun Restore_WalkStack ::
    "'s exit_cb \<Rightarrow> art_heap \<Rightarrow> Instrumentation \<Rightarrow> u32 \<Rightarrow> InstrumentationStackFrame list \<Rightarrow> Frame list \<Rightarrow> nat \<times> 's \<Rightarrow>
     (Frame list \<times> nat \<times> 's) res" where
  "Restore_WalkStack cb h i tid st [] rs = Inr ([], rs)"
| "Restore_WalkStack cb h i tid st (fr # frs) rs =
     (if st = [] then Inr (fr # frs, rs)
      else rbind (Restore_VisitFrame cb h i tid st (length (fr # frs)) fr rs) (\<lambda>(fr', rs).
           rbind (Restore_WalkStack cb h i tid st frs rs) (\<lambda>(frs', rs). Inr (fr' # frs', rs))))"

definition InstrumentationRestoreStack ::
    "'s exit_cb \<Rightarrow> art_heap \<Rightarrow> Instrumentation \<Rightarrow> ThreadStack \<times> 's \<Rightarrow> (ThreadStack \<times> 's) res" where
  "InstrumentationRestoreStack cb h i ts = (case ts of (th, s) \<Rightarrow>
     let st = instrumentation_stack th in
     if 0 < length st
     then rbind (Restore_WalkStack cb h i (th_tid th) st (th_frames th) (0, s)) (\<lambda>(frs, frames_removed, s).
          rbind (check (frames_removed = length st) CheckFailed) (\<lambda>_.
          Inr (th\<lparr>th_frames := frs, instrumentation_stack := []\<rparr>, s)))
     else Inr (th, s))"

section \<open>Entering and leaving instrumented methods\<close>

definition PushInstrumentationStackFrame ::
    "'s enter_cb \<Rightarrow> Instrumentation \<Rightarrow> ptr \<Rightarrow> ptr \<Rightarrow> u32 \<Rightarrow> bool \<Rightarrow> ThreadStack \<times> 's \<Rightarrow> (ThreadStack \<times> 's) res" where
  "PushInstrumentationStackFrame cb i obj method lr interp ts = (case ts of (th, s) \<Rightarrow>
     let frame = \<lparr>this_object = obj, is_method = method, is_return_pc = lr,
                  frame_id = length (th_frames th), interpreter_entry = interp\<rparr>;
         th' = th\<lparr>instrumentation_stack := frame # instrumentation_stack th\<rparr> in
     rbind (if \<not> interp then MethodEnterEvent cb i (th_tid th) obj method 0 s else Inr s) (\<lambda>s. Inr (th', s)))"

definition CheckStackDepth :: "ThreadStack \<Rightarrow> InstrumentationStackFrame \<Rightarrow> nat \<Rightarrow> unit res" where
  "CheckStackDepth th frame delta = check (length (th_frames th) + delta = frame_id frame) CheckFailed"

definition pop_frame :: "ThreadStack \<Rightarrow> (InstrumentationStackFrame \<times> ThreadStack) res" where
  "pop_frame th = (case instrumentation_stack th of
     [] \<Rightarrow> Inl CheckFailed
   | frame # rest \<Rightarrow> Inr (frame, th\<lparr>instrumentation_stack := rest\<rparr>))"

text \<open>Where control goes after an instrumented return: to the caller, or into the
  deoptimization entry point with the caller's address and the value to return.\<close>

datatype return_to = ReturnTo u32 | Deoptimize_at u32 u64 bool

definition exit_value :: "string \<Rightarrow> u64 \<Rightarrow> u64 \<Rightarrow> u64" where
  "exit_value shorty gpr_result fpr_result =
     (if hd shorty = CHR ''V'' then 0
      else if hd shorty = CHR ''F'' \<or> hd shorty = CHR ''D'' then fpr_result
      else gpr_result)"

definition is_deoptimized :: "Instrumentation \<Rightarrow> ptr \<Rightarrow> bool" where
  "is_deoptimized i method \<longleftrightarrow> method \<in> set (deoptimized_methods i)"

text \<open>NthCallerVisitor(self, 1, true): the method of the second frame of the walk.\<close>

definition nth_caller :: "ThreadStack \<Rightarrow> ptr option" where
  "nth_caller th = (case th_frames th of _ # fr # _ \<Rightarrow> fr_method fr | _ \<Rightarrow> None)"

text \<open>\<open>forced\<close> is Dbg::IsForcedInterpreterNeededForUpcall.\<close>

definition PopInstrumentationStackFrame ::
    "'s exit_cb \<Rightarrow> art_heap \<Rightarrow> Instrumentation \<Rightarrow> (ptr \<Rightarrow> bool) \<Rightarrow> u64 \<Rightarrow> u64 \<Rightarrow> ThreadStack \<times> 's \<Rightarrow>
     (return_to \<times> ThreadStack \<times> 's) res" where
  "PopInstrumentationStackFrame cb h i forced gpr_result fpr_result ts = (case ts of (th, s) \<Rightarrow>
     rbind (pop_frame th) (\<lambda>(frame, th).
     rbind (CheckStackDepth th frame 0) (\<lambda>_.
     rbind (deref (methods h) (is_method frame)) (\<lambda>m.
     let return_pc = is_return_pc frame;
         return_value = exit_value (m_shorty m) gpr_result fpr_result in
     rbind (if \<not> interpreter_entry frame
            then MethodExitEvent cb i (th_tid th) (this_object frame) (is_method frame) kDexNoIndex return_value s
            else Inr s) (\<lambda>s.
     let deoptimize = (case nth_caller th of
           None \<Rightarrow> False
         | Some caller \<Rightarrow> interpreter_stubs_installed i \<or> is_deoptimized i caller \<or> forced caller) in
     if deoptimize
     then Inr (Deoptimize_at return_pc return_value (hd (m_shorty m) = CHR ''L''), th, s)
     else Inr (ReturnTo return_pc, th, s))))))"

definition PopMethodForUnwind ::
    "'s enter_cb \<Rightarrow> Instrumentation \<Rightarrow> bool \<Rightarrow> ThreadStack \<times> 's \<Rightarrow> (ThreadStack \<times> 's) res" where
  "PopMethodForUnwind cb i is_deoptimization ts = (case ts of (th, s) \<Rightarrow>
     rbind (pop_frame th) (\<lambda>(frame, th).
     rbind (if is_deoptimization then Inr s
            else MethodUnwindEvent cb i (th_tid th) (this_object frame) (is_method frame) kDexNoIndex s) (\<lambda>s.
     Inr (th, s))))"

section \<open>Install and restore\<close>

definition compiled :: "art_heap \<Rightarrow> Frame \<Rightarrow> bool" where
  "compiled h fr \<longleftrightarrow> fr_quick fr \<and> (case fr_method fr of None \<Rightarrow> False
     | Some m \<Rightarrow> (case methods h m of None \<Rightarrow> False | Some am \<Rightarrow> \<not> IsRuntimeMethod am))"

text \<open>A frame no exit stub has been installed in.\<close>

definition fresh_frame :: "art_heap \<Rightarrow> u32 \<Rightarrow> Frame \<Rightarrow> bool" where
  "fresh_frame h exit_pc fr \<longleftrightarrow> (case fr_method fr of
     None \<Rightarrow> True
   | Some m \<Rightarrow> fr_quick fr \<longrightarrow> methods h m \<noteq> None \<and> fr_return_pc fr \<noteq> exit_pc \<and>
        (compiled h fr \<longrightarrow> fr_return_pc fr \<noteq> 0))"

definition patched :: "art_heap \<Rightarrow> u32 \<Rightarrow> Frame \<Rightarrow> Frame" where
  "patched h exit_pc fr = (if compiled h fr then fr\<lparr>fr_return_pc := exit_pc\<rparr> else fr)"

fun side_frames :: "art_heap \<Rightarrow> Frame list \<Rightarrow> InstrumentationStackFrame list" where
  "side_frames h [] = []"
| "side_frames h (fr # frs) =
     (if compiled h fr
      then [\<lparr>this_object = fr_this fr, is_method = the (fr_method fr), is_return_pc = fr_return_pc fr,
             frame_id = length (fr # frs), interpreter_entry = False\<rparr>] else []) @ side_frames h frs"

lemma insert_frame_last:
  "\<forall>x \<in> set st. frame_id y < frame_id x \<Longrightarrow> insert_frame y st = st @ [y]"
  by (induction st) auto

lemma side_frames_id: "x \<in> set (side_frames h frs) \<Longrightarrow> 1 \<le> frame_id x \<and> frame_id x \<le> length frs"
  by (induction frs) (auto split: if_splits)

lemma Install_VisitFrame_fresh:
  assumes "fresh_frame h exit_pc fr" "\<forall>x \<in> set (v_stack v). fid < frame_id x" "\<not> v_reached v"
  shows "\<exists>v'. Install_VisitFrame h exit_pc to_pc fid fr v = Inr (patched h exit_pc fr, v') \<and>
     v_stack v' = v_stack v @ (if compiled h fr
       then [\<lparr>this_object = fr_this fr, is_method = the (fr_method fr), is_return_pc = fr_return_pc fr,
             frame_id = fid, interpreter_entry = False\<rparr>] else []) \<and>
     length (v_dex_pcs v') = length (v_dex_pcs v) + (if compiled h fr then 1 else 0) \<and> \<not> v_reached v'"
  using assms
  by (auto simp: Install_VisitFrame_def fresh_frame_def compiled_def patched_def insert_frame_last
      Let_def split: option.splits)

lemma Install_WalkStack_fresh:
  assumes "\<forall>fr \<in> set frs. fresh_frame h exit_pc fr" "\<forall>x \<in> set (v_stack v). length frs < frame_id x"
    "\<not> v_reached v"
  shows "\<exists>v'. Install_WalkStack h exit_pc to_pc frs v = Inr (map (patched h exit_pc) frs, v') \<and>
     v_stack v' = v_stack v @ side_frames h frs \<and>
     length (v_dex_pcs v') = length (v_dex_pcs v) + length (side_frames h frs)"
  using assms
proof (induction frs arbitrary: v)
  case (Cons fr frs)
  let ?x = "\<lparr>this_object = fr_this fr, is_method = the (fr_method fr), is_return_pc = fr_return_pc fr,
      frame_id = length (fr # frs), interpreter_entry = False\<rparr>"
  have "fresh_frame h exit_pc fr" "\<forall>x \<in> set (v_stack v). length (fr # frs) < frame_id x"
    using Cons.prems(1,2) by auto
  then obtain v1 where v1: "Install_VisitFrame h exit_pc to_pc (length (fr # frs)) fr v = Inr (patched h exit_pc fr, v1)"
      "v_stack v1 = v_stack v @ (if compiled h fr then [?x] else [])"
      "length (v_dex_pcs v1) = length (v_dex_pcs v) + (if compiled h fr then 1 else 0)" "\<not> v_reached v1"
    using Install_VisitFrame_fresh Cons.prems(3) by blast
  have "\<forall>x \<in> set (v_stack v1). length frs < frame_id x"
    using Cons.prems(2) unfolding v1(2) by (auto split: if_splits)
  then obtain v2 where "Install_WalkStack h exit_pc to_pc frs v1 = Inr (map (patched h exit_pc) frs, v2)"
      "v_stack v2 = v_stack v1 @ side_frames h frs"
      "length (v_dex_pcs v2) = length (v_dex_pcs v1) + length (side_frames h frs)"
    using Cons.IH [of v1] Cons.prems(1) v1(4) by auto
  with v1 show ?case by simp
qed simp

text \<open>What Restore finds for the frame with the highest remaining id.\<close>

lemma find_side_frame:
  assumes "\<forall>x \<in> set pre. length (fr # frs) < frame_id x"
  shows "find (\<lambda>f. frame_id f = length (fr # frs)) (pre @ side_frames h (fr # frs)) =
     (if compiled h fr
      then Some \<lparr>this_object = fr_this fr, is_method = the (fr_method fr), is_return_pc = fr_return_pc fr,
             frame_id = length (fr # frs), interpreter_entry = False\<rparr> else None)"
proof -
  have "find (\<lambda>f. frame_id f = length (fr # frs)) pre = None"
    using assms by (auto simp: find_None_iff)
  moreover have "find (\<lambda>f. frame_id f = length (fr # frs)) (side_frames h frs) = None"
    using side_frames_id [of _ h frs] by (force simp: find_None_iff)
  ultimately show ?thesis by (induction pre) auto
qed

lemma Restore_VisitFrame_side:
  assumes "\<forall>x \<in> set pre. length (fr # frs) < frame_id x"
  shows "Restore_VisitFrame cb h i tid (pre @ side_frames h (fr # frs)) (length (fr # frs)) (patched h exit_pc fr) (n, s) =
     rbind (if compiled h fr \<and> ShouldNotifyMethodEnterExitEvents i
            then MethodExitEvent cb i tid (fr_this fr) (the (fr_method fr)) (fr_dex_pc fr) 0 s else Inr s)
       (\<lambda>s. Inr (fr, n + (if compiled h fr then 1 else 0), s))"
proof (cases "compiled h fr")
  case True
  then obtain m where "fr_quick fr" "fr_method fr = Some m" by (auto simp: compiled_def split: option.splits)
  with True show ?thesis
    unfolding Restore_VisitFrame_def find_side_frame [OF assms] by (simp add: patched_def)
next
  case False
  then show ?thesis
    unfolding Restore_VisitFrame_def find_side_frame [OF assms] by (simp add: patched_def split: option.splits)
qed

text \<open>The exit events of the walk, newest frame first.\<close>

fun exit_events :: "'s exit_cb \<Rightarrow> art_heap \<Rightarrow> Instrumentation \<Rightarrow> u32 \<Rightarrow> Frame list \<Rightarrow> 's \<Rightarrow> 's res" where
  "exit_events cb h i tid [] s = Inr s"
| "exit_events cb h i tid (fr # frs) s =
     rbind (if compiled h fr \<and> ShouldNotifyMethodEnterExitEvents i
            then MethodExitEvent cb i tid (fr_this fr) (the (fr_method fr)) (fr_dex_pc fr) 0 s else Inr s)
       (exit_events cb h i tid frs)"

lemma exit_events_silent: "\<not> ShouldNotifyMethodEnterExitEvents i \<Longrightarrow> exit_events cb h i tid frs s = Inr s"
  by (induction frs arbitrary: s) simp_all

lemma Restore_WalkStack_side:
  assumes "\<forall>x \<in> set pre. length frs < frame_id x" "pre @ side_frames h frs \<noteq> []"
  shows "Restore_WalkStack cb h i tid (pre @ side_frames h frs) (map (patched h exit_pc) frs) (n, s) =
     rbind (exit_events cb h i tid frs s) (\<lambda>s. Inr (frs, n + length (side_frames h frs), s))"
  using assms
proof (induction frs arbitrary: pre n s)
  case (Cons fr frs)
  let ?x = "if compiled h fr then [\<lparr>this_object = fr_this fr, is_method = the (fr_method fr),
      is_return_pc = fr_return_pc fr, frame_id = length (fr # frs), interpreter_entry = False\<rparr>] else []"
  have st: "(pre @ ?x) @ side_frames h frs = pre @ side_frames h (fr # frs)" by simp
  have ids: "\<forall>x \<in> set (pre @ ?x). length frs < frame_id x" using Cons.prems(1) by auto
  define st where "st = pre @ side_frames h (fr # frs)"
  define c where "c = (if compiled h fr then 1 else (0 :: nat))"
  have ne: "st \<noteq> []" unfolding st_def by (rule Cons.prems(2))
  have walk: "Restore_WalkStack cb h i tid st (map (patched h exit_pc) frs) (n, s) =
      rbind (exit_events cb h i tid frs s) (\<lambda>s. Inr (frs, n + length (side_frames h frs), s))" for n s
    by (rule Cons.IH [OF ids, unfolded st, folded st_def, OF ne])
  have visit: "Restore_VisitFrame cb h i tid st (length (fr # frs)) (patched h exit_pc fr) (n, s) =
     rbind (if compiled h fr \<and> ShouldNotifyMethodEnterExitEvents i
            then MethodExitEvent cb i tid (fr_this fr) (the (fr_method fr)) (fr_dex_pc fr) 0 s else Inr s)
       (\<lambda>s. Inr (fr, n + c, s))"
    unfolding st_def c_def by (rule Restore_VisitFrame_side [OF Cons.prems(1)])
  have len: "length (side_frames h (fr # frs)) = c + length (side_frames h frs)" by (simp add: c_def)
  have "Restore_WalkStack cb h i tid st (map (patched h exit_pc) (fr # frs)) (n, s) =
     rbind (exit_events cb h i tid (fr # frs) s) (\<lambda>s. Inr (fr # frs, n + (c + length (side_frames h frs)), s))"
    using ne visit by (simp add: walk rbind_assoc add.assoc)
  then show ?case unfolding len by (simp only: st_def)
qed simp

lemma side_frames_Nil: "side_frames h frs = [] \<Longrightarrow> map (patched h exit_pc) frs = frs"
  by (induction frs) (auto simp: patched_def)

text \<open>C6: installing exit stubs on a thread without them replaces the return address of
  exactly its compiled frames and records the real ones; removing the stubs gives back the
  thread as it was, on every path, and without method listeners both always succeed.\<close>

theorem restore_undoes_install:
  assumes "instrumentation_stack th = []" and "\<forall>fr \<in> set (th_frames th). fresh_frame h exit_pc fr"
    and "InstrumentationInstallStack cb h exit_pc to_pc i (th, s) = Inr (th1, s1)"
  shows "th_frames th1 = map (patched h exit_pc) (th_frames th) \<and>
     instrumentation_stack th1 = side_frames h (th_frames th) \<and>
     InstrumentationRestoreStack cb' h i' (th1, s') =
       (if side_frames h (th_frames th) = [] then Inr (th, s')
        else rbind (exit_events cb' h i' (th_tid th) (th_frames th) s') (\<lambda>s'. Inr (th, s')))"
proof -
  let ?fs = "th_frames th"
  obtain v where v: "Install_WalkStack h exit_pc to_pc ?fs \<lparr>v_stack = [], v_shadow = [], v_dex_pcs = [],
       v_reached = False, v_depth = 0, v_last_return_pc = 0\<rparr> = Inr (map (patched h exit_pc) ?fs, v)"
      "v_stack v = side_frames h ?fs"
    using Install_WalkStack_fresh [OF assms(2), of "\<lparr>v_stack = [], v_shadow = [], v_dex_pcs = [],
       v_reached = False, v_depth = 0, v_last_return_pc = 0\<rparr>" to_pc] by auto
  with assms(1,3) have th1: "th1 = th\<lparr>th_frames := map (patched h exit_pc) ?fs, instrumentation_stack := side_frames h ?fs\<rparr>"
    by (auto simp: InstrumentationInstallStack_def rbind_eq_Inr)
  have same: "th\<lparr>instrumentation_stack := []\<rparr> = th" using assms(1) by simp
  show ?thesis
  proof (cases "side_frames h ?fs = []")
    case True
    then have "map (patched h exit_pc) ?fs = ?fs" by (rule side_frames_Nil)
    with True th1 same assms(1) show ?thesis by (simp add: InstrumentationRestoreStack_def)
  next
    case False
    with Restore_WalkStack_side [of "[]" ?fs h cb' i' "th_tid th" exit_pc 0 s'] th1 same show ?thesis
      by (simp add: InstrumentationRestoreStack_def rbind_assoc)
  qed
qed

definition sample_thread :: ThreadStack where
  "sample_thread = \<lparr>th_tid = 77, th_frames =
     [\<lparr>fr_method = Some 0x70001230, fr_quick = True, fr_return_pc = 0x5000, fr_dex_pc = 3, fr_this = 8\<rparr>,
      \<lparr>fr_method = None, fr_quick = True, fr_return_pc = 0, fr_dex_pc = 0, fr_this = 0\<rparr>],
     instrumentation_stack = []\<rparr>"

lemma sample_thread_compiled:
  "compiled sample_heap \<lparr>fr_method = Some 0x70001230, fr_quick = True, fr_return_pc = pc, fr_dex_pc = 3, fr_this = 8\<rparr>"
  by (simp add: compiled_def IsRuntimeMethod_def) (simp add: sample_method_def)

lemma sample_install:
  "\<exists>th1. InstrumentationInstallStack (\<lambda>_ _ _ _ _. Inr) sample_heap 0x9990 (\<lambda>_ _. 0) new_Instrumentation (sample_thread, ()) = Inr (th1, ())"
  by (simp add: InstrumentationInstallStack_def sample_thread_def Install_VisitFrame_def IsRuntimeMethod_def
      sample_method_def [unfolded] ShouldNotifyMethodEnterExitEvents_def new_Instrumentation_def)

theorem restore_undoes_install_witness:
  "\<exists>th1. InstrumentationInstallStack (\<lambda>_ _ _ _ _. Inr) sample_heap 0x9990 (\<lambda>_ _. 0) new_Instrumentation (sample_thread, ()) = Inr (th1, ()) \<and>
     map fr_return_pc (th_frames th1) = [0x9990, 0] \<and>
     InstrumentationRestoreStack (\<lambda>_ _ _ _ _ _. Inr) sample_heap new_Instrumentation (th1, ()) = Inr (sample_thread, ())"
proof -
  obtain th1 where th1: "InstrumentationInstallStack (\<lambda>_ _ _ _ _. Inr) sample_heap 0x9990 (\<lambda>_ _. 0) new_Instrumentation
      (sample_thread, ()) = Inr (th1, ())"
    using sample_install by blast
  have "\<forall>fr \<in> set (th_frames sample_thread). fresh_frame sample_heap 0x9990 fr"
    by (simp add: sample_thread_def fresh_frame_def)
  from restore_undoes_install [OF _ this th1, of "\<lambda>_ _ _ _ _ _. Inr" new_Instrumentation "()"]
  have "th_frames th1 = map (patched sample_heap 0x9990) (th_frames sample_thread)"
      "InstrumentationRestoreStack (\<lambda>_ _ _ _ _ _. Inr) sample_heap new_Instrumentation (th1, ()) = Inr (sample_thread, ())"
    by (auto simp: sample_thread_def exit_events_silent ShouldNotifyMethodEnterExitEvents_def new_Instrumentation_def)
  with th1 show ?thesis
    by (simp add: sample_thread_def patched_def sample_thread_compiled) (simp add: compiled_def)
qed

section \<open>Installing again\<close>

lemma Install_VisitFrame_again:
  assumes "fresh_frame h exit_pc fr"
    and "compiled h fr \<Longrightarrow> v_depth v < length (v_stack v) \<and> is_method (v_stack v ! v_depth v) = the (fr_method fr)"
  shows "\<exists>v'. Install_VisitFrame h exit_pc to_pc fid (patched h exit_pc fr) v = Inr (patched h exit_pc fr, v') \<and>
     v_stack v' = v_stack v \<and> v_depth v' = v_depth v + (if compiled h fr then 1 else 0) \<and>
     length (v_dex_pcs v') = length (v_dex_pcs v) + (if compiled h fr then 1 else 0)"
proof (cases "compiled h fr")
  case True
  then obtain m am where "fr_quick fr" "fr_method fr = Some m" "methods h m = Some am" "\<not> IsRuntimeMethod am"
    by (auto simp: compiled_def split: option.splits)
  with True assms(2) show ?thesis by (simp add: Install_VisitFrame_def patched_def stack_at_def)
next
  case False
  with assms(1) show ?thesis
    by (auto simp: Install_VisitFrame_def patched_def fresh_frame_def compiled_def split: option.splits)
qed

lemma Install_WalkStack_again:
  assumes "\<forall>fr \<in> set frs. fresh_frame h exit_pc fr" "v_stack v = pre @ side_frames h frs" "v_depth v = length pre"
  shows "\<exists>v'. Install_WalkStack h exit_pc to_pc (map (patched h exit_pc) frs) v = Inr (map (patched h exit_pc) frs, v') \<and>
     v_stack v' = v_stack v \<and> length (v_dex_pcs v') = length (v_dex_pcs v) + length (side_frames h frs)"
  using assms
proof (induction frs arbitrary: v pre)
  case (Cons fr frs)
  let ?x = "if compiled h fr then [\<lparr>this_object = fr_this fr, is_method = the (fr_method fr),
      is_return_pc = fr_return_pc fr, frame_id = length (fr # frs), interpreter_entry = False\<rparr>] else []"
  have fresh: "fresh_frame h exit_pc fr" using Cons.prems(1) by simp
  have "compiled h fr \<Longrightarrow> v_depth v < length (v_stack v) \<and> is_method (v_stack v ! v_depth v) = the (fr_method fr)"
    unfolding Cons.prems(2,3) by simp
  then obtain v1 where v1: "Install_VisitFrame h exit_pc to_pc (length (fr # frs)) (patched h exit_pc fr) v =
        Inr (patched h exit_pc fr, v1)"
      "v_stack v1 = v_stack v" "v_depth v1 = length (pre @ ?x)" "length (v_dex_pcs v1) = length (v_dex_pcs v) + length ?x"
    using Install_VisitFrame_again [OF fresh, of v to_pc "length (fr # frs)"] Cons.prems(3)
    by (auto split: if_splits)
  have "v_stack v1 = (pre @ ?x) @ side_frames h frs" using v1(2) Cons.prems(2) by simp
  then obtain v2 where "Install_WalkStack h exit_pc to_pc (map (patched h exit_pc) frs) v1 = Inr (map (patched h exit_pc) frs, v2)"
      "v_stack v2 = v_stack v1" "length (v_dex_pcs v2) = length (v_dex_pcs v1) + length (side_frames h frs)"
    using Cons.IH [of v1 "pre @ ?x"] v1(3) Cons.prems(1) by auto
  with v1 show ?case by simp
qed simp

text \<open>Installing exit stubs on a thread that has them in all its compiled frames
  changes nothing.\<close>

lemma install_is_idempotent:
  assumes "\<forall>fr \<in> set frs. fresh_frame h exit_pc fr" and "th_frames th = map (patched h exit_pc) frs"
    and "instrumentation_stack th = side_frames h frs" and "\<not> ShouldNotifyMethodEnterExitEvents i"
  shows "InstrumentationInstallStack cb h exit_pc to_pc i (th, s) = Inr (th, s)"
proof -
  let ?v = "\<lparr>v_stack = side_frames h frs, v_shadow = [], v_dex_pcs = [], v_reached = False, v_depth = 0,
      v_last_return_pc = 0\<rparr>"
  obtain v where "Install_WalkStack h exit_pc to_pc (th_frames th) ?v = Inr (th_frames th, v)"
      "v_stack v = side_frames h frs" "length (v_dex_pcs v) = length (side_frames h frs)"
    using Install_WalkStack_again [OF assms(1), of ?v "[]" to_pc] assms(2) by auto
  moreover have "th\<lparr>instrumentation_stack := side_frames h frs\<rparr> = th" using assms(3) by auto
  ultimately show ?thesis using assms(3,4) by (simp add: InstrumentationInstallStack_def)
qed

text \<open>C19: leaving a method right after entering it gives back the side stack, returns to
  the saved address (or deoptimizes there when the caller has to continue in the interpreter),
  and posts the exit event with the value the method's shorty selects.\<close>

theorem pop_undoes_push:
  assumes "PushInstrumentationStackFrame cb i obj method lr interp (th, s) = Inr (th1, s1)"
    and "methods h method = Some m"
  shows "PopInstrumentationStackFrame cb' h i forced gpr fpr (th1, s1) =
     rbind (if interp then Inr s1
            else MethodExitEvent cb' i (th_tid th) obj method kDexNoIndex (exit_value (m_shorty m) gpr fpr) s1)
       (\<lambda>s2. Inr (if (case nth_caller th of None \<Rightarrow> False
                      | Some c \<Rightarrow> interpreter_stubs_installed i \<or> is_deoptimized i c \<or> forced c)
                   then Deoptimize_at lr (exit_value (m_shorty m) gpr fpr) (hd (m_shorty m) = CHR ''L'')
                   else ReturnTo lr, th, s2))"
proof -
  have "th1 = th\<lparr>instrumentation_stack := \<lparr>this_object = obj, is_method = method, is_return_pc = lr,
      frame_id = length (th_frames th), interpreter_entry = interp\<rparr> # instrumentation_stack th\<rparr>"
    using assms(1) by (auto simp: PushInstrumentationStackFrame_def Let_def rbind_eq_Inr)
  then show ?thesis
    using assms(2)
    by (auto simp: PopInstrumentationStackFrame_def pop_frame_def CheckStackDepth_def nth_caller_def Let_def
        rbind_def split: sum.splits)
qed

theorem pop_undoes_push_witness:
  "\<exists>th1. PushInstrumentationStackFrame (\<lambda>_ _ _ _ _. Inr) new_Instrumentation 8 0x70001230 0x5000 True (sample_thread, ()) = Inr (th1, ()) \<and>
     PopInstrumentationStackFrame (\<lambda>_ _ _ _ _ _. Inr) sample_heap new_Instrumentation (\<lambda>_. False) 1 2 (th1, ()) =
       Inr (ReturnTo 0x5000, sample_thread, ())"
proof -
  obtain th1 where th1: "PushInstrumentationStackFrame (\<lambda>_ _ _ _ _. Inr) new_Instrumentation 8 0x70001230 0x5000 True
      (sample_thread, ()) = Inr (th1, ())"
    by (simp add: PushInstrumentationStackFrame_def Let_def)
  have "nth_caller sample_thread = None" by (simp add: nth_caller_def sample_thread_def)
  with pop_undoes_push [OF th1, of sample_heap sample_method "\<lambda>_ _ _ _ _ _. Inr" "\<lambda>_. False" 1 2] th1
  show ?thesis by simp
qed

end
