(* ===== verification/Instrumentation_Stubs.thy ===== *)
theory Instrumentation_Stubs
  imports Instrumentation_Stack
begin

text \<open>
  The code side of runtime/instrumentation.cc: which code an ArtMethod is entered through, for
  which classes stubs are installed, the instrumentation level the clients ask for, and the
  deoptimization of single methods and of everything.

  \<open>vm\<close> holds what these functions change: the heap with the methods' entry points, the
  Instrumentation object, the stacks of the threads, and the state of the listeners, on which
  the callbacks of \<open>env\<close> work.
\<close>

record 's vm =
  vm_heap :: art_heap
  vm_instr :: Instrumentation
  vm_threads :: "ThreadStack list"
  vm_state :: 's

record 's env =
  exit_pc :: u32
  to_pc :: to_dex_pc
  on_entered :: "art_heap \<Rightarrow> 's enter_cb"
  on_exited :: "art_heap \<Rightarrow> 's exit_cb"

section \<open>Entry points of a method\<close>

definition set_method :: "ptr \<Rightarrow> ArtMethod \<Rightarrow> art_heap \<Rightarrow> art_heap" where
  "set_method mp m h = h\<lparr>methods := (methods h)(mp \<mapsto> m)\<rparr>"

definition UpdateEntrypoints :: "Instrumentation \<Rightarrow> ptr \<Rightarrow> quick_code \<Rightarrow> art_heap \<Rightarrow> art_heap res" where
  "UpdateEntrypoints i mp quick_code h =
     rbind (deref (methods h) mp) (\<lambda>m.
     let old_code_ptr = entry_point_from_quick_compiled_code m;
         h = (case jit_code_map h of
                None \<Rightarrow> h
              | Some cache \<Rightarrow>
                  if ContainsCodePtr old_code_ptr
                  then h\<lparr>jit_code_map := Some (SaveCompiledCode mp old_code_ptr cache)\<rparr> else h);
         m = m\<lparr>entry_point_from_quick_compiled_code := quick_code\<rparr> in
     if mp = resolution_method h then Inr (set_method mp m h)
     else
       rbind (if IsQuickToInterpreterBridge quick_code then Inr True
              else if IsQuickResolutionStub quick_code \<and> forced_interpret_only i \<and> \<not> IsNative m
              then rbind (IsProxyMethod h m) (\<lambda>proxy. Inr (\<not> proxy)) else Inr False) (\<lambda>interp.
       Inr (set_method mp (m\<lparr>entry_point_from_interpreter :=
              (if interp then InterpreterToInterpreterBridge else InterpreterToCompiledCodeBridge)\<rparr>) h)))"

text \<open>The code InstallStubsForMethod chooses.\<close>

definition stub_code :: "Instrumentation \<Rightarrow> ptr \<Rightarrow> ArtMethod \<Rightarrow> bool \<Rightarrow> art_heap \<Rightarrow> quick_code res" where
  "stub_code i mp m is_class_initialized h =
     (let uninstall = (\<not> entry_exit_stubs_installed i \<and> \<not> interpreter_stubs_installed i) in
      if uninstall
      then if (forced_interpret_only i \<or> is_deoptimized i mp) \<and> \<not> IsNative m then Inr QuickToInterpreterBridge
           else if is_class_initialized \<or> \<not> IsStatic m \<or> IsConstructor m then GetQuickOatCodeFor h mp
           else Inr QuickResolutionStub
      else if (interpreter_stubs_installed i \<or> forced_interpret_only i \<or> is_deoptimized i mp) \<and> \<not> IsNative m
           then Inr QuickToInterpreterBridge
           else if is_class_initialized \<or> \<not> IsStatic m \<or> IsConstructor m
                then if entry_exit_stubs_installed i then Inr QuickInstrumentationEntryPoint
                     else GetQuickOatCodeFor h mp
                else Inr QuickResolutionStub)"

definition InstallStubsForMethod :: "Instrumentation \<Rightarrow> ptr \<Rightarrow> art_heap \<Rightarrow> art_heap res" where
  "InstallStubsForMethod i mp h =
     rbind (deref (methods h) mp) (\<lambda>m.
     if IsAbstract m then Inr h else
     rbind (IsProxyMethod h m) (\<lambda>proxy.
     if proxy then Inr h else
     rbind (deref (classes h) (declaring_class m)) (\<lambda>k.
     if IsConstructor m \<and> c_descriptor k = ''Ljava/lang/reflect/Proxy;'' then Inr h else
     rbind (stub_code i mp m (IsInitialized k) h) (\<lambda>new_quick_code.
     UpdateEntrypoints i mp new_quick_code h))))"

definition InstallStubsForClass :: "Instrumentation \<Rightarrow> ptr \<Rightarrow> art_heap \<Rightarrow> art_heap res" where
  "InstallStubsForClass i kp h =
     rbind (deref (classes h) kp) (\<lambda>k.
     if IsErroneous k then Inr h
     else if \<not> IsResolved k then Inr h
     else if \<not> class_IsMiniTraceable k then Inr h
     else rbind (rfold (InstallStubsForMethod i) (direct_methods k) h)
            (rfold (InstallStubsForMethod i) (virtual_methods k)))"

definition UpdateMethodsCode :: "Instrumentation \<Rightarrow> ptr \<Rightarrow> quick_code \<Rightarrow> art_heap \<Rightarrow> art_heap res" where
  "UpdateMethodsCode i mp quick_code h =
     rbind (if \<not> instrumentation_stubs_installed i then Inr quick_code
            else rbind (deref (methods h) mp) (\<lambda>m. Inr
              (if (interpreter_stubs_installed i \<or> is_deoptimized i mp) \<and> \<not> IsNative m
               then QuickToInterpreterBridge
               else if IsQuickResolutionStub quick_code \<or> IsQuickToInterpreterBridge quick_code then quick_code
               else if entry_exit_stubs_installed i then QuickInstrumentationEntryPoint
               else quick_code)))
       (\<lambda>new_quick_code. UpdateEntrypoints i mp new_quick_code h)"

definition GetQuickCodeFor :: "Instrumentation \<Rightarrow> ptr \<Rightarrow> art_heap \<Rightarrow> quick_code res" where
  "GetQuickCodeFor i mp h =
     (if \<not> instrumentation_stubs_installed i
      then rbind (deref (methods h) mp) (\<lambda>m.
             let code = entry_point_from_quick_compiled_code m in
             if \<not> IsQuickResolutionStub code \<and> \<not> IsQuickToInterpreterBridge code then Inr code
             else GetQuickOatCodeFor h mp)
      else GetQuickOatCodeFor h mp)"

section \<open>Instrumentation levels\<close>

definition GetCurrentInstrumentationLevel :: "Instrumentation \<Rightarrow> InstrumentationLevel" where
  "GetCurrentInstrumentationLevel i =
     (if interpreter_stubs_installed i then kInstrumentWithInterpreter
      else if entry_exit_stubs_installed i then kInstrumentWithInstrumentationStubs
      else kInstrumentNothing)"

definition requested_level :: "(ptr, InstrumentationLevel) safe_map \<Rightarrow> InstrumentationLevel" where
  "requested_level m = fold (\<lambda>(_, l) level. max level l) m kInstrumentNothing"

text \<open>ThreadList::ForEach with one of the two stack functions.\<close>

fun for_each_thread :: "(ThreadStack \<times> 's \<Rightarrow> (ThreadStack \<times> 's) res) \<Rightarrow> ThreadStack list \<Rightarrow> 's \<Rightarrow> (ThreadStack list \<times> 's) res" where
  "for_each_thread f [] s = Inr ([], s)"
| "for_each_thread f (th # ths) s =
     rbind (f (th, s)) (\<lambda>(th', s). rbind (for_each_thread f ths s) (\<lambda>(ths', s). Inr (th' # ths', s)))"

definition install_stacks :: "'s env \<Rightarrow> 's vm \<Rightarrow> 's vm res" where
  "install_stacks e v =
     rbind (for_each_thread (InstrumentationInstallStack (on_entered e (vm_heap v)) (vm_heap v) (exit_pc e) (to_pc e) (vm_instr v))
              (vm_threads v) (vm_state v))
       (\<lambda>(ths, s). Inr (v\<lparr>vm_threads := ths, vm_state := s\<rparr>))"

definition restore_stacks :: "'s env \<Rightarrow> 's vm \<Rightarrow> 's vm res" where
  "restore_stacks e v =
     rbind (for_each_thread (InstrumentationRestoreStack (on_exited e (vm_heap v)) (vm_heap v) (vm_instr v))
              (vm_threads v) (vm_state v))
       (\<lambda>(ths, s). Inr (v\<lparr>vm_threads := ths, vm_state := s\<rparr>))"

text \<open>The two parts of ConfigureStubs that only change the Instrumentation object.\<close>

definition request_level :: "ptr \<Rightarrow> InstrumentationLevel \<Rightarrow> Instrumentation \<Rightarrow> Instrumentation" where
  "request_level key desired_level i =
     (let levels = (if desired_level = kInstrumentNothing then erase key (requested_instrumentation_levels i)
                    else Overwrite key desired_level (requested_instrumentation_levels i)) in
      i\<lparr>requested_instrumentation_levels := levels,
        interpret_only := requested_level levels = kInstrumentWithInterpreter \<or> forced_interpret_only i\<rparr>)"

definition set_stub_flags :: "InstrumentationLevel \<Rightarrow> Instrumentation \<Rightarrow> Instrumentation" where
  "set_stub_flags level i =
     (if level > kInstrumentNothing
      then if level = kInstrumentWithInterpreter
           then i\<lparr>interpreter_stubs_installed := True, entry_exit_stubs_installed := True\<rparr>
           else i\<lparr>entry_exit_stubs_installed := True, interpreter_stubs_installed := False\<rparr>
      else i\<lparr>interpreter_stubs_installed := False, entry_exit_stubs_installed := False\<rparr>)"

definition ConfigureStubs :: "'s env \<Rightarrow> ptr \<Rightarrow> InstrumentationLevel \<Rightarrow> 's vm \<Rightarrow> 's vm res" where
  "ConfigureStubs e key desired_level v =
     (let i = request_level key desired_level (vm_instr v);
          level = requested_level (requested_instrumentation_levels i) in
      if level = GetCurrentInstrumentationLevel i then Inr (v\<lparr>vm_instr := i\<rparr>)
      else
        let i = set_stub_flags level i in
        rbind (VisitClasses (InstallStubsForClass i) (vm_heap v)) (\<lambda>h.
        if level > kInstrumentNothing
        then install_stacks e (v\<lparr>vm_heap := h, vm_instr := i\<lparr>instrumentation_stubs_installed := True\<rparr>\<rparr>)
        else if deoptimized_methods i = []
        then restore_stacks e (v\<lparr>vm_heap := h, vm_instr := i\<lparr>instrumentation_stubs_installed := False\<rparr>\<rparr>)
        else Inr (v\<lparr>vm_heap := h, vm_instr := i\<rparr>)))"

definition EnableMethodTracing :: "'s env \<Rightarrow> ptr \<Rightarrow> bool \<Rightarrow> 's vm \<Rightarrow> 's vm res" where
  "EnableMethodTracing e key needs_interpreter =
     ConfigureStubs e key (if needs_interpreter then kInstrumentWithInterpreter
                           else kInstrumentWithInstrumentationStubs)"

definition DisableMethodTracing :: "'s env \<Rightarrow> ptr \<Rightarrow> 's vm \<Rightarrow> 's vm res" where
  "DisableMethodTracing e key = ConfigureStubs e key kInstrumentNothing"

section \<open>Deoptimization\<close>

definition IsDeoptimizedMethodsEmpty :: "Instrumentation \<Rightarrow> bool" where
  "IsDeoptimizedMethodsEmpty i \<longleftrightarrow> deoptimized_methods i = []"

definition AddDeoptimizedMethod :: "ptr \<Rightarrow> Instrumentation \<Rightarrow> bool \<times> Instrumentation" where
  "AddDeoptimizedMethod method i =
     (if is_deoptimized i method then (False, i)
      else (True, i\<lparr>deoptimized_methods := method # deoptimized_methods i\<rparr>))"

definition BeginDeoptimizedMethod :: "Instrumentation \<Rightarrow> ptr option" where
  "BeginDeoptimizedMethod i = (case deoptimized_methods i of [] \<Rightarrow> None | m # _ \<Rightarrow> Some m)"

definition RemoveDeoptimizedMethod :: "ptr \<Rightarrow> Instrumentation \<Rightarrow> bool \<times> Instrumentation" where
  "RemoveDeoptimizedMethod method i =
     (if is_deoptimized i method
      then (True, i\<lparr>deoptimized_methods := remove1 method (deoptimized_methods i)\<rparr>) else (False, i))"

definition check_deoptimizable :: "art_heap \<Rightarrow> ptr \<Rightarrow> ArtMethod res" where
  "check_deoptimizable h method =
     rbind (deref (methods h) method) (\<lambda>m.
     rbind (check (\<not> IsNative m) CheckFailed) (\<lambda>_.
     rbind (IsProxyMethod h m) (\<lambda>proxy.
     rbind (check (\<not> proxy) CheckFailed) (\<lambda>_.
     rbind (check (\<not> IsAbstract m) CheckFailed) (\<lambda>_. Inr m)))))"

definition Deoptimize :: "'s env \<Rightarrow> ptr \<Rightarrow> 's vm \<Rightarrow> 's vm res" where
  "Deoptimize e method v =
     rbind (check_deoptimizable (vm_heap v) method) (\<lambda>_.
     case AddDeoptimizedMethod method (vm_instr v) of (has_not_been_deoptimized, i) \<Rightarrow>
     rbind (check has_not_been_deoptimized CheckFailed) (\<lambda>_.
     if interpreter_stubs_installed i then Inr (v\<lparr>vm_instr := i\<rparr>)
     else rbind (UpdateEntrypoints i method QuickInstrumentationEntryPoint (vm_heap v)) (\<lambda>h.
          install_stacks e (v\<lparr>vm_heap := h, vm_instr := i\<lparr>instrumentation_stubs_installed := True\<rparr>\<rparr>))))"

definition Undeoptimize :: "'s env \<Rightarrow> ptr \<Rightarrow> 's vm \<Rightarrow> 's vm res" where
  "Undeoptimize e method v =
     rbind (check_deoptimizable (vm_heap v) method) (\<lambda>m.
     case RemoveDeoptimizedMethod method (vm_instr v) of (found_and_erased, i) \<Rightarrow>
     rbind (check found_and_erased CheckFailed) (\<lambda>_.
     if interpreter_stubs_installed i then Inr (v\<lparr>vm_instr := i\<rparr>)
     else
       rbind (deref (classes (vm_heap v)) (declaring_class m)) (\<lambda>k.
       rbind (if IsStatic m \<and> \<not> IsConstructor m \<and> \<not> IsInitialized k then Inr QuickResolutionStub
              else GetQuickOatCodeFor (vm_heap v) method) (\<lambda>quick_code.
       rbind (UpdateEntrypoints i method quick_code (vm_heap v)) (\<lambda>h.
       if IsDeoptimizedMethodsEmpty i
       then rbind (restore_stacks e (v\<lparr>vm_heap := h, vm_instr := i\<rparr>)) (\<lambda>v.
            Inr (v\<lparr>vm_instr := (vm_instr v)\<lparr>instrumentation_stubs_installed := False\<rparr>\<rparr>))
       else Inr (v\<lparr>vm_heap := h, vm_instr := i\<rparr>))))))"

definition EnableDeoptimization :: "Instrumentation \<Rightarrow> Instrumentation res" where
  "EnableDeoptimization i =
     rbind (check (IsDeoptimizedMethodsEmpty i) CheckFailed) (\<lambda>_.
     rbind (check (\<not> deoptimization_enabled i) CheckFailed) (\<lambda>_.
     Inr (i\<lparr>deoptimization_enabled := True\<rparr>)))"

definition DeoptimizeEverything :: "'s env \<Rightarrow> ptr \<Rightarrow> 's vm \<Rightarrow> 's vm res" where
  "DeoptimizeEverything e key v =
     rbind (check (deoptimization_enabled (vm_instr v)) CheckFailed) (\<lambda>_.
     ConfigureStubs e key kInstrumentWithInterpreter v)"

definition UndeoptimizeEverything :: "'s env \<Rightarrow> ptr \<Rightarrow> 's vm \<Rightarrow> 's vm res" where
  "UndeoptimizeEverything e key v =
     rbind (check (interpreter_stubs_installed (vm_instr v)) CheckFailed) (\<lambda>_.
     rbind (check (deoptimization_enabled (vm_instr v)) CheckFailed) (\<lambda>_.
     ConfigureStubs e key kInstrumentNothing v))"

text \<open>The loop of DisableDeoptimization; every turn removes a method from the list.\<close>

lemma Undeoptimize_removes:
  assumes "Undeoptimize e method v = Inr v'"
  shows "method \<in> set (deoptimized_methods (vm_instr v))"
    "deoptimized_methods (vm_instr v') = remove1 method (deoptimized_methods (vm_instr v))"
proof -
  have r: "restore_stacks e u = Inr u' \<Longrightarrow> vm_instr u' = vm_instr u" for u u'
    by (auto simp: restore_stacks_def rbind_eq_Inr)
  show "method \<in> set (deoptimized_methods (vm_instr v))"
    "deoptimized_methods (vm_instr v') = remove1 method (deoptimized_methods (vm_instr v))"
    using assms
    by (auto simp: Undeoptimize_def RemoveDeoptimizedMethod_def is_deoptimized_def rbind_eq_Inr split: if_splits dest!: r)
qed

function undeoptimize_all :: "'s env \<Rightarrow> 's vm \<Rightarrow> 's vm res" where
  "undeoptimize_all e v =
     (case BeginDeoptimizedMethod (vm_instr v) of
        None \<Rightarrow> Inr v
      | Some method \<Rightarrow>
          rbind (check (method \<noteq> 0) CheckFailed) (\<lambda>_.
          rbind (Undeoptimize e method v) (undeoptimize_all e)))"
  by pat_completeness auto
termination
proof (relation "measure (\<lambda>(e, v). length (deoptimized_methods (vm_instr v)))", goal_cases)
  case (2 e v mp u v')
  then show ?case
    using Undeoptimize_removes [of e mp v v']
    by (auto simp: length_remove1 BeginDeoptimizedMethod_def split: list.splits)
qed simp

declare undeoptimize_all.simps [simp del]

definition DisableDeoptimization :: "'s env \<Rightarrow> ptr \<Rightarrow> 's vm \<Rightarrow> 's vm res" where
  "DisableDeoptimization e key v =
     rbind (check (deoptimization_enabled (vm_instr v)) CheckFailed) (\<lambda>_.
     rbind (if interpreter_stubs_installed (vm_instr v) then UndeoptimizeEverything e key v else Inr v) (\<lambda>v.
     rbind (undeoptimize_all e v) (\<lambda>v.
     Inr (v\<lparr>vm_instr := (vm_instr v)\<lparr>deoptimization_enabled := False\<rparr>\<rparr>))))"

section \<open>Quick allocation entry points\<close>

text \<open>The counter; the result says how the entry points of the threads are set, if at all.\<close>

definition InstrumentQuickAllocEntryPointsLocked :: "Instrumentation \<Rightarrow> bool option \<times> Instrumentation" where
  "InstrumentQuickAllocEntryPointsLocked i =
     (let n = quick_alloc_entry_points_instrumentation_counter i in
      (if n = 0 then Some True else None, i\<lparr>quick_alloc_entry_points_instrumentation_counter := n + 1\<rparr>))"

definition UninstrumentQuickAllocEntryPointsLocked :: "Instrumentation \<Rightarrow> (bool option \<times> Instrumentation) res" where
  "UninstrumentQuickAllocEntryPointsLocked i =
     (let n = quick_alloc_entry_points_instrumentation_counter i in
      rbind (check (0 < n) CheckFailed) (\<lambda>_.
      Inr (if n - 1 = 0 then Some False else None, i\<lparr>quick_alloc_entry_points_instrumentation_counter := n - 1\<rparr>)))"

section \<open>The level in force\<close>

lemma level_max_Nothing [simp]: "max kInstrumentNothing l = l" "kInstrumentNothing \<le> l"
  by (cases l; simp add: max_def level_order)+

lemma requested_level_fold:
  "fold (\<lambda>(_, l) level. max level l) m l0 = Max (insert l0 (snd ` set m))"
  for m :: "(ptr, InstrumentationLevel) safe_map"
proof -
  have "fold (\<lambda>(_, l) level. max level l) m l0 = fold max (map snd m) l0"
    by (induction m arbitrary: l0) (auto simp: max.commute)
  also have "\<dots> = Max (set (l0 # map snd m))" by (simp only: Max.set_eq_fold)
  finally show ?thesis by simp
qed

lemma requested_level_ge: "find_entry m k = Some l \<Longrightarrow> l \<le> requested_level m"
  by (force simp: requested_level_def requested_level_fold find_entry_def dest: map_of_SomeD intro!: Max_ge)

lemma requested_level_attained:
  assumes "sm_inv m" "requested_level m \<noteq> kInstrumentNothing"
  shows "\<exists>k. find_entry m k = Some (requested_level m)"
proof -
  have "requested_level m \<in> insert kInstrumentNothing (snd ` set m)"
    unfolding requested_level_def requested_level_fold by (rule Max_in) auto
  with assms(2) obtain k where "(k, requested_level m) \<in> set m" by auto
  then show ?thesis using set_map_of [OF assms(1)] by (auto simp: find_entry_def)
qed

lemma install_stacks_frame:
  "install_stacks e v = Inr v' \<Longrightarrow> vm_instr v' = vm_instr v \<and> vm_heap v' = vm_heap v"
  by (auto simp: install_stacks_def rbind_eq_Inr)

lemma restore_stacks_frame:
  "restore_stacks e v = Inr v' \<Longrightarrow> vm_instr v' = vm_instr v \<and> vm_heap v' = vm_heap v"
  by (auto simp: restore_stacks_def rbind_eq_Inr)

lemma level_cases: "l = kInstrumentNothing \<or> l = kInstrumentWithInstrumentationStubs \<or> l = kInstrumentWithInterpreter"
  by (cases l) simp_all

lemma registered_frame:
  "registered (i\<lparr>requested_instrumentation_levels := m, interpret_only := b\<rparr>) ev = registered i ev"
  "registered (i\<lparr>interpreter_stubs_installed := b1, entry_exit_stubs_installed := b2\<rparr>) ev = registered i ev"
  "registered (i\<lparr>entry_exit_stubs_installed := b2, interpreter_stubs_installed := b1\<rparr>) ev = registered i ev"
  "registered (i\<lparr>instrumentation_stubs_installed := b\<rparr>) ev = registered i ev"
  by (cases ev; simp)+

lemma request_level_simps [simp]:
  "GetCurrentInstrumentationLevel (request_level key lvl i) = GetCurrentInstrumentationLevel i"
  "forced_interpret_only (request_level key lvl i) = forced_interpret_only i"
  "deoptimized_methods (request_level key lvl i) = deoptimized_methods i"
  "deoptimization_enabled (request_level key lvl i) = deoptimization_enabled i"
  "registered (request_level key lvl i) = registered i"
  by (simp_all add: request_level_def GetCurrentInstrumentationLevel_def Let_def fun_eq_iff registered_frame)

lemma request_level_interpret_only [simp]:
  "interpret_only (request_level key lvl i) \<longleftrightarrow>
     requested_level (requested_instrumentation_levels (request_level key lvl i)) = kInstrumentWithInterpreter \<or>
     forced_interpret_only i"
  by (simp add: request_level_def Let_def)

lemma set_stub_flags_simps [simp]:
  "GetCurrentInstrumentationLevel (set_stub_flags level i) = level"
  "requested_instrumentation_levels (set_stub_flags level i) = requested_instrumentation_levels i"
  "interpret_only (set_stub_flags level i) = interpret_only i"
  "forced_interpret_only (set_stub_flags level i) = forced_interpret_only i"
  "deoptimized_methods (set_stub_flags level i) = deoptimized_methods i"
  "deoptimization_enabled (set_stub_flags level i) = deoptimization_enabled i"
  "registered (set_stub_flags level i) = registered i"
  by (cases level; simp add: set_stub_flags_def GetCurrentInstrumentationLevel_def level_order fun_eq_iff registered_frame)+

lemma stubs_installed_simps [simp]:
  "GetCurrentInstrumentationLevel (i\<lparr>instrumentation_stubs_installed := b\<rparr>) = GetCurrentInstrumentationLevel i"
  by (simp add: GetCurrentInstrumentationLevel_def)

lemma ConfigureStubs_cases:
  assumes "ConfigureStubs e key lvl v = Inr v'"
    and i: "i = request_level key lvl (vm_instr v)" and level: "level = requested_level (requested_instrumentation_levels i)"
  obtains (same) "level = GetCurrentInstrumentationLevel (vm_instr v)" "v' = v\<lparr>vm_instr := i\<rparr>"
    | (change) b where "level \<noteq> GetCurrentInstrumentationLevel (vm_instr v)"
        "VisitClasses (InstallStubsForClass (set_stub_flags level i)) (vm_heap v) = Inr (vm_heap v')"
        "vm_instr v' = (set_stub_flags level i)\<lparr>instrumentation_stubs_installed := b\<rparr>"
proof (cases "level = GetCurrentInstrumentationLevel (vm_instr v)")
  case True
  with assms show ?thesis by (intro same) (simp_all add: ConfigureStubs_def Let_def)
next
  case False
  let ?i = "set_stub_flags level i"
  from assms False obtain h where h: "VisitClasses (InstallStubsForClass ?i) (vm_heap v) = Inr h"
      "(if level > kInstrumentNothing
        then install_stacks e (v\<lparr>vm_heap := h, vm_instr := ?i\<lparr>instrumentation_stubs_installed := True\<rparr>\<rparr>)
        else if deoptimized_methods ?i = []
        then restore_stacks e (v\<lparr>vm_heap := h, vm_instr := ?i\<lparr>instrumentation_stubs_installed := False\<rparr>\<rparr>)
        else Inr (v\<lparr>vm_heap := h, vm_instr := ?i\<rparr>)) = Inr v'"
    unfolding ConfigureStubs_def Let_def i [symmetric] level [symmetric] by (auto simp: i)
  have "vm_heap v' = h \<and> (\<exists>b. vm_instr v' = ?i\<lparr>instrumentation_stubs_installed := b\<rparr>)"
  proof (cases "level > kInstrumentNothing")
    case True
    with h(2) install_stacks_frame [of e _ v'] show ?thesis by auto
  next
    case no: False
    show ?thesis
    proof (cases "deoptimized_methods ?i = []")
      case True
      with no h(2) restore_stacks_frame [of e _ v'] show ?thesis by auto
    next
      case False
      with no h(2) have "v' = v\<lparr>vm_heap := h, vm_instr := ?i\<rparr>" by simp
      then show ?thesis by (intro conjI exI [of _ "instrumentation_stubs_installed ?i"]) simp_all
    qed
  qed
  with False h(1) change show ?thesis by blast
qed

lemma ConfigureStubs_frame:
  assumes "sm_inv (requested_instrumentation_levels (vm_instr v))" and "ConfigureStubs e key lvl v = Inr v'"
  shows "sm_inv (requested_instrumentation_levels (vm_instr v')) \<and>
     find_entry (requested_instrumentation_levels (vm_instr v')) =
       (find_entry (requested_instrumentation_levels (vm_instr v)))
         (key := (if lvl = kInstrumentNothing then None else Some lvl)) \<and>
     (\<forall>k l. find_entry (requested_instrumentation_levels (vm_instr v')) k = Some l \<longrightarrow>
        l \<le> GetCurrentInstrumentationLevel (vm_instr v')) \<and>
     (GetCurrentInstrumentationLevel (vm_instr v') \<noteq> kInstrumentNothing \<longrightarrow>
        (\<exists>k. find_entry (requested_instrumentation_levels (vm_instr v')) k =
           Some (GetCurrentInstrumentationLevel (vm_instr v')))) \<and>
     registered (vm_instr v') = registered (vm_instr v)"
proof -
  let ?i = "request_level key lvl (vm_instr v)" and ?m = "requested_instrumentation_levels (vm_instr v)"
  have levels: "requested_instrumentation_levels (vm_instr v') = requested_instrumentation_levels ?i"
    and cur: "GetCurrentInstrumentationLevel (vm_instr v') = requested_level (requested_instrumentation_levels ?i)"
    and reg: "registered (vm_instr v') = registered (vm_instr v)"
    by (rule ConfigureStubs_cases [OF assms(2) refl refl]; simp add: fun_eq_iff registered_frame)+
  have m': "requested_instrumentation_levels ?i =
      (if lvl = kInstrumentNothing then erase key ?m else Overwrite key lvl ?m)"
    by (simp add: request_level_def Let_def)
  have inv: "sm_inv (requested_instrumentation_levels ?i)"
    using assms(1) unfolding m' by (simp add: sm.inv_remove sm.inv_overwrite)
  have "find_entry (requested_instrumentation_levels ?i) =
      (find_entry ?m)(key := (if lvl = kInstrumentNothing then None else Some lvl))"
    using assms(1) unfolding m' by (simp add: sm.lookup_remove sm.lookup_overwrite)
  with inv requested_level_ge requested_level_attained [OF inv] reg show ?thesis
    unfolding levels cur by blast
qed

text \<open>C20: after ConfigureStubs the level in force is the highest any client asks for: no
  client's request exceeds it, and unless nothing is instrumented some client asks for exactly
  it. The request of the calling client is the one it made, those of the others are kept, and
  no listener is added or removed.\<close>

theorem ConfigureStubs_level:
  assumes "sm_inv (requested_instrumentation_levels (vm_instr v))" and "ConfigureStubs e key lvl v = Inr v'"
  shows "sm_inv (requested_instrumentation_levels (vm_instr v')) \<and>
     find_entry (requested_instrumentation_levels (vm_instr v')) =
       (find_entry (requested_instrumentation_levels (vm_instr v)))
         (key := (if lvl = kInstrumentNothing then None else Some lvl)) \<and>
     (\<forall>k l. find_entry (requested_instrumentation_levels (vm_instr v')) k = Some l \<longrightarrow>
        l \<le> GetCurrentInstrumentationLevel (vm_instr v')) \<and>
     (GetCurrentInstrumentationLevel (vm_instr v') \<noteq> kInstrumentNothing \<longrightarrow>
        (\<exists>k. find_entry (requested_instrumentation_levels (vm_instr v')) k =
           Some (GetCurrentInstrumentationLevel (vm_instr v')))) \<and>
     registered (vm_instr v') = registered (vm_instr v)"
  by (rule ConfigureStubs_frame [OF assms])

lemma ConfigureStubs_bare:
  assumes "\<And>i. VisitClasses (InstallStubsForClass i) (vm_heap v) = Inr (vm_heap v)" "vm_threads v = []"
  shows "\<exists>i. ConfigureStubs e key lvl v = Inr (v\<lparr>vm_instr := i\<rparr>)"
  using assms
  by (cases v) (auto simp: ConfigureStubs_def Let_def install_stacks_def restore_stacks_def)

theorem ConfigureStubs_level_witness:
  "\<exists>v'. ConfigureStubs \<lparr>exit_pc = 0x9990, to_pc = \<lambda>_ _. 0, on_entered = \<lambda>_ _ _ _ _ _. Inr, on_exited = \<lambda>_ _ _ _ _ _ _. Inr\<rparr>
      0x100 kInstrumentWithInterpreter
      \<lparr>vm_heap = sample_heap\<lparr>class_table := []\<rparr>, vm_instr = new_Instrumentation, vm_threads = [], vm_state = ()\<rparr> = Inr v' \<and>
     GetCurrentInstrumentationLevel (vm_instr v') = kInstrumentWithInterpreter"
  (is "\<exists>v'. ConfigureStubs ?e _ _ ?v = Inr v' \<and> _")
proof -
  have inv: "sm_inv (requested_instrumentation_levels (vm_instr ?v))"
    by (simp add: new_Instrumentation_def sm_inv_def)
  obtain v' where v': "ConfigureStubs ?e 0x100 kInstrumentWithInterpreter ?v = Inr v'"
    using ConfigureStubs_bare [of ?v ?e "0x100" kInstrumentWithInterpreter] by (auto simp: VisitClasses_def)
  note level = ConfigureStubs_level [OF inv v']
  from level have "find_entry (requested_instrumentation_levels (vm_instr v')) 0x100 = Some kInstrumentWithInterpreter"
    by simp
  with level have "kInstrumentWithInterpreter \<le> GetCurrentInstrumentationLevel (vm_instr v')" by blast
  then have "GetCurrentInstrumentationLevel (vm_instr v') = kInstrumentWithInterpreter"
    by (cases "GetCurrentInstrumentationLevel (vm_instr v')") (simp_all add: level_order)
  with v' show ?thesis by blast
qed

section \<open>What the listeners may rely on\<close>

text \<open>A property of the listeners' state that their callbacks keep is kept by every change of the
  instrumentation that walks the stacks.\<close>

locale state_listener =
  fixes P :: "'s \<Rightarrow> bool" and e :: "'s env"
  assumes entered: "on_entered e h l tid obj m pc s = Inr s' \<Longrightarrow> P s \<Longrightarrow> P s'"
    and exited: "on_exited e h l tid obj m pc rv s = Inr s' \<Longrightarrow> P s \<Longrightarrow> P s'"
begin

lemma enter_event: "MethodEnterEvent (on_entered e h) i tid obj m pc s = Inr s' \<Longrightarrow> P s \<Longrightarrow> P s'"
  by (auto simp: MethodEnterEvent_def split: if_splits elim: rfold_invariant intro: entered)

lemma exit_event: "MethodExitEvent (on_exited e h) i tid obj m pc rv s = Inr s' \<Longrightarrow> P s \<Longrightarrow> P s'"
  by (auto simp: MethodExitEvent_def split: if_splits elim: rfold_invariant intro: exited)

lemma shadow_events: "post_shadow (on_entered e h) i tid fid ss s = Inr (ss', s') \<Longrightarrow> P s \<Longrightarrow> P s'"
  by (induction ss arbitrary: s) (auto split: if_splits dest: enter_event)

lemma stack_events: "post_enter_events (on_entered e h) i tid ssi st pcs s = Inr s' \<Longrightarrow> P s \<Longrightarrow> P s'"
proof (induction st arbitrary: ssi pcs s)
  case (Cons f st)
  then obtain ssi' s1 s2 where "post_shadow (on_entered e h) i tid (frame_id f) ssi s = Inr (ssi', s1)"
      "(if interpreter_entry f then Inr s1 else MethodEnterEvent (on_entered e h) i tid (this_object f) (is_method f) (hd pcs) s1) = Inr s2"
      "post_enter_events (on_entered e h) i tid ssi' st (tl pcs) s2 = Inr s'"
    by (auto simp: rbind_eq_Inr)
  with Cons.IH Cons.prems(2) show ?case by (auto split: if_splits dest: shadow_events enter_event)
qed simp

lemma install_thread:
  "InstrumentationInstallStack (on_entered e h) h' xpc tpc i (th, s) = Inr (th', s') \<Longrightarrow> P s \<Longrightarrow> P s'"
  by (auto simp: InstrumentationInstallStack_def rbind_eq_Inr split: if_splits dest: stack_events)

lemma restore_walk:
  "Restore_WalkStack (on_exited e h) h' i tid st frs (n, s) = Inr (frs', n', s') \<Longrightarrow> P s \<Longrightarrow> P s'"
proof (induction frs arbitrary: n s frs')
  case (Cons fr frs)
  show ?case
  proof (cases "st = []")
    case True
    with Cons.prems show ?thesis by simp
  next
    case False
    with Cons.prems obtain fr' n1 s1 frs1 where
      1: "Restore_VisitFrame (on_exited e h) h' i tid st (length (fr # frs)) fr (n, s) = Inr (fr', n1, s1)"
      "Restore_WalkStack (on_exited e h) h' i tid st frs (n1, s1) = Inr (frs1, n', s')"
      by (auto simp: rbind_eq_Inr simp del: length_Cons)
    from 1(1) Cons.prems(2) have "P s1"
      by (auto simp: Restore_VisitFrame_def rbind_eq_Inr split: if_splits option.splits dest: exit_event)
    with Cons.IH 1(2) show ?thesis by blast
  qed
qed simp

lemma restore_thread:
  "InstrumentationRestoreStack (on_exited e h) h' i (th, s) = Inr (th', s') \<Longrightarrow> P s \<Longrightarrow> P s'"
  by (auto simp: InstrumentationRestoreStack_def Let_def rbind_eq_Inr split: if_splits dest: restore_walk)

lemma each_thread:
  assumes "for_each_thread f ths s = Inr (ths', s')" "P s"
    and "\<And>th s th' s'. f (th, s) = Inr (th', s') \<Longrightarrow> P s \<Longrightarrow> P s'"
  shows "P s'"
  using assms(1,2)
proof (induction ths arbitrary: s ths')
  case (Cons th ths)
  then show ?case using assms(3) by (auto simp: rbind_eq_Inr)
qed simp

lemma install: "install_stacks e v = Inr v' \<Longrightarrow> P (vm_state v) \<Longrightarrow> P (vm_state v')"
  by (auto simp: install_stacks_def rbind_eq_Inr dest!: each_thread intro: install_thread)

lemma restore: "restore_stacks e v = Inr v' \<Longrightarrow> P (vm_state v) \<Longrightarrow> P (vm_state v')"
  by (auto simp: restore_stacks_def rbind_eq_Inr dest!: each_thread intro: restore_thread)

lemma configure: "ConfigureStubs e key lvl v = Inr v' \<Longrightarrow> P (vm_state v) \<Longrightarrow> P (vm_state v')"
  unfolding ConfigureStubs_def Let_def
  by (auto simp: rbind_eq_Inr split: if_splits dest: install restore)

end

section \<open>Which methods get stubs\<close>

text \<open>What installing stubs for a method changes: its entry points, and the code the JIT saved.\<close>

definition same_method :: "ArtMethod \<Rightarrow> ArtMethod \<Rightarrow> bool" where
  "same_method m m' \<longleftrightarrow>
     m' = m\<lparr>entry_point_from_quick_compiled_code := entry_point_from_quick_compiled_code m',
            entry_point_from_interpreter := entry_point_from_interpreter m'\<rparr>"

lemma same_method_refl: "same_method m m"
  by (simp add: same_method_def)

lemma same_method_trans: "same_method a b \<Longrightarrow> same_method b c \<Longrightarrow> same_method a c"
  by (cases a; cases b; cases c) (simp add: same_method_def)

lemma same_method_facts:
  "same_method m m' \<Longrightarrow> m_access_flags m' = m_access_flags m \<and> declaring_class m' = declaring_class m \<and>
     IsAbstract m' = IsAbstract m \<and> IsNative m' = IsNative m \<and> IsStatic m' = IsStatic m \<and> IsConstructor m' = IsConstructor m"
  by (cases m; cases m')
    (simp add: same_method_def IsAbstract_def IsNative_def IsStatic_def IsConstructor_def)

lemma UpdateEntrypoints_effect:
  assumes "UpdateEntrypoints i mp code h = Inr h'" "methods h mp = Some m"
  obtains m' where "methods h' = (methods h)(mp \<mapsto> m')" "same_method m m'"
    "entry_point_from_quick_compiled_code m' = code" "classes h' = classes h" "class_table h' = class_table h"
  using assms
  by (fastforce simp: UpdateEntrypoints_def Let_def set_method_def rbind_eq_Inr same_method_def
      split: if_splits option.splits)

lemma InstallStubsForMethod_effect:
  assumes "InstallStubsForMethod i mp h = Inr h'"
  obtains m m' where "methods h mp = Some m" "same_method m m'" "methods h' = (methods h)(mp \<mapsto> m')"
    "classes h' = classes h" "class_table h' = class_table h"
proof -
  from assms obtain m where m: "methods h mp = Some m" by (auto simp: InstallStubsForMethod_def rbind_eq_Inr)
  show thesis
  proof (cases "h' = h")
    case True
    with m show ?thesis by (intro that [of m m]) (auto simp: same_method_refl)
  next
    case False
    with assms m obtain code where "UpdateEntrypoints i mp code h = Inr h'"
      by (auto simp: InstallStubsForMethod_def rbind_eq_Inr split: if_splits)
    from UpdateEntrypoints_effect [OF this m] m show ?thesis using that by blast
  qed
qed

definition stub_class :: "Klass \<Rightarrow> bool" where
  "stub_class k \<longleftrightarrow> \<not> IsErroneous k \<and> IsResolved k \<and> class_IsMiniTraceable k"

definition stub_target :: "art_heap \<Rightarrow> ptr \<Rightarrow> bool" where
  "stub_target h mp \<longleftrightarrow>
     (\<exists>kp k. kp \<in> set (class_table h) \<and> classes h kp = Some k \<and> stub_class k \<and>
        mp \<in> set (direct_methods k @ virtual_methods k))"

lemma InstallStubsForClass_eq:
  assumes "classes h kp = Some k"
  shows "InstallStubsForClass i kp h =
     (if stub_class k then rfold (InstallStubsForMethod i) (direct_methods k @ virtual_methods k) h else Inr h)"
  using assms by (simp add: InstallStubsForClass_def stub_class_def rfold_append)

lemma InstallStubsForClass_other:
  assumes "InstallStubsForClass i kp h = Inr h'" "classes h kp = Some k"
    and "\<not> (stub_class k \<and> mp \<in> set (direct_methods k @ virtual_methods k))"
  shows "methods h' mp = methods h mp"
proof (cases "stub_class k")
  case True
  with assms have r: "rfold (InstallStubsForMethod i) (direct_methods k @ virtual_methods k) h = Inr h'"
    and no: "mp \<notin> set (direct_methods k @ virtual_methods k)"
    by (auto simp: InstallStubsForClass_eq)
  show ?thesis
  proof (rule rfold_invariant [where P = "\<lambda>g. methods g mp = methods h mp", OF r refl])
    fix q g g'
    assume "q \<in> set (direct_methods k @ virtual_methods k)" "methods g mp = methods h mp" "InstallStubsForMethod i q g = Inr g'"
    with no show "methods g' mp = methods h mp" by (elim InstallStubsForMethod_effect) auto
  qed
next
  case False
  with assms show ?thesis by (simp add: InstallStubsForClass_eq)
qed

lemma InstallStubsForClass_frame:
  assumes "InstallStubsForClass i kp h = Inr h'"
  shows "classes h' = classes h \<and> class_table h' = class_table h \<and>
    (\<forall>mp m. methods h mp = Some m \<longrightarrow> (\<exists>m'. methods h' mp = Some m' \<and> same_method m m'))"
proof -
  from assms obtain k where k: "classes h kp = Some k" by (auto simp: InstallStubsForClass_def rbind_eq_Inr)
  let ?P = "\<lambda>g. classes g = classes h \<and> class_table g = class_table h \<and>
    (\<forall>mp m. methods h mp = Some m \<longrightarrow> (\<exists>m'. methods g mp = Some m' \<and> same_method m m'))"
  show ?thesis
  proof (cases "stub_class k")
    case True
    with assms k have r: "rfold (InstallStubsForMethod i) (direct_methods k @ virtual_methods k) h = Inr h'"
      by (simp add: InstallStubsForClass_eq)
    show ?thesis
    proof (rule rfold_invariant [where P = ?P, OF r])
      show "?P h" by (auto intro: same_method_refl)
    next
      fix q g g'
      assume g: "?P g" "InstallStubsForMethod i q g = Inr g'"
      obtain m m' where "methods g q = Some m" "same_method m m'" "methods g' = (methods g)(q \<mapsto> m')"
          "classes g' = classes g" "class_table g' = class_table g"
        by (rule InstallStubsForMethod_effect [OF g(2)])
      with g(1) show "?P g'" by (auto intro: same_method_trans) (metis option.inject same_method_trans)
    qed
  next
    case False
    with assms k show ?thesis by (auto simp: InstallStubsForClass_eq intro: same_method_refl)
  qed
qed

text \<open>At the level of entry and exit stubs, a method is entered through the stub unless it is
  abstract, belongs to a proxy or waits for the initialization of its class.\<close>

definition stub_level :: "Instrumentation \<Rightarrow> ptr \<Rightarrow> bool" where
  "stub_level i mp \<longleftrightarrow> entry_exit_stubs_installed i \<and> \<not> interpreter_stubs_installed i \<and>
     \<not> forced_interpret_only i \<and> \<not> is_deoptimized i mp"

definition takes_stub :: "art_heap \<Rightarrow> ArtMethod \<Rightarrow> bool" where
  "takes_stub h m \<longleftrightarrow> \<not> IsAbstract m \<and>
     (\<exists>k. classes h (declaring_class m) = Some k \<and> \<not> IsProxyClass k \<and>
        \<not> (IsConstructor m \<and> c_descriptor k = ''Ljava/lang/reflect/Proxy;'') \<and>
        (IsInitialized k \<or> \<not> IsStatic m \<or> IsConstructor m))"

definition entered_by_stub :: "art_heap \<Rightarrow> ptr \<Rightarrow> bool" where
  "entered_by_stub h mp \<longleftrightarrow>
     (\<exists>m. methods h mp = Some m \<and> entry_point_from_quick_compiled_code m = QuickInstrumentationEntryPoint)"

lemma InstallStubsForMethod_stub:
  assumes "InstallStubsForMethod i mp h = Inr h'" "methods h mp = Some m" "stub_level i mp" "takes_stub h m"
  shows "entered_by_stub h' mp"
proof -
  from assms(4) obtain k where k: "\<not> IsAbstract m" "classes h (declaring_class m) = Some k" "\<not> IsProxyClass k"
      "\<not> (IsConstructor m \<and> c_descriptor k = ''Ljava/lang/reflect/Proxy;'')"
      "IsInitialized k \<or> \<not> IsStatic m \<or> IsConstructor m"
    by (auto simp: takes_stub_def)
  have "stub_code i mp m (IsInitialized k) h = Inr QuickInstrumentationEntryPoint"
    using assms(3) k(5) by (simp add: stub_code_def stub_level_def Let_def)
  with assms(1,2) k(1-4) have "UpdateEntrypoints i mp QuickInstrumentationEntryPoint h = Inr h'"
    by (simp add: InstallStubsForMethod_def IsProxyMethod_def split: if_splits)
  from UpdateEntrypoints_effect [OF this assms(2)] show ?thesis unfolding entered_by_stub_def by (metis fun_upd_same)
qed

definition keeps_method :: "art_heap \<Rightarrow> ptr \<Rightarrow> ArtMethod \<Rightarrow> art_heap \<Rightarrow> bool" where
  "keeps_method h mp m g \<longleftrightarrow> classes g = classes h \<and> class_table g = class_table h \<and>
     (\<exists>m'. methods g mp = Some m' \<and> same_method m m')"

lemma keeps_takes_stub: "same_method m m' \<Longrightarrow> classes g = classes h \<Longrightarrow> takes_stub g m' = takes_stub h m"
  using same_method_facts [of m m'] by (simp add: takes_stub_def)

lemma method_step:
  assumes "InstallStubsForMethod i q g = Inr g'" "keeps_method h mp m g"
  shows "keeps_method h mp m g'" "stub_level i mp \<Longrightarrow> takes_stub h m \<Longrightarrow> q = mp \<or> entered_by_stub g mp \<Longrightarrow> entered_by_stub g' mp"
proof -
  obtain n n' where n: "methods g q = Some n" "same_method n n'" "methods g' = (methods g)(q \<mapsto> n')"
      "classes g' = classes g" "class_table g' = class_table g"
    by (rule InstallStubsForMethod_effect [OF assms(1)])
  with assms(2) show "keeps_method h mp m g'"
    unfolding keeps_method_def by (metis fun_upd_apply option.inject same_method_trans)
  assume st: "stub_level i mp" "takes_stub h m" "q = mp \<or> entered_by_stub g mp"
  show "entered_by_stub g' mp"
  proof (cases "q = mp")
    case True
    from assms(2) n(1) True have "same_method m n" "classes g = classes h" by (auto simp: keeps_method_def)
    with st(2) have "takes_stub g n" using keeps_takes_stub by blast
    with InstallStubsForMethod_stub assms(1) n(1) st(1) True show ?thesis by blast
  next
    case False
    with st(3) n(3) show ?thesis by (simp add: entered_by_stub_def)
  qed
qed

lemma class_step:
  assumes "InstallStubsForClass i kp g = Inr g'" "keeps_method h mp m g"
  shows "keeps_method h mp m g'"
    "stub_level i mp \<Longrightarrow> takes_stub h m \<Longrightarrow> entered_by_stub g mp \<Longrightarrow> entered_by_stub g' mp"
    "stub_level i mp \<Longrightarrow> takes_stub h m \<Longrightarrow> classes h kp = Some k \<Longrightarrow> stub_class k \<Longrightarrow>
       mp \<in> set (direct_methods k @ virtual_methods k) \<Longrightarrow> entered_by_stub g' mp"
proof -
  from assms(1) obtain l where l: "classes g kp = Some l" by (auto simp: InstallStubsForClass_def rbind_eq_Inr)
  let ?ms = "direct_methods l @ virtual_methods l"
  have cs: "g' = g \<or> rfold (InstallStubsForMethod i) ?ms g = Inr g'"
    using assms(1) l by (auto simp: InstallStubsForClass_eq split: if_splits)
  have inv: "keeps_method h mp m g' \<and> (Q g \<longrightarrow> Q g')"
    if "\<And>q u u'. InstallStubsForMethod i q u = Inr u' \<Longrightarrow> keeps_method h mp m u \<Longrightarrow> Q u \<Longrightarrow> Q u'" for Q
  proof (cases "g' = g")
    case False
    with cs have r: "rfold (InstallStubsForMethod i) ?ms g = Inr g'" by simp
    show ?thesis
      by (rule rfold_invariant [where P = "\<lambda>u. keeps_method h mp m u \<and> (Q g \<longrightarrow> Q u)", OF r])
        (use assms(2) method_step(1) that in auto)
  qed (use assms(2) in simp)
  show "keeps_method h mp m g'" using inv [of "\<lambda>_. True"] by simp
  assume st: "stub_level i mp" "takes_stub h m"
  show "entered_by_stub g mp \<Longrightarrow> entered_by_stub g' mp"
    using inv [of "\<lambda>u. entered_by_stub u mp"] method_step(2) st by blast
  assume k: "classes h kp = Some k" "stub_class k" "mp \<in> set (direct_methods k @ virtual_methods k)"
  with assms(2) l have kl: "l = k" by (auto simp: keeps_method_def)
  with assms(1) l k(2) have r: "rfold (InstallStubsForMethod i) ?ms g = Inr g'" by (simp add: InstallStubsForClass_eq)
  show "entered_by_stub g' mp"
    by (rule rfold_establish [where R = "keeps_method h mp m" and x = mp, OF r])
      (use k(3) kl assms(2) method_step st in auto)
qed

lemma visit_stubs:
  assumes "VisitClasses (InstallStubsForClass i) h = Inr h'" "methods h mp = Some m"
  shows "(\<not> stub_target h mp \<longrightarrow> methods h' mp = Some m) \<and>
     (stub_target h mp \<longrightarrow> stub_level i mp \<longrightarrow> takes_stub h m \<longrightarrow> entered_by_stub h' mp)"
proof (intro conjI impI)
  from assms(1) have r: "rfold (InstallStubsForClass i) (class_table h) h = Inr h'" by (simp add: VisitClasses_def)
  have start: "keeps_method h mp m h" using assms(2) by (auto simp: keeps_method_def same_method_refl)
  show "methods h' mp = Some m" if no: "\<not> stub_target h mp"
  proof -
    have "keeps_method h mp m h' \<and> methods h' mp = Some m"
    proof (rule rfold_invariant [where P = "\<lambda>g. keeps_method h mp m g \<and> methods g mp = Some m", OF r])
      fix kp g g'
      assume kp: "kp \<in> set (class_table h)" "keeps_method h mp m g \<and> methods g mp = Some m" "InstallStubsForClass i kp g = Inr g'"
      then obtain k where k: "classes g kp = Some k" by (auto simp: InstallStubsForClass_def rbind_eq_Inr)
      with kp no have "\<not> (stub_class k \<and> mp \<in> set (direct_methods k @ virtual_methods k))"
        by (auto simp: stub_target_def keeps_method_def)
      from InstallStubsForClass_other [OF kp(3) k this] class_step(1) [OF kp(3)] kp(2)
      show "keeps_method h mp m g' \<and> methods g' mp = Some m" by simp
    qed (use start assms(2) in simp)
    then show ?thesis ..
  qed
  show "entered_by_stub h' mp" if st: "stub_target h mp" "stub_level i mp" "takes_stub h m"
  proof -
    from st(1) obtain kp k where k: "kp \<in> set (class_table h)" "classes h kp = Some k" "stub_class k"
        "mp \<in> set (direct_methods k @ virtual_methods k)"
      by (auto simp: stub_target_def)
    show ?thesis
    proof (rule rfold_establish [where R = "keeps_method h mp m", OF r k(1) start])
      fix y g g'
      assume g: "keeps_method h mp m g" "InstallStubsForClass i y g = Inr g'"
      show "keeps_method h mp m g'" by (rule class_step(1) [OF g(2,1)])
      show "entered_by_stub g mp \<Longrightarrow> entered_by_stub g' mp" by (rule class_step(2) [OF g(2,1) st(2,3)])
    next
      fix g g'
      assume "keeps_method h mp m g" "InstallStubsForClass i kp g = Inr g'"
      from class_step(3) [OF this(2,1) st(2,3) k(2-4)] show "entered_by_stub g' mp" .
    qed
  qed
qed


abbreviation sample_instr :: Instrumentation where
  "sample_instr \<equiv> set_stub_flags kInstrumentWithInstrumentationStubs new_Instrumentation"

lemma sample_instr_level: "stub_level sample_instr mp"
  by (simp add: stub_level_def set_stub_flags_def level_order is_deoptimized_def new_Instrumentation_def)

lemma sample_takes_stub: "takes_stub sample_heap sample_method" "stub_target sample_heap 0x70001230"
  by (auto simp: takes_stub_def stub_target_def stub_class_def sample_heap_def sample_method_def sample_class_def IsAbstract_def
      IsProxyClass_def IsConstructor_def IsInitialized_def IsErroneous_def IsResolved_def class_IsMiniTraceable_def
      has_flag_def kAcc_defs)

lemma sample_installs: "\<exists>h'. VisitClasses (InstallStubsForClass sample_instr) sample_heap = Inr h'"
proof -
  have code: "stub_code sample_instr mp m True sample_heap = Inr QuickInstrumentationEntryPoint" for mp m
    using sample_instr_level [of mp] by (simp add: stub_code_def stub_level_def Let_def)
  have "stub_class sample_class"
    by (simp add: stub_class_def sample_class_def IsErroneous_def IsResolved_def class_IsMiniTraceable_def has_flag_def kAcc_defs)
  moreover have "\<exists>h'. InstallStubsForMethod sample_instr 0x70001230 sample_heap = Inr h'"
  proof -
    have "classes sample_heap (declaring_class sample_method) = Some sample_class" "IsInitialized sample_class"
        "\<not> IsProxyClass sample_class" "\<not> IsAbstract sample_method" "\<not> IsConstructor sample_method" "jit_code_map sample_heap = None"
      by (simp_all add: sample_heap_def sample_method_def sample_class_def IsInitialized_def IsProxyClass_def IsAbstract_def
          IsConstructor_def has_flag_def kAcc_defs)
    then show ?thesis
      by (simp add: InstallStubsForMethod_def IsProxyMethod_def code UpdateEntrypoints_def Let_def
          IsQuickToInterpreterBridge_def IsQuickResolutionStub_def)
  qed
  moreover have "direct_methods sample_class @ virtual_methods sample_class = [0x70001230]" by (simp add: sample_class_def)
  ultimately show ?thesis by (auto simp: VisitClasses_def InstallStubsForClass_eq [where k = sample_class])
qed


lemma undeoptimize_all_empties: "undeoptimize_all e v = Inr v' \<Longrightarrow> deoptimized_methods (vm_instr v') = []"
proof (induction e v rule: undeoptimize_all.induct)
  case (1 e v)
  show ?case
  proof (cases "deoptimized_methods (vm_instr v)")
    case Nil
    with 1(2) show ?thesis by (simp add: undeoptimize_all.simps [of e v] BeginDeoptimizedMethod_def)
  next
    case (Cons m ms)
    then have b: "BeginDeoptimizedMethod (vm_instr v) = Some m" by (simp add: BeginDeoptimizedMethod_def)
    with 1(2) obtain u where "Undeoptimize e m v = Inr u" "undeoptimize_all e u = Inr v'" "m \<noteq> 0"
      by (auto simp: undeoptimize_all.simps [of e v] rbind_eq_Inr)
    with 1(1) [OF b] show ?thesis by auto
  qed
qed

text \<open>DisableDeoptimization ends, and leaves no method deoptimized and deoptimization
  disabled.\<close>

lemma DisableDeoptimization_empties:
  assumes "DisableDeoptimization e key v = Inr v'"
  shows "deoptimized_methods (vm_instr v') = [] \<and> \<not> deoptimization_enabled (vm_instr v')"
  using assms undeoptimize_all_empties by (auto simp: DisableDeoptimization_def rbind_eq_Inr)

end
