(* ===== verification/Utf.thy ===== *)
theory Utf
  imports Art_Prelude
begin

text \<open>
  Modified UTF-8 and UTF-16 (runtime/utf-inl.h, runtime/utf.cc). A \<open>const char*\<close> is the list
  of the bytes from the pointer to the end of its allocation, so that a C string is its bytes
  followed by a zero byte and reading from the empty list is a read out of bounds. On the
  target \<open>char\<close> is unsigned.
\<close>

section \<open>Decoding one character\<close>

definition GetTrailingUtf16Char :: "u32 \<Rightarrow> u16" where
  "GetTrailingUtf16Char maybe_pair = ucast (drop_bit 16 maybe_pair)"

definition GetLeadingUtf16Char :: "u32 \<Rightarrow> u16" where
  "GetLeadingUtf16Char maybe_pair = ucast (maybe_pair AND 0x0000FFFF)"

fun next_byte :: "u8 list \<Rightarrow> (u8 \<times> u8 list) res" where
  "next_byte [] = Inl OutOfBounds"
| "next_byte (b # p) = Inr (b, p)"

abbreviation byte_bits :: "u8 \<Rightarrow> u8 \<Rightarrow> nat \<Rightarrow> u32" where
  "byte_bits b m n \<equiv> push_bit n (ucast (b AND m))"

definition surrogate_pair :: "u32 \<Rightarrow> u32" where
  "surrogate_pair code_point =
     ((drop_bit 10 code_point + 0xd7c0) AND 0xffff) OR push_bit 16 ((code_point AND 0x03ff) + 0xdc00)"

definition GetUtf16FromUtf8 :: "u8 list \<Rightarrow> (u32 \<times> u8 list) res" where
  "GetUtf16FromUtf8 p =
     rbind (next_byte p) (\<lambda>(one, p).
     if one AND 0x80 = 0 then Inr (ucast one, p) else
     rbind (next_byte p) (\<lambda>(two, p).
     if one AND 0x20 = 0 then Inr (byte_bits one 0x1f 6 OR byte_bits two 0x3f 0, p) else
     rbind (next_byte p) (\<lambda>(three, p).
     if one AND 0x10 = 0
     then Inr (byte_bits one 0x0f 12 OR byte_bits two 0x3f 6 OR byte_bits three 0x3f 0, p) else
     rbind (next_byte p) (\<lambda>(four, p).
     Inr (surrogate_pair (byte_bits one 0x0f 18 OR byte_bits two 0x3f 12 OR
            byte_bits three 0x3f 6 OR byte_bits four 0x3f 0), p)))))"

lemma next_byte_eq: "next_byte p = Inr (b, q) \<longleftrightarrow> p = b # q"
  by (cases p) auto

lemma GetUtf16FromUtf8_shorter: "GetUtf16FromUtf8 p = Inr (ch, q) \<Longrightarrow> length q < length p"
  by (auto simp: GetUtf16FromUtf8_def rbind_eq_Inr next_byte_eq split: if_splits)

section \<open>Whole strings\<close>

text \<open>The number of UTF-16 units of a string; the loop steps over the bytes without reading them.\<close>

definition skip :: "nat \<Rightarrow> u8 list \<Rightarrow> u8 list" where
  "skip n p = drop n p"

function CountModifiedUtf8Chars :: "u8 list \<Rightarrow> nat res" where
  "CountModifiedUtf8Chars p =
     rbind (next_byte p) (\<lambda>(ic, p).
     if ic = 0 then Inr 0
     else if ic AND 0x80 = 0 then rbind (CountModifiedUtf8Chars p) (\<lambda>n. Inr (n + 1))
     else if ic AND 0x20 = 0 then rbind (CountModifiedUtf8Chars (skip 1 p)) (\<lambda>n. Inr (n + 1))
     else if ic AND 0x10 = 0 then rbind (CountModifiedUtf8Chars (skip 2 p)) (\<lambda>n. Inr (n + 1))
     else rbind (CountModifiedUtf8Chars (skip 3 p)) (\<lambda>n. Inr (n + 2)))"
  by pat_completeness auto
termination
  by (relation "measure length") (auto simp: next_byte_eq skip_def)

function ConvertModifiedUtf8ToUtf16 :: "u8 list \<Rightarrow> u16 list res" where
  "ConvertModifiedUtf8ToUtf16 p =
     (case p of [] \<Rightarrow> Inl OutOfBounds
      | b # _ \<Rightarrow> if b = 0 then Inr [] else
          rbind (GetUtf16FromUtf8 p) (\<lambda>(ch, p).
          rbind (ConvertModifiedUtf8ToUtf16 p) (\<lambda>out.
          let leading = GetLeadingUtf16Char ch; trailing = GetTrailingUtf16Char ch in
          Inr (if trailing \<noteq> 0 then leading # trailing # out else leading # out))))"
  by pat_completeness auto
termination
  by (relation "measure length") (auto dest: GetUtf16FromUtf8_shorter)

declare CountModifiedUtf8Chars.simps [simp del] ConvertModifiedUtf8ToUtf16.simps [simp del]

definition high_surrogate :: "u16 \<Rightarrow> bool" where
  "high_surrogate ch \<longleftrightarrow> 0xd800 \<le> ch \<and> ch \<le> 0xdbff"

definition low_surrogate :: "u16 \<Rightarrow> bool" where
  "low_surrogate ch \<longleftrightarrow> 0xdc00 \<le> ch \<and> ch \<le> 0xdfff"

definition code_point_of :: "u16 \<Rightarrow> u16 \<Rightarrow> u32" where
  "code_point_of ch ch2 = push_bit 10 (ucast ch) + ucast ch2 - 0x035fdc00"

definition pair_bytes :: "u32 \<Rightarrow> u8 list" where
  "pair_bytes code_point =
     [ucast (drop_bit 18 code_point) OR 0xf0, ucast (drop_bit 12 code_point AND 0x3f) OR 0x80,
      ucast (drop_bit 6 code_point AND 0x3f) OR 0x80, ucast (code_point AND 0x3f) OR 0x80]"

text \<open>The encoding of a unit that is not part of a pair.\<close>

definition unit_bytes :: "u16 \<Rightarrow> u8 list" where
  "unit_bytes ch =
     (if 0 < ch \<and> ch \<le> 0x7f then [ucast ch]
      else if ch > 0x07ff
      then [ucast (drop_bit 12 ch) OR 0xe0, ucast (drop_bit 6 ch AND 0x3f) OR 0x80, ucast (ch AND 0x3f) OR 0x80]
      else [ucast (drop_bit 6 ch) OR 0xc0, ucast (ch AND 0x3f) OR 0x80])"

fun ConvertUtf16ToModifiedUtf8 :: "u16 list \<Rightarrow> u8 list" where
  "ConvertUtf16ToModifiedUtf8 [] = []"
| "ConvertUtf16ToModifiedUtf8 [ch] = unit_bytes ch"
| "ConvertUtf16ToModifiedUtf8 (ch # ch2 # cs) =
     (if high_surrogate ch \<and> low_surrogate ch2
      then pair_bytes (code_point_of ch ch2) @ ConvertUtf16ToModifiedUtf8 cs
      else unit_bytes ch @ ConvertUtf16ToModifiedUtf8 (ch2 # cs))"

fun CountUtf8Bytes :: "u16 list \<Rightarrow> nat" where
  "CountUtf8Bytes [] = 0"
| "CountUtf8Bytes (ch # cs) =
     (if 0 < ch \<and> ch \<le> 0x7f then 1 + CountUtf8Bytes cs
      else if high_surrogate ch
      then case cs of
             ch2 # cs' \<Rightarrow> if low_surrogate ch2 then 4 + CountUtf8Bytes cs' else 3 + CountUtf8Bytes cs
           | [] \<Rightarrow> 3 + CountUtf8Bytes cs
      else if ch > 0x7ff then 3 + CountUtf8Bytes cs
      else 2 + CountUtf8Bytes cs)"

section \<open>Hashes and comparison\<close>

definition ComputeUtf16Hash :: "u16 list \<Rightarrow> u32" where
  "ComputeUtf16Hash chars = fold (\<lambda>c hash. hash * 31 + ucast c) chars 0"

text \<open>The loop reads up to the terminating zero byte.\<close>

fun utf8_hash :: "u8 list \<Rightarrow> u32 \<Rightarrow> u32 res" where
  "utf8_hash [] hash = Inl OutOfBounds"
| "utf8_hash (b # p) hash = (if b = 0 then Inr hash else utf8_hash p (hash * 31 + ucast b))"

definition ComputeModifiedUtf8Hash :: "u8 list \<Rightarrow> u32 res" where
  "ComputeModifiedUtf8Hash chars = utf8_hash chars 0"

function CompareModifiedUtf8ToUtf16AsCodePointValues :: "u8 list \<Rightarrow> u16 list \<Rightarrow> int res" where
  "CompareModifiedUtf8ToUtf16AsCodePointValues p us =
     (case p of [] \<Rightarrow> Inl OutOfBounds
      | b # _ \<Rightarrow>
        if b = 0 then Inr (if us = [] then 0 else -1)
        else case us of [] \<Rightarrow> Inr 1
        | rhs # us' \<Rightarrow>
          rbind (GetUtf16FromUtf8 p) (\<lambda>(pair, p).
          let lhs = GetLeadingUtf16Char pair; lhs2 = GetTrailingUtf16Char pair in
          if lhs \<noteq> rhs then Inr (if lhs > rhs then 1 else -1)
          else if lhs2 \<noteq> 0
          then case us' of [] \<Rightarrow> Inr 1
               | rhs2 # us'' \<Rightarrow>
                   if lhs2 \<noteq> rhs2 then Inr (if lhs2 > rhs2 then 1 else -1)
                   else CompareModifiedUtf8ToUtf16AsCodePointValues p us''
          else CompareModifiedUtf8ToUtf16AsCodePointValues p us'))"
  by pat_completeness auto
termination
  by (relation "measure (\<lambda>(p, us). length us)") (auto split: list.splits)

declare CompareModifiedUtf8ToUtf16AsCodePointValues.simps [simp del]

text \<open>The result of the comparison of two UTF-8 strings is a difference of units, as an \<open>int\<close>.\<close>

definition unit_difference :: "u32 \<Rightarrow> u32 \<Rightarrow> int" where
  "unit_difference c1 c2 =
     (let d = int (unat (GetLeadingUtf16Char c1)) - int (unat (GetLeadingUtf16Char c2)) in
      if d \<noteq> 0 then d
      else int (unat (GetTrailingUtf16Char c1)) - int (unat (GetTrailingUtf16Char c2)))"

function CompareModifiedUtf8ToModifiedUtf8AsUtf16CodePointValues :: "u8 list \<Rightarrow> u8 list \<Rightarrow> int res" where
  "CompareModifiedUtf8ToModifiedUtf8AsUtf16CodePointValues p q =
     (case p of [] \<Rightarrow> Inl OutOfBounds
      | c1 # _ \<Rightarrow> (case q of [] \<Rightarrow> Inl OutOfBounds
      | c2 # _ \<Rightarrow>
        if c1 = 0 then Inr (if c2 = 0 then 0 else -1)
        else if c2 = 0 then Inr 1
        else
          rbind (GetUtf16FromUtf8 p) (\<lambda>(c1, p).
          rbind (GetUtf16FromUtf8 q) (\<lambda>(c2, q).
          if c1 = c2 then CompareModifiedUtf8ToModifiedUtf8AsUtf16CodePointValues p q
          else Inr (unit_difference c1 c2)))))"
  by pat_completeness auto
termination
  by (relation "measure (\<lambda>(p, q). length p)") (auto dest: GetUtf16FromUtf8_shorter)

declare CompareModifiedUtf8ToModifiedUtf8AsUtf16CodePointValues.simps [simp del]

section \<open>One character decoded\<close>

lemma bit_below: "unat w < 2 ^ k \<Longrightarrow> bit w n \<Longrightarrow> n < k" for w :: "'a::len word"
proof -
  assume w: "unat w < 2 ^ k" "bit w n"
  then have "odd (unat w div 2 ^ n)" by (simp add: bit_unsigned_iff flip: bit_iff_odd)
  then have "2 ^ n \<le> unat w" by (metis div_less even_zero not_less)
  with w(1) have "(2 :: nat) ^ n < 2 ^ k" by linarith
  then show "n < k" by simp
qed

named_theorems utf_bits \<open>bits of the constants of the encoding\<close>

lemma flag_tests [utf_bits]:
  "w AND 0x80 = 0 \<longleftrightarrow> \<not> bit w 7" "w AND 0x20 = 0 \<longleftrightarrow> \<not> bit w 5" "w AND 0x10 = 0 \<longleftrightarrow> \<not> bit w 4" for w :: u8
  using and_exp_eq_0_iff_not_bit [of w 7] and_exp_eq_0_iff_not_bit [of w 5] and_exp_eq_0_iff_not_bit [of w 4]
  by simp_all

lemma low_masks [utf_bits]:
  "w AND 0x3f = take_bit 6 w" "w AND 0x1f = take_bit 5 w" "w AND 0x0f = take_bit 4 w"
  "w AND 0xffff = take_bit 16 w" "w AND 0x3ff = take_bit 10 w" for w :: "'a::len word"
  by (simp_all add: take_bit_eq_mask mask_eq_exp_minus_1)

lemma mark_bits [utf_bits]:
  "bit (0x80 :: u8) n \<longleftrightarrow> n = 7" "bit (0xc0 :: u8) n \<longleftrightarrow> n = 7 \<or> n = 6"
  "bit (0xe0 :: u8) n \<longleftrightarrow> n = 7 \<or> n = 6 \<or> n = 5" "bit (0xf0 :: u8) n \<longleftrightarrow> n = 7 \<or> n = 6 \<or> n = 5 \<or> n = 4"
proof -
  have e: "bit (2 ^ k :: u8) n \<longleftrightarrow> k < 8 \<and> n = k" for k by (auto simp: bit_exp_iff)
  have c: "(0x80 :: u8) = 2 ^ 7" "(0xc0 :: u8) = 2 ^ 7 OR 2 ^ 6"
      "(0xe0 :: u8) = 2 ^ 7 OR 2 ^ 6 OR 2 ^ 5" "(0xf0 :: u8) = 2 ^ 7 OR 2 ^ 6 OR 2 ^ 5 OR 2 ^ 4"
    by simp_all
  show "bit (0x80 :: u8) n \<longleftrightarrow> n = 7" "bit (0xc0 :: u8) n \<longleftrightarrow> n = 7 \<or> n = 6"
    "bit (0xe0 :: u8) n \<longleftrightarrow> n = 7 \<or> n = 6 \<or> n = 5" "bit (0xf0 :: u8) n \<longleftrightarrow> n = 7 \<or> n = 6 \<or> n = 5 \<or> n = 4"
    unfolding c bit_or_iff e by auto
qed

lemma decode_ascii:
  fixes ch :: u16
  assumes "0 < ch" "ch \<le> 0x7f"
  shows "GetUtf16FromUtf8 (ucast ch # p) = Inr (ucast ch, p)"
proof -
  from assms(2) have small: "bit ch n \<Longrightarrow> n < 7" for n
    using bit_below [of ch 7 n] by (simp add: word_le_nat_alt)
  have "ucast (ucast ch :: u8) = (ucast ch :: u32)"
    by (rule bit_word_eqI) (auto simp: bit_simps dest: small)
  moreover have "\<not> bit (ucast ch :: u8) 7" using small [of 7] by (auto simp: bit_simps)
  ultimately show ?thesis by (simp add: GetUtf16FromUtf8_def utf_bits)
qed

lemma decode_two:
  fixes ch :: u16
  assumes "ch \<le> 0x7ff"
  shows "GetUtf16FromUtf8 ((ucast (drop_bit 6 ch) OR 0xc0) # (ucast (ch AND 0x3f) OR 0x80) # p) = Inr (ucast ch, p)"
proof -
  from assms have small: "bit ch n \<Longrightarrow> n < 11" for n
    using bit_below [of ch 11 n] by (simp add: word_le_nat_alt)
  have "byte_bits (ucast (drop_bit 6 ch) OR 0xc0) 0x1f 6 OR byte_bits (ucast (ch AND 0x3f) OR 0x80) 0x3f 0 = ucast ch"
    by (rule bit_word_eqI) (auto simp: utf_bits bit_simps dest: small)
  moreover have "bit (ucast (drop_bit 6 ch) OR 0xc0 :: u8) 7" "\<not> bit (ucast (drop_bit 6 ch) OR 0xc0 :: u8) 5"
    using small [of 11] by (auto simp: utf_bits bit_simps)
  ultimately show ?thesis by (simp add: GetUtf16FromUtf8_def flag_tests)
qed

lemma decode_three:
  fixes ch :: u16
  shows "GetUtf16FromUtf8 ((ucast (drop_bit 12 ch) OR 0xe0) # (ucast (drop_bit 6 ch AND 0x3f) OR 0x80) #
           (ucast (ch AND 0x3f) OR 0x80) # p) = Inr (ucast ch, p)"
proof -
  have small: "bit ch n \<Longrightarrow> n < 16" for n using bit_imp_le_length [of ch n] by simp
  have "byte_bits (ucast (drop_bit 12 ch) OR 0xe0) 0x0f 12 OR byte_bits (ucast (drop_bit 6 ch AND 0x3f) OR 0x80) 0x3f 6 OR
      byte_bits (ucast (ch AND 0x3f) OR 0x80) 0x3f 0 = ucast ch"
  proof (rule bit_word_eqI, goal_cases)
    case (1 n)
    consider "n < 6" | "6 \<le> n" "n < 12" | "12 \<le> n" by linarith
    then show ?case by cases (auto simp: utf_bits bit_simps dest: small)
  qed
  moreover have "bit (ucast (drop_bit 12 ch) OR 0xe0 :: u8) 7" "bit (ucast (drop_bit 12 ch) OR 0xe0 :: u8) 5"
      "\<not> bit (ucast (drop_bit 12 ch) OR 0xe0 :: u8) 4"
    using small [of 16] by (auto simp: utf_bits bit_simps)
  ultimately show ?thesis by (simp add: GetUtf16FromUtf8_def flag_tests)
qed

lemma decode_unit: "GetUtf16FromUtf8 (unit_bytes ch @ p) = Inr (ucast ch, p)"
  using decode_ascii [of ch p] decode_two [of ch p] decode_three [of ch p]
  by (auto simp: unit_bytes_def not_less)

lemma decode_four:
  fixes cp :: u32
  assumes "unat cp < 2 ^ 21"
  shows "GetUtf16FromUtf8 (pair_bytes cp @ p) = Inr (surrogate_pair cp, p)"
proof -
  from assms have small: "bit cp n \<Longrightarrow> n < 21" for n using bit_below [of cp 21 n] by simp
  have "byte_bits (ucast (drop_bit 18 cp) OR 0xf0) 0x0f 18 OR byte_bits (ucast (drop_bit 12 cp AND 0x3f) OR 0x80) 0x3f 12 OR
      byte_bits (ucast (drop_bit 6 cp AND 0x3f) OR 0x80) 0x3f 6 OR byte_bits (ucast (cp AND 0x3f) OR 0x80) 0x3f 0 = cp"
  proof (rule bit_word_eqI, goal_cases)
    case (1 n)
    consider "n < 6" | "6 \<le> n" "n < 12" | "12 \<le> n" "n < 18" | "18 \<le> n" by linarith
    then show ?case by cases (auto simp: utf_bits bit_simps dest: small)
  qed
  moreover have "bit (ucast (drop_bit 18 cp) OR 0xf0 :: u8) 7" "bit (ucast (drop_bit 18 cp) OR 0xf0 :: u8) 5"
      "bit (ucast (drop_bit 18 cp) OR 0xf0 :: u8) 4"
    by (auto simp: utf_bits bit_simps)
  ultimately show ?thesis by (simp add: GetUtf16FromUtf8_def pair_bytes_def flag_tests)
qed

lemma code_point_nat:
  assumes "high_surrogate ch" "low_surrogate ch2"
  obtains a b where "a < 1024" "b < 1024" "unat ch = 0xd800 + a" "unat ch2 = 0xdc00 + b"
    "unat (code_point_of ch ch2) = 0x10000 + 1024 * a + b"
proof -
  define a b where "a = unat ch - 0xd800" and "b = unat ch2 - 0xdc00"
  from assms have ab: "a < 1024" "b < 1024" "unat ch = 0xd800 + a" "unat ch2 = 0xdc00 + b"
    by (auto simp: a_def b_def high_surrogate_def low_surrogate_def word_le_nat_alt)
  have n: "1024 * unat ch + unat ch2 = (0x10000 + 1024 * a + b) + 0x35fdc00" using ab(3,4) by simp
  have "push_bit 10 (ucast ch) + ucast ch2 = (of_nat (1024 * unat ch + unat ch2) :: u32)"
    by (simp add: push_bit_eq_mult)
  also have "\<dots> = of_nat (0x10000 + 1024 * a + b) + 0x035fdc00" unfolding n by simp
  finally have "code_point_of ch ch2 = of_nat (0x10000 + 1024 * a + b)" by (simp add: code_point_of_def)
  with ab(1,2) have "unat (code_point_of ch ch2) = 0x10000 + 1024 * a + b"
    by (simp only: unat_of_nat) (simp add: take_bit_nat_eq_self)
  with ab that show thesis by blast
qed

lemma decode_pair:
  assumes "high_surrogate ch" "low_surrogate ch2"
  shows "GetUtf16FromUtf8 (pair_bytes (code_point_of ch ch2) @ p) = Inr (ucast ch OR push_bit 16 (ucast ch2), p)"
proof -
  obtain a b where ab: "a < 1024" "b < 1024" "unat ch = 0xd800 + a" "unat ch2 = 0xdc00 + b"
      and cp: "unat (code_point_of ch ch2) = 0x10000 + 1024 * a + b"
    by (rule code_point_nat [OF assms])
  let ?cp = "code_point_of ch ch2"
  have c1: "(ucast ch :: u32) = of_nat (0xd800 + a)" and c2: "(ucast ch2 :: u32) = of_nat (0xdc00 + b)"
    by (simp_all only: ab(3,4) [symmetric] of_nat_unat)
  have "unat (drop_bit 10 ?cp) = 64 + a" unfolding unat_drop_bit_eq cp using ab(2) by (simp add: drop_bit_eq_div)
  then have d: "drop_bit 10 ?cp = of_nat (64 + a)" by (metis of_nat_unat ucast_id)
  have "0x10000 + 1024 * a + b = b + 1024 * (64 + a)" by simp
  then have "(0x10000 + 1024 * a + b) mod 1024 = b" using ab(2) by (simp only: mod_mult_self2 mod_less)
  then have "unat (take_bit 10 ?cp) = b" unfolding unsigned_take_bit_eq cp by (simp add: take_bit_eq_mod)
  then have t: "take_bit 10 ?cp = of_nat b" by (metis of_nat_unat ucast_id)
  have lead: "take_bit 16 (drop_bit 10 ?cp + 0xd7c0) = ucast ch"
  proof -
    have "drop_bit 10 ?cp + 0xd7c0 = ucast ch" unfolding d c1 by simp
    moreover have "take_bit 16 (ucast ch :: u32) = ucast ch"
      by (rule bit_word_eqI) (auto simp: bit_simps dest: bit_imp_le_length)
    ultimately show ?thesis by simp
  qed
  have "surrogate_pair ?cp = ucast ch OR push_bit 16 (ucast ch2)"
    unfolding surrogate_pair_def low_masks lead t c2 by (simp add: add.commute)
  then show ?thesis using decode_four [of ?cp p] ab(1,2) cp by simp
qed

section \<open>Whole strings\<close>

lemma units_of_char [simp]:
  "GetLeadingUtf16Char (ucast ch) = ch" "GetTrailingUtf16Char (ucast ch) = 0"
  "GetLeadingUtf16Char (ucast ch OR push_bit 16 (ucast ch2)) = ch"
  "GetTrailingUtf16Char (ucast ch OR push_bit 16 (ucast ch2)) = ch2"
  by (rule bit_word_eqI;
      auto simp: GetLeadingUtf16Char_def GetTrailingUtf16Char_def low_masks bit_simps dest: bit_imp_le_length)+

lemma low_surrogate_nonzero: "low_surrogate ch \<Longrightarrow> ch \<noteq> 0"
  by (auto simp: low_surrogate_def)

lemma marked_nonzero: "bit w 7 \<Longrightarrow> w \<noteq> (0 :: u8)"
  by auto

lemma first_bytes:
  "\<exists>b q. unit_bytes ch = b # q \<and> b \<noteq> 0" "\<exists>b q. pair_bytes cp = b # q \<and> b \<noteq> 0"
proof -
  have "ucast ch \<noteq> (0 :: u8)" if "0 < ch" "ch \<le> 0x7f"
  proof
    assume z: "ucast ch = (0 :: u8)"
    have "unat ch < 2 ^ 7" using that by (simp add: word_le_nat_alt)
    then have "ch = 0" using arg_cong [OF z, of "\<lambda>w. bit w n" for n] bit_below [of ch 7]
      by (intro bit_word_eqI) (fastforce simp: bit_simps)
    with that show False by simp
  qed
  then show "\<exists>b q. unit_bytes ch = b # q \<and> b \<noteq> 0" "\<exists>b q. pair_bytes cp = b # q \<and> b \<noteq> 0"
    by (auto simp: unit_bytes_def pair_bytes_def intro!: marked_nonzero simp: bit_or_iff mark_bits)
qed

lemma convert_step:
  "ConvertModifiedUtf8ToUtf16 (unit_bytes ch @ p) = rbind (ConvertModifiedUtf8ToUtf16 p) (\<lambda>out. Inr (ch # out))"
  "high_surrogate ch \<Longrightarrow> low_surrogate ch2 \<Longrightarrow>
     ConvertModifiedUtf8ToUtf16 (pair_bytes (code_point_of ch ch2) @ p) =
       rbind (ConvertModifiedUtf8ToUtf16 p) (\<lambda>out. Inr (ch # ch2 # out))"
proof -
  obtain b q where b: "unit_bytes ch = b # q" "b \<noteq> 0" using first_bytes(1) by blast
  have "ConvertModifiedUtf8ToUtf16 (unit_bytes ch @ p) =
      rbind (GetUtf16FromUtf8 (unit_bytes ch @ p)) (\<lambda>(ch, p). rbind (ConvertModifiedUtf8ToUtf16 p) (\<lambda>out.
        let leading = GetLeadingUtf16Char ch; trailing = GetTrailingUtf16Char ch in
        Inr (if trailing \<noteq> 0 then leading # trailing # out else leading # out)))"
    by (subst ConvertModifiedUtf8ToUtf16.simps) (simp add: b)
  then show "ConvertModifiedUtf8ToUtf16 (unit_bytes ch @ p) = rbind (ConvertModifiedUtf8ToUtf16 p) (\<lambda>out. Inr (ch # out))"
    by (simp add: decode_unit)
next
  assume s: "high_surrogate ch" "low_surrogate ch2"
  let ?q = "pair_bytes (code_point_of ch ch2)"
  obtain b q where b: "?q = b # q" "b \<noteq> 0" using first_bytes(2) by blast
  have "ConvertModifiedUtf8ToUtf16 (?q @ p) =
      rbind (GetUtf16FromUtf8 (?q @ p)) (\<lambda>(ch, p). rbind (ConvertModifiedUtf8ToUtf16 p) (\<lambda>out.
        let leading = GetLeadingUtf16Char ch; trailing = GetTrailingUtf16Char ch in
        Inr (if trailing \<noteq> 0 then leading # trailing # out else leading # out)))"
    by (subst ConvertModifiedUtf8ToUtf16.simps) (simp add: b)
  then show "ConvertModifiedUtf8ToUtf16 (?q @ p) = rbind (ConvertModifiedUtf8ToUtf16 p) (\<lambda>out. Inr (ch # ch2 # out))"
    by (simp add: decode_pair [OF s] low_surrogate_nonzero [OF s(2)])
qed

lemma convert_encoded:
  "ConvertModifiedUtf8ToUtf16 (ConvertUtf16ToModifiedUtf8 us @ 0 # rest) = Inr us"
  by (induction us rule: ConvertUtf16ToModifiedUtf8.induct)
    (simp_all add: convert_step ConvertModifiedUtf8ToUtf16.simps [of "0 # rest"])

text \<open>C30: encoding UTF-16 and decoding the result gives the units back, for every sequence of
  units: paired and unpaired surrogates, and the zero unit, which is encoded in two bytes.\<close>

theorem utf_roundtrip:
  "ConvertModifiedUtf8ToUtf16 (ConvertUtf16ToModifiedUtf8 us @ 0 # rest) = Inr us"
  by (rule convert_encoded)

text \<open>CountUtf8Bytes is the length of the encoding ConvertUtf16ToModifiedUtf8 writes.\<close>

lemma CountUtf8Bytes_exact: "CountUtf8Bytes us = length (ConvertUtf16ToModifiedUtf8 us)"
proof -
  have h: "\<not> (0 < ch \<and> ch \<le> 0x7f)" "ch > 0x7ff" if "high_surrogate ch" for ch
    using that by (auto simp: high_surrogate_def word_le_nat_alt word_less_nat_alt)
  show ?thesis
    by (induction us rule: ConvertUtf16ToModifiedUtf8.induct)
      (use h in \<open>auto simp: unit_bytes_def pair_bytes_def\<close>)
qed

lemma trailing_small:
  "GetTrailingUtf16Char (ucast (b :: u8)) = 0"
  "GetTrailingUtf16Char (byte_bits one 0x1f 6 OR byte_bits two 0x3f 0) = 0"
  "GetTrailingUtf16Char (byte_bits one 0x0f 12 OR byte_bits two 0x3f 6 OR byte_bits three 0x3f 0) = 0"
  by (rule bit_word_eqI; auto simp: GetTrailingUtf16Char_def low_masks bit_simps dest: bit_imp_le_length)+

lemma trailing_pair: "GetTrailingUtf16Char (surrogate_pair cp) \<noteq> 0"
proof -
  let ?t = "take_bit 10 cp + 0xdc00"
  have "unat (take_bit 10 cp) < 1024" unfolding unsigned_take_bit_eq by (simp add: take_bit_eq_mod)
  then have "unat ?t = unat (take_bit 10 cp) + 0xdc00" by (subst unat_add_lem [THEN iffD1]) simp_all
  with \<open>unat (take_bit 10 cp) < 1024\<close> have t: "0 < unat ?t" "unat ?t < 2 ^ 16" by simp_all
  have "GetTrailingUtf16Char (surrogate_pair cp) = ucast ?t"
    unfolding GetTrailingUtf16Char_def surrogate_pair_def low_masks
    by (rule bit_word_eqI) (auto simp: bit_simps)
  moreover have "unat (ucast ?t :: u16) = unat ?t" using t(2) by (simp add: unsigned_ucast_eq take_bit_nat_eq_self)
  ultimately show ?thesis using t(1) by (metis unat_0 less_numeral_extra(3))
qed

lemma count_shift:
  "rbind (rbind m (\<lambda>us. Inr (length us))) (\<lambda>n. Inr (n + k)) = rbind m (\<lambda>us. Inr (length us + k))"
  by (simp add: rbind_assoc)

lemma convert_of_byte:
  assumes "b \<noteq> 0"
  shows "ConvertModifiedUtf8ToUtf16 (b # p) =
    rbind (GetUtf16FromUtf8 (b # p)) (\<lambda>(ch, q). rbind (ConvertModifiedUtf8ToUtf16 q) (\<lambda>out.
      Inr (if GetTrailingUtf16Char ch \<noteq> 0 then GetLeadingUtf16Char ch # GetTrailingUtf16Char ch # out
           else GetLeadingUtf16Char ch # out)))"
  using assms by (subst ConvertModifiedUtf8ToUtf16.simps) (simp add: Let_def)

lemma decode_by_length:
  "\<not> bit b 7 \<Longrightarrow> GetUtf16FromUtf8 (b # p) = Inr (ucast b, p)"
  "bit b 7 \<Longrightarrow> \<not> bit b 5 \<Longrightarrow> GetUtf16FromUtf8 (b # p) = rbind (next_byte p) (\<lambda>(two, p).
     Inr (byte_bits b 0x1f 6 OR byte_bits two 0x3f 0, p))"
  "bit b 7 \<Longrightarrow> bit b 5 \<Longrightarrow> \<not> bit b 4 \<Longrightarrow> GetUtf16FromUtf8 (b # p) = rbind (next_byte p) (\<lambda>(two, p).
     rbind (next_byte p) (\<lambda>(three, p). Inr (byte_bits b 0x0f 12 OR byte_bits two 0x3f 6 OR byte_bits three 0x3f 0, p)))"
  "bit b 7 \<Longrightarrow> bit b 5 \<Longrightarrow> bit b 4 \<Longrightarrow> GetUtf16FromUtf8 (b # p) = rbind (next_byte p) (\<lambda>(two, p).
     rbind (next_byte p) (\<lambda>(three, p). rbind (next_byte p) (\<lambda>(four, p).
       Inr (surrogate_pair (byte_bits b 0x0f 18 OR byte_bits two 0x3f 12 OR byte_bits three 0x3f 6 OR byte_bits four 0x3f 0), p))))"
  by (simp_all add: GetUtf16FromUtf8_def flag_tests)

lemma count_by_length:
  "b \<noteq> 0 \<Longrightarrow> CountModifiedUtf8Chars (b # p) =
     (if \<not> bit b 7 then rbind (CountModifiedUtf8Chars p) (\<lambda>n. Inr (n + 1))
      else if \<not> bit b 5 then rbind (CountModifiedUtf8Chars (drop 1 p)) (\<lambda>n. Inr (n + 1))
      else if \<not> bit b 4 then rbind (CountModifiedUtf8Chars (drop 2 p)) (\<lambda>n. Inr (n + 1))
      else rbind (CountModifiedUtf8Chars (drop 3 p)) (\<lambda>n. Inr (n + 2)))"
  by (subst CountModifiedUtf8Chars.simps) (simp add: flag_tests skip_def)

lemma count_of_Nil:
  "CountModifiedUtf8Chars [] = Inl OutOfBounds" "ConvertModifiedUtf8ToUtf16 [] = Inl OutOfBounds"
  by (subst CountModifiedUtf8Chars.simps, simp) (subst ConvertModifiedUtf8ToUtf16.simps, simp)

lemma count_converted:
  "CountModifiedUtf8Chars p = rbind (ConvertModifiedUtf8ToUtf16 p) (\<lambda>us. Inr (length us))"
proof (induction p rule: measure_induct_rule [of length])
  case (less p)
  show ?case
  proof (cases p)
    case Nil
    then show ?thesis by (simp add: count_of_Nil ConvertModifiedUtf8ToUtf16.simps)
  next
    case (Cons b q)
    have IH: "length r < length p \<Longrightarrow> CountModifiedUtf8Chars r = rbind (ConvertModifiedUtf8ToUtf16 r) (\<lambda>us. Inr (length us))" for r
      by (rule less)
    show ?thesis
    proof (cases "b = 0")
      case True
      then show ?thesis by (simp add: Cons CountModifiedUtf8Chars.simps ConvertModifiedUtf8ToUtf16.simps)
    next
      case b: False
      note steps = Cons b convert_of_byte count_by_length decode_by_length count_of_Nil rbind_assoc
        trailing_small [simplified] trailing_pair
      consider "\<not> bit b 7" | "bit b 7" "\<not> bit b 5" | "bit b 7" "bit b 5" "\<not> bit b 4" | "bit b 7" "bit b 5" "bit b 4" by blast
      then show ?thesis
      proof cases
        case 1
        then show ?thesis using IH [of q] by (simp add: steps)
      next
        case 2
        then show ?thesis using IH [of "drop 1 q"] by (cases q) (simp_all add: steps)
      next
        case 3
        then show ?thesis using IH [of "drop 2 q"] by (cases q; cases "tl q") (simp_all add: steps)
      next
        case 4
        then show ?thesis using IH [of "drop 3 q"]
          by (cases q; cases "tl q"; cases "tl (tl q)") (simp_all add: steps)
      qed
    qed
  qed
qed

text \<open>CountModifiedUtf8Chars counts the units ConvertModifiedUtf8ToUtf16 produces, for every
  sequence of bytes, well formed or not; it reads past the allocation exactly when the
  conversion does.\<close>

lemma CountModifiedUtf8Chars_exact:
  "CountModifiedUtf8Chars p = rbind (ConvertModifiedUtf8ToUtf16 p) (\<lambda>us. Inr (length us))"
  by (rule count_converted)

section \<open>Comparison\<close>

text \<open>The order of UTF-16 strings by their units.\<close>

fun unit_order :: "u16 list \<Rightarrow> u16 list \<Rightarrow> int" where
  "unit_order [] [] = 0"
| "unit_order [] (y # ys) = -1"
| "unit_order (x # xs) [] = 1"
| "unit_order (x # xs) (y # ys) = (if x \<noteq> y then (if x > y then 1 else -1) else unit_order xs ys)"

lemma convert_cases:
  assumes "ConvertModifiedUtf8ToUtf16 p = Inr vs"
  obtains (zero) q where "p = 0 # q" "vs = []"
    | (char) b q ch r out where "p = b # q" "b \<noteq> 0" "GetUtf16FromUtf8 p = Inr (ch, r)" "length r < length p"
        "ConvertModifiedUtf8ToUtf16 r = Inr out"
        "vs = (if GetTrailingUtf16Char ch \<noteq> 0 then GetLeadingUtf16Char ch # GetTrailingUtf16Char ch # out
               else GetLeadingUtf16Char ch # out)"
proof (cases p)
  case Nil
  with assms show ?thesis by (simp add: count_of_Nil)
next
  case (Cons b q)
  show ?thesis
  proof (cases "b = 0")
    case True
    with assms Cons show ?thesis by (intro zero [of q]) (simp_all add: ConvertModifiedUtf8ToUtf16.simps)
  next
    case False
    from assms obtain ch r out where "GetUtf16FromUtf8 p = Inr (ch, r)" "ConvertModifiedUtf8ToUtf16 r = Inr out"
        "vs = (if GetTrailingUtf16Char ch \<noteq> 0 then GetLeadingUtf16Char ch # GetTrailingUtf16Char ch # out
               else GetLeadingUtf16Char ch # out)"
      by (auto simp: Cons convert_of_byte [OF False] rbind_eq_Inr)
    with Cons False show ?thesis by (intro char [of b q ch r out]) (auto dest: GetUtf16FromUtf8_shorter)
  qed
qed

text \<open>Comparing a UTF-8 string with UTF-16 units gives the order of the units the string
  stands for: the comparison that decodes on the fly agrees with converting first.\<close>

lemma compare_utf8_utf16:
  assumes "ConvertModifiedUtf8ToUtf16 p = Inr vs"
  shows "CompareModifiedUtf8ToUtf16AsCodePointValues p us = Inr (unit_order vs us)"
  using assms
proof (induction p arbitrary: vs us rule: measure_induct_rule [of length])
  case (less p)
  from less.prems show ?case
  proof (cases rule: convert_cases)
    case (zero q)
    then show ?thesis by (cases us) (simp_all add: CompareModifiedUtf8ToUtf16AsCodePointValues.simps)
  next
    case (char b q ch r out)
    have IH: "CompareModifiedUtf8ToUtf16AsCodePointValues r ws = Inr (unit_order out ws)" for ws
      by (rule less.IH [OF char(4,5)])
    show ?thesis
    proof (cases us)
      case Nil
      with char show ?thesis by (subst CompareModifiedUtf8ToUtf16AsCodePointValues.simps) simp
    next
      case (Cons u ws)
      with char IH show ?thesis
        by (cases ws; subst CompareModifiedUtf8ToUtf16AsCodePointValues.simps) (simp_all add: Let_def)
    qed
  qed
qed

end
