(* ===== verification/C_Strings.thy ===== *)
theory C_Strings
  imports Utf
begin

text \<open>
  What the runtime uses of the C library on strings: character classes, the number formats of
  printf, strchr, and C strings as bytes with a terminator.
\<close>

definition isspace :: "char \<Rightarrow> bool" where
  "isspace c \<longleftrightarrow> c \<in> {CHR '' '', CHR 0x09, CHR 0x0A, CHR 0x0B, CHR 0x0C, CHR 0x0D}"

definition isdigit :: "char \<Rightarrow> bool" where
  "isdigit c \<longleftrightarrow> 48 \<le> (of_char c :: nat) \<and> (of_char c :: nat) \<le> 57"

text \<open>The bytes of a C string, with the terminating zero.\<close>

definition cstr :: "string \<Rightarrow> u8 list" where
  "cstr s = map of_char s @ [0]"

text \<open>strchr: the rest of the string from the first occurrence of a character.\<close>

definition strchr :: "string \<Rightarrow> char \<Rightarrow> string option" where
  "strchr s c = (case dropWhile (\<lambda>x. x \<noteq> c) s of [] \<Rightarrow> None | r \<Rightarrow> Some r)"

section \<open>Numbers\<close>

function decimal :: "nat \<Rightarrow> string" where
  "decimal n = (if n < 10 then [] else decimal (n div 10)) @ [char_of (48 + n mod 10)]"
  by pat_completeness auto
termination
  by (relation "measure id") simp_all

definition decimal_int :: "int \<Rightarrow> string" where
  "decimal_int z = (if z < 0 then ''-'' else '''') @ decimal (nat (abs z))"

definition hex_digit :: "nat \<Rightarrow> char" where
  "hex_digit d = (if d < 10 then char_of (48 + d) else char_of (87 + d))"

text \<open>The format %x, and %04x of a 16 bit value.\<close>

function hex :: "nat \<Rightarrow> string" where
  "hex n = (if n < 16 then [] else hex (n div 16)) @ [hex_digit (n mod 16)]"
  by pat_completeness auto
termination
  by (relation "measure id") simp_all

definition hex4 :: "nat \<Rightarrow> string" where
  "hex4 n = [hex_digit (n div 4096 mod 16), hex_digit (n div 256 mod 16), hex_digit (n div 16 mod 16), hex_digit (n mod 16)]"

text \<open>The format %p of the target's C library.\<close>

definition pointer_text :: "ptr \<Rightarrow> string" where
  "pointer_text p = ''0x'' @ hex (unat p)"

declare decimal.simps [simp del] hex.simps [simp del]

lemma isdigit_char [simp]: "d < 10 \<Longrightarrow> isdigit (char_of (48 + d))" for d :: nat
  by (simp add: isdigit_def take_bit_nat_eq_self)

lemma decimal_digits: "\<forall>c \<in> set (decimal n). isdigit c"
  by (induction n rule: decimal.induct) (subst decimal.simps, auto)

lemma decimal_line: "CHR 0x0A \<notin> set (decimal n)"
  using decimal_digits [of n] by (auto simp: isdigit_def)

lemma decimal_not_Nil [simp]: "decimal n \<noteq> []"
  by (subst decimal.simps) simp

end
