(* ===== verification/Art_Utils.thy ===== *)
theory Art_Utils
  imports C_Strings Art_Class
begin

text \<open>
  The string functions of runtime/utils.cc: descriptors and signatures for people, names for
  JNI, the validity of member and class names, splitting and trimming. Where the source walks
  a C string, the end of the list is its terminator and walking on is a trap.
\<close>

section \<open>Descriptors\<close>

fun slashes_to_dots_until_semicolon :: "string \<Rightarrow> string res" where
  "slashes_to_dots_until_semicolon [] = Inl OutOfBounds"
| "slashes_to_dots_until_semicolon (ch # p) =
     (if ch = CHR '';'' then Inr []
      else rbind (slashes_to_dots_until_semicolon p) (\<lambda>r. Inr ((if ch = CHR ''/'' then CHR ''.'' else ch) # r)))"

definition primitive_name :: "char \<Rightarrow> string option" where
  "primitive_name c =
     (if c = CHR ''B'' then Some ''byte;'' else if c = CHR ''C'' then Some ''char;''
      else if c = CHR ''D'' then Some ''double;'' else if c = CHR ''F'' then Some ''float;''
      else if c = CHR ''I'' then Some ''int;'' else if c = CHR ''J'' then Some ''long;''
      else if c = CHR ''S'' then Some ''short;'' else if c = CHR ''Z'' then Some ''boolean;''
      else if c = CHR ''V'' then Some ''void;'' else None)"

definition PrettyDescriptor :: "string \<Rightarrow> string res" where
  "PrettyDescriptor descriptor =
     (let dim = length (takeWhile (\<lambda>c. c = CHR ''['') descriptor);
          c = drop dim descriptor
      in case (case c of [] \<Rightarrow> None | ch # c' \<Rightarrow> if ch = CHR ''L'' then Some c' else primitive_name ch) of
           None \<Rightarrow> Inr descriptor
         | Some c \<Rightarrow> rbind (slashes_to_dots_until_semicolon c) (\<lambda>result.
                      Inr (result @ concat (replicate dim ''[]''))))"

text \<open>The loop of PrettyArguments, behind the opening parenthesis.\<close>

definition argument_length :: "string \<Rightarrow> nat res" where
  "argument_length sig =
     (let n = length (takeWhile (\<lambda>c. c = CHR ''['') sig) in
      if n < length sig \<and> sig ! n = CHR ''L''
      then case strchr sig (CHR '';'') of
             None \<Rightarrow> Inl OutOfBounds
           | Some r \<Rightarrow> Inr (length sig - length r + 1)
      else Inr (n + 1))"

lemma strchr_length: "strchr s c = Some r \<Longrightarrow> length r \<le> length s \<and> r \<noteq> []"
proof -
  assume "strchr s c = Some r"
  then have "r = dropWhile (\<lambda>x. x \<noteq> c) s" "r \<noteq> []" by (auto simp: strchr_def split: list.splits)
  then show ?thesis using length_dropWhile_le [of "\<lambda>x. x \<noteq> c" s] by simp
qed

lemma argument_length_pos: "argument_length sig = Inr n \<Longrightarrow> 0 < n"
  by (auto simp: argument_length_def Let_def split: if_splits option.splits)

function pretty_arguments :: "string \<Rightarrow> string res" where
  "pretty_arguments sig =
     (case sig of [] \<Rightarrow> Inl OutOfBounds
      | c # _ \<Rightarrow>
        if c = CHR '')'' then Inr '')''
        else
          rbind (argument_length sig) (\<lambda>n.
          rbind (PrettyDescriptor (take n sig)) (\<lambda>argument.
          if n > length sig then Inl OutOfBounds
          else
            let rest = drop n sig; sep = (if rest \<noteq> [] \<and> hd rest = CHR '')'' then '''' else '', '') in
            rbind (pretty_arguments rest) (\<lambda>result. Inr (argument @ sep @ result)))))"
  by pat_completeness auto
termination
  by (relation "measure length") (auto dest: argument_length_pos)

declare pretty_arguments.simps [simp del]

definition PrettyArguments :: "string \<Rightarrow> string res" where
  "PrettyArguments signature =
     (case signature of [] \<Rightarrow> Inl CheckFailed
      | c # sig \<Rightarrow> rbind (check (c = CHR ''('') CheckFailed) (\<lambda>_.
          rbind (pretty_arguments sig) (\<lambda>result. Inr (CHR ''('' # result))))"

definition PrettyReturnType :: "string \<Rightarrow> string res" where
  "PrettyReturnType signature =
     (case strchr signature (CHR '')'') of
        None \<Rightarrow> Inl CheckFailed
      | Some return_type \<Rightarrow> PrettyDescriptor (tl return_type))"

abbreviation replace_char :: "char \<Rightarrow> char \<Rightarrow> string \<Rightarrow> string" where
  "replace_char a b s \<equiv> map (\<lambda>c. if c = a then b else c) s"

definition DotToDescriptor :: "string \<Rightarrow> string" where
  "DotToDescriptor class_name =
     (let descriptor = replace_char (CHR ''.'') (CHR ''/'') class_name in
      if descriptor \<noteq> [] \<and> hd descriptor \<noteq> CHR ''['' then ''L'' @ descriptor @ '';'' else descriptor)"

definition DescriptorToDot :: "string \<Rightarrow> string" where
  "DescriptorToDot descriptor =
     (if length descriptor > 1
      then if hd descriptor = CHR ''L'' \<and> last descriptor = CHR '';''
           then replace_char (CHR ''/'') (CHR ''.'') (take (length descriptor - 2) (drop 1 descriptor))
           else replace_char (CHR ''/'') (CHR ''.'') descriptor
      else descriptor)"

text \<open>At the empty string the test of the first character fails at the terminator.\<close>

definition DescriptorToName :: "string \<Rightarrow> string" where
  "DescriptorToName descriptor =
     (if descriptor \<noteq> [] \<and> hd descriptor = CHR ''L'' \<and> last descriptor = CHR '';''
      then take (length descriptor - 2) (drop 1 descriptor)
      else descriptor)"

section \<open>Flags and sizes\<close>

definition PrettyJavaAccessFlags :: "u32 \<Rightarrow> string" where
  "PrettyJavaAccessFlags access_flags =
     (if access_flags AND 0x0001 \<noteq> 0 then ''public '' else '''') @
     (if access_flags AND 0x0004 \<noteq> 0 then ''protected '' else '''') @
     (if access_flags AND 0x0002 \<noteq> 0 then ''private '' else '''') @
     (if access_flags AND 0x0010 \<noteq> 0 then ''final '' else '''') @
     (if access_flags AND 0x0008 \<noteq> 0 then ''static '' else '''') @
     (if access_flags AND 0x0080 \<noteq> 0 then ''transient '' else '''') @
     (if access_flags AND 0x0040 \<noteq> 0 then ''volatile '' else '''') @
     (if access_flags AND 0x0020 \<noteq> 0 then ''synchronized '' else '''')"

text \<open>The quotient and the remainder of C++ division are those of \<open>div\<close> on the absolute values.\<close>

definition PrettySize :: "64 word \<Rightarrow> string" where
  "PrettySize byte_count =
     (let negative = sint byte_count < 0;
          byte_count = (if negative then - byte_count else byte_count);
          n = sint byte_count;
          (unit_bytes, unit) =
            (if n \<ge> 1024 * 1024 * 1024 then (1024 * 1024 * 1024, ''GB'')
             else if n \<ge> 2 * 1024 * 1024 then (1024 * 1024, ''MB'')
             else if n \<ge> 3 * 1024 then (1024, ''KB'')
             else (1, ''B''))
      in (if negative then ''-'' else '''') @ decimal_int (sgn n * (abs n div unit_bytes)) @ unit)"

section \<open>Escapes and JNI names\<close>

definition NeedsEscaping :: "u16 \<Rightarrow> bool" where
  "NeedsEscaping ch \<longleftrightarrow> ch < 32 \<or> ch > 126"

abbreviation escape :: "string \<Rightarrow> u16 \<Rightarrow> string" where
  "escape prefix ch \<equiv> prefix @ hex4 (unat ch)"

abbreviation backslash :: char where "backslash \<equiv> CHR 0x5C"

definition PrintableChar :: "u16 \<Rightarrow> string" where
  "PrintableChar ch =
     [CHR 0x27] @ (if NeedsEscaping ch then escape [backslash, CHR ''u''] ch else [char_of (unat ch)]) @ [CHR 0x27]"

text \<open>The loops of PrintableString and MangleForJni: \<open>n\<close> times, decode one character.\<close>

fun append_chars :: "(u32 \<Rightarrow> string) \<Rightarrow> nat \<Rightarrow> u8 list \<Rightarrow> string res" where
  "append_chars f 0 p = Inr []"
| "append_chars f (Suc n) p =
     rbind (GetUtf16FromUtf8 p) (\<lambda>(ch, p). rbind (append_chars f n p) (\<lambda>result. Inr (f ch @ result)))"

definition printable_text :: "u32 \<Rightarrow> string" where
  "printable_text ch =
     (if ch = 0x5C then [backslash, backslash]
      else if ch = 0x0A then [backslash, CHR ''n'']
      else if ch = 0x0D then [backslash, CHR ''r'']
      else if ch = 0x09 then [backslash, CHR ''t'']
      else
        let leading = GetLeadingUtf16Char ch; trailing = GetTrailingUtf16Char ch in
        (if NeedsEscaping leading then escape [backslash, CHR ''u''] leading else [char_of (unat leading)]) @
        (if trailing \<noteq> 0 then escape [backslash, CHR ''u''] trailing else []))"

definition PrintableString :: "u8 list \<Rightarrow> string res" where
  "PrintableString utf =
     rbind (CountModifiedUtf8Chars utf) (\<lambda>char_count.
     rbind (append_chars printable_text char_count utf) (\<lambda>result.
     Inr ([CHR 0x22] @ result @ [CHR 0x22])))"

definition is_alnum :: "u32 \<Rightarrow> bool" where
  "is_alnum ch \<longleftrightarrow> (0x41 \<le> ch \<and> ch \<le> 0x5A) \<or> (0x61 \<le> ch \<and> ch \<le> 0x7A) \<or> (0x30 \<le> ch \<and> ch \<le> 0x39)"

definition mangled_text :: "u32 \<Rightarrow> string" where
  "mangled_text ch =
     (if is_alnum ch then [char_of (unat ch)]
      else if ch = 0x2E \<or> ch = 0x2F then ''_''
      else if ch = 0x5F then ''_1''
      else if ch = 0x3B then ''_2''
      else if ch = 0x5B then ''_3''
      else
        let leading = GetLeadingUtf16Char ch; trailing = GetTrailingUtf16Char ch in
        escape ''_0'' leading @ (if trailing \<noteq> 0 then escape ''_0'' trailing else []))"

definition MangleForJni :: "u8 list \<Rightarrow> string res" where
  "MangleForJni s = rbind (CountModifiedUtf8Chars s) (\<lambda>char_count. append_chars mangled_text char_count s)"

text \<open>The descriptor of the declaring class, the name and the signature are those of the method.\<close>

definition JniShortName :: "string \<Rightarrow> string \<Rightarrow> string res" where
  "JniShortName class_name method_name =
     rbind (check (class_name \<noteq> [] \<and> hd class_name = CHR ''L'') CheckFailed) (\<lambda>_.
     rbind (check (last class_name = CHR '';'') CheckFailed) (\<lambda>_.
     rbind (MangleForJni (cstr (butlast (tl class_name)))) (\<lambda>c.
     rbind (MangleForJni (cstr method_name)) (\<lambda>m.
     Inr (''Java_'' @ c @ ''_'' @ m)))))"

definition JniLongName :: "string \<Rightarrow> string \<Rightarrow> string \<Rightarrow> string res" where
  "JniLongName class_name method_name signature =
     rbind (JniShortName class_name method_name) (\<lambda>short_name.
     if CHR '')'' \<notin> set (tl signature) then Inl OutOfBounds
     else
       rbind (MangleForJni (cstr (takeWhile (\<lambda>c. c \<noteq> CHR '')'') (tl signature)))) (\<lambda>s.
       Inr (short_name @ ''__'' @ s)))"

section \<open>Valid names\<close>

definition DEX_MEMBER_VALID_LOW_ASCII :: "u32 list" where
  "DEX_MEMBER_VALID_LOW_ASCII = [0x00000000, 0x03ff2010, 0x87fffffe, 0x07fffffe]"

definition IsValidPartOfMemberNameUtf8Slow :: "u8 list \<Rightarrow> (bool \<times> u8 list) res" where
  "IsValidPartOfMemberNameUtf8Slow p =
     rbind (GetUtf16FromUtf8 p) (\<lambda>(pair, p).
     let leading = GetLeadingUtf16Char pair; top = drop_bit 8 leading in
     if GetTrailingUtf16Char pair \<noteq> 0 then Inr (True, p)
     else if top = 0x00 then Inr (leading > 0x00a0, p)
     else if top \<in> {0xd8, 0xd9, 0xda, 0xdb}
     then rbind (GetUtf16FromUtf8 p) (\<lambda>(pair2, p).
          let trailing = GetLeadingUtf16Char pair2 in
          Inr (GetTrailingUtf16Char pair2 = 0 \<and> 0xdc00 \<le> trailing \<and> trailing \<le> 0xdfff, p))
     else if top \<in> {0xdc, 0xdd, 0xde, 0xdf} then Inr (False, p)
     else if top \<in> {0x20, 0xff}
     then Inr (leading AND 0xfff8 \<notin> {0x2000, 0x2008, 0x2028, 0xfff0, 0xfff8}, p)
     else Inr (True, p))"

definition IsValidPartOfMemberNameUtf8 :: "u8 list \<Rightarrow> (bool \<times> u8 list) res" where
  "IsValidPartOfMemberNameUtf8 p =
     (case p of [] \<Rightarrow> Inl OutOfBounds
      | c # p' \<Rightarrow>
        if c \<le> 0x7f
        then Inr (bit (DEX_MEMBER_VALID_LOW_ASCII ! unat (drop_bit 5 c)) (unat (c AND 0x1f)), p')
        else IsValidPartOfMemberNameUtf8Slow p)"

lemma part_shorter: "IsValidPartOfMemberNameUtf8 p = Inr (ok, q) \<Longrightarrow> length q < length p"
  by (auto simp: IsValidPartOfMemberNameUtf8_def IsValidPartOfMemberNameUtf8Slow_def Let_def rbind_eq_Inr
      dest!: GetUtf16FromUtf8_shorter split: list.splits if_splits)

function member_name_loop :: "bool \<Rightarrow> u8 list \<Rightarrow> bool res" where
  "member_name_loop angle_name p =
     (case p of [] \<Rightarrow> Inl OutOfBounds
      | c # p' \<Rightarrow>
        if c = 0 then Inr (\<not> angle_name)
        else if c = 0x3E
        then if \<not> angle_name then Inr False
             else rbind (next_byte p') (\<lambda>(c1, _). Inr (c1 = 0))
        else
          rbind (IsValidPartOfMemberNameUtf8 p) (\<lambda>(ok, q). if ok then member_name_loop angle_name q else Inr False))"
  by pat_completeness auto
termination
  by (relation "measure (\<lambda>(a, p). length p)") (auto dest: part_shorter)

definition IsValidMemberName :: "u8 list \<Rightarrow> bool res" where
  "IsValidMemberName s =
     (case s of [] \<Rightarrow> Inl OutOfBounds
      | c # s' \<Rightarrow>
        if c = 0 then Inr False
        else if c = 0x3C then member_name_loop True s'
        else member_name_loop False s)"

datatype ClassNameType = kName | kDescriptor

text \<open>The loop of IsValidClassName over the characters of the name.\<close>

function class_name_loop :: "ClassNameType \<Rightarrow> u8 \<Rightarrow> bool \<Rightarrow> u8 list \<Rightarrow> bool res" where
  "class_name_loop type kSeparator sepOrFirst p =
     (case p of [] \<Rightarrow> Inl OutOfBounds
      | c # p' \<Rightarrow>
        if c = 0 then Inr (type = kName \<and> \<not> sepOrFirst)
        else if c = 0x3B
        then if type = kDescriptor \<and> \<not> sepOrFirst then rbind (next_byte p') (\<lambda>(c1, _). Inr (c1 = 0)) else Inr False
        else if c = 0x2F \<or> c = 0x2E
        then if c \<noteq> kSeparator then Inr False
             else if sepOrFirst then Inr False
             else class_name_loop type kSeparator True p'
        else
          rbind (IsValidPartOfMemberNameUtf8 p) (\<lambda>(ok, q).
          if ok then class_name_loop type kSeparator False q else Inr False))"
  by pat_completeness auto
termination
  by (relation "measure (\<lambda>(a, b, c, p). length p)") (auto dest: part_shorter)

declare member_name_loop.simps [simp del] class_name_loop.simps [simp del]

definition IsValidClassName :: "ClassNameType \<Rightarrow> u8 \<Rightarrow> u8 list \<Rightarrow> bool res" where
  "IsValidClassName kType kSeparator s =
     (let arrayCount = length (takeWhile (\<lambda>c. c = 0x5B) s); s = drop arrayCount s in
      if arrayCount > 255 then Inr False
      else
        let type = (if kType \<noteq> kDescriptor \<and> arrayCount \<noteq> 0 then kDescriptor else kType) in
        if type = kDescriptor
        then
          rbind (next_byte s) (\<lambda>(c, s).
          if c \<in> {0x42, 0x43, 0x44, 0x46, 0x49, 0x4A, 0x53, 0x5A} then rbind (next_byte s) (\<lambda>(c1, _). Inr (c1 = 0))
          else if c = 0x56
          then if arrayCount = 0 then rbind (next_byte s) (\<lambda>(c1, _). Inr (c1 = 0)) else Inr False
          else if c = 0x4C then class_name_loop type kSeparator True s
          else Inr False)
        else class_name_loop type kSeparator True s)"

definition IsValidBinaryClassName :: "u8 list \<Rightarrow> bool res" where
  "IsValidBinaryClassName s = IsValidClassName kName 0x2E s"

definition IsValidJniClassName :: "u8 list \<Rightarrow> bool res" where
  "IsValidJniClassName s = IsValidClassName kName 0x2F s"

definition IsValidDescriptor :: "u8 list \<Rightarrow> bool res" where
  "IsValidDescriptor s = IsValidClassName kDescriptor 0x2F s"

section \<open>Lists of strings\<close>

function Split :: "string \<Rightarrow> char \<Rightarrow> string list" where
  "Split p separator =
     (case p of [] \<Rightarrow> []
      | c # p' \<Rightarrow>
        if c = separator then Split p' separator
        else (c # takeWhile (\<lambda>x. x \<noteq> separator) p') # Split (dropWhile (\<lambda>x. x \<noteq> separator) p') separator)"
  by pat_completeness auto
termination
  by (relation "measure (\<lambda>(p, s). length p)") (auto simp: le_imp_less_Suc length_dropWhile_le)

declare Split.simps [simp del]

fun Join :: "string list \<Rightarrow> char \<Rightarrow> string" where
  "Join [] separator = []"
| "Join (s # ss) separator = s @ concat (map (\<lambda>t. separator # t) ss)"

text \<open>
  Trim: the first loop stops at \<open>start_index\<close>; the second one counts \<open>end_index\<close> down from
  \<open>s.size() - 1\<close>, which for the empty string is the largest unsigned number. \<open>trim_end\<close>
  works on \<open>end_index + 1\<close>.
\<close>

fun trim_end :: "string \<Rightarrow> nat \<Rightarrow> nat \<Rightarrow> nat" where
  "trim_end s start n = (if n > start \<and> isspace (s ! (n - 1)) then trim_end s start (n - 1) else n)"

declare trim_end.simps [simp del]

definition Trim :: "string \<Rightarrow> string res" where
  "Trim s =
     (let start_index = length (takeWhile isspace s) in
      if s = [] then Inl OutOfBounds
      else
        let end_index = trim_end s start_index (length s) in
        if end_index \<le> start_index then Inr []
        else Inr (take (end_index - start_index) (drop start_index s)))"

definition StartsWith :: "string \<Rightarrow> string \<Rightarrow> bool" where
  "StartsWith s prefix \<longleftrightarrow> take (length prefix) s = prefix"

definition EndsWith :: "string \<Rightarrow> string \<Rightarrow> bool" where
  "EndsWith s suffix \<longleftrightarrow>
     (if length suffix > length s then False
      else take (length suffix) (drop (length s - length suffix) s) = suffix)"

section \<open>Class names and descriptors\<close>

text \<open>C31: a class name in dots becomes a descriptor and comes undo unchanged, arrays included.\<close>

theorem descriptor_roundtrip:
  assumes "CHR ''/'' \<notin> set n"
  shows "DescriptorToDot (DotToDescriptor n) = n"
proof -
  have undo: "replace_char (CHR ''/'') (CHR ''.'') (replace_char (CHR ''.'') (CHR ''/'') n) = n"
    using assms by (induction n) auto
  show ?thesis
  proof (cases "n \<noteq> [] \<and> hd n \<noteq> CHR ''[''")
    case True
    then have "DotToDescriptor n = ''L'' @ replace_char (CHR ''.'') (CHR ''/'') n @ '';''"
      by (cases n) (auto simp: DotToDescriptor_def)
    with undo show ?thesis by (simp add: DescriptorToDot_def)
  next
    case False
    then have d: "DotToDescriptor n = replace_char (CHR ''.'') (CHR ''/'') n"
      by (cases n) (auto simp: DotToDescriptor_def)
    show ?thesis
    proof (cases "length n > 1")
      case True
      with False have "hd (replace_char (CHR ''.'') (CHR ''/'') n) = CHR ''[''" by (cases n) auto
      with True undo show ?thesis by (simp add: d DescriptorToDot_def)
    next
      case False': False
      with False have "n = [] \<or> n = ''[''" by (cases n) auto
      then show ?thesis by (auto simp: d DescriptorToDot_def)
    qed
  qed
qed

theorem descriptor_roundtrip_witness:
  "DotToDescriptor ''java.lang.String'' = ''Ljava/lang/String;'' \<and>
   DescriptorToDot (DotToDescriptor ''java.lang.String'') = ''java.lang.String''"
  using descriptor_roundtrip [of "''java.lang.String''"] by (simp add: DotToDescriptor_def)

text \<open>The characters of a name, and descriptors as a grammar.\<close>

definition name_char :: "u8 \<Rightarrow> bool" where
  "name_char c \<longleftrightarrow> (0x30 \<le> c \<and> c \<le> 0x39) \<or> (0x41 \<le> c \<and> c \<le> 0x5A) \<or> (0x61 \<le> c \<and> c \<le> 0x7A) \<or>
     c = 0x24 \<or> c = 0x2D \<or> c = 0x5F"

definition component :: "u8 list \<Rightarrow> bool" where
  "component xs \<longleftrightarrow> xs \<noteq> [] \<and> (\<forall>c \<in> set xs. name_char c)"

abbreviation more_components :: "u8 list list \<Rightarrow> u8 list" where
  "more_components ds \<equiv> concat (map (\<lambda>d. 0x2F # d) ds)"

definition descriptor_grammar :: "u8 list \<Rightarrow> bool" where
  "descriptor_grammar s \<longleftrightarrow>
     (\<exists>n body. n \<le> 255 \<and> s = replicate n 0x5B @ body \<and>
        (body \<in> {[0x42], [0x43], [0x44], [0x46], [0x49], [0x4A], [0x53], [0x5A]} \<or> n = 0 \<and> body = [0x56] \<or>
         (\<exists>c ds. component c \<and> (\<forall>d \<in> set ds. component d) \<and> body = 0x4C # c @ more_components ds @ [0x3B])))"

lemma table_name_char:
  assumes "c \<le> 0x7f"
  shows "bit (DEX_MEMBER_VALID_LOW_ASCII ! unat (drop_bit 5 c)) (unat (c AND 0x1f)) \<longleftrightarrow> name_char c"
proof -
  have "\<forall>n \<in> set [0..<128]. bit (DEX_MEMBER_VALID_LOW_ASCII ! unat (drop_bit 5 (of_nat n :: u8))) (unat ((of_nat n :: u8) AND 0x1f)) \<longleftrightarrow>
      name_char (of_nat n)"
    by code_simp
  moreover have "unat c < 128" using assms by (simp add: word_le_nat_alt)
  moreover have "c = of_nat (unat c)" by simp
  ultimately show ?thesis by (metis atLeastLessThan_iff set_upt zero_le)
qed

lemma part_ascii: "c \<le> 0x7f \<Longrightarrow> IsValidPartOfMemberNameUtf8 (c # p) = Inr (name_char c, p)"
  by (simp add: IsValidPartOfMemberNameUtf8_def table_name_char)

lemma not_name_char [simp]: "\<not> name_char 0" "\<not> name_char 0x3B" "\<not> name_char 0x2F" "\<not> name_char 0x2E" "\<not> name_char 0x5B"
  by (simp_all add: name_char_def)

definition rest_of_class :: "bool \<Rightarrow> u8 list \<Rightarrow> bool" where
  "rest_of_class first p \<longleftrightarrow>
     (\<exists>c ds. (first \<longrightarrow> c \<noteq> []) \<and> (\<forall>x \<in> set c. name_char x) \<and> (\<forall>d \<in> set ds. component d) \<and>
        p = c @ more_components ds @ [0x3B])"

lemma rest_of_class_simps:
  "\<not> rest_of_class first []"
  "rest_of_class first (0x3B # p) \<longleftrightarrow> \<not> first \<and> p = []"
  "rest_of_class first (0x2F # p) \<longleftrightarrow> \<not> first \<and> rest_of_class True p"
  "x \<noteq> 0x3B \<Longrightarrow> x \<noteq> 0x2F \<Longrightarrow> rest_of_class first (x # p) \<longleftrightarrow> name_char x \<and> rest_of_class False p"
proof -
  show "\<not> rest_of_class first []" by (simp add: rest_of_class_def)
  show "rest_of_class first (0x3B # p) \<longleftrightarrow> \<not> first \<and> p = []"
  proof
    assume "rest_of_class first (0x3B # p)"
    then obtain c ds where c: "first \<longrightarrow> c \<noteq> []" "\<forall>x \<in> set c. name_char x" "0x3B # p = c @ more_components ds @ [0x3B]"
      by (auto simp: rest_of_class_def)
    from c(2,3) have "c = []" by (cases c) auto
    moreover from c(3) this have "ds = []" by (cases ds) auto
    ultimately show "\<not> first \<and> p = []" using c by simp
  qed (auto simp: rest_of_class_def intro: exI [of _ "[]"])
  show "rest_of_class first (0x2F # p) \<longleftrightarrow> \<not> first \<and> rest_of_class True p"
  proof
    assume "rest_of_class first (0x2F # p)"
    then obtain c ds where c: "first \<longrightarrow> c \<noteq> []" "\<forall>x \<in> set c. name_char x" "\<forall>d \<in> set ds. component d"
        "0x2F # p = c @ more_components ds @ [0x3B]"
      by (auto simp: rest_of_class_def)
    from c(2,4) have n: "c = []" by (cases c) auto
    with c(4) obtain d es where "ds = d # es" "p = d @ more_components es @ [0x3B]" by (cases ds) auto
    with c(1,3) n show "\<not> first \<and> rest_of_class True p" by (auto simp: rest_of_class_def component_def)
  next
    assume *: "\<not> first \<and> rest_of_class True p"
    then obtain c ds where "component c" "\<forall>d \<in> set ds. component d" "p = c @ more_components ds @ [0x3B]"
      by (auto simp: rest_of_class_def component_def)
    with * show "rest_of_class first (0x2F # p)"
      unfolding rest_of_class_def by (intro exI [of _ "[]"] exI [of _ "c # ds"]) simp
  qed
  assume x: "x \<noteq> 0x3B" "x \<noteq> 0x2F"
  show "rest_of_class first (x # p) \<longleftrightarrow> name_char x \<and> rest_of_class False p"
  proof
    assume "rest_of_class first (x # p)"
    then obtain c ds where c: "\<forall>x \<in> set c. name_char x" "\<forall>d \<in> set ds. component d" "x # p = c @ more_components ds @ [0x3B]"
      by (auto simp: rest_of_class_def)
    with x obtain c' where "c = x # c'" by (cases c; cases ds) auto
    with c show "name_char x \<and> rest_of_class False p" by (auto simp: rest_of_class_def)
  next
    assume "name_char x \<and> rest_of_class False p"
    then obtain c ds where "name_char x" "\<forall>x \<in> set c. name_char x" "\<forall>d \<in> set ds. component d" "p = c @ more_components ds @ [0x3B]"
      by (auto simp: rest_of_class_def)
    then show "rest_of_class first (x # p)"
      unfolding rest_of_class_def by (intro exI [of _ "x # c"] exI [of _ ds]) simp
  qed
qed

lemma class_name_loop_ascii:
  assumes "\<forall>c \<in> set p. 0 < c \<and> c \<le> 0x7f"
  shows "class_name_loop kDescriptor 0x2F first (p @ [0]) = Inr (rest_of_class first p)"
  using assms
proof (induction p arbitrary: first)
  case Nil
  then show ?case by (simp add: class_name_loop.simps rest_of_class_simps)
next
  case (Cons x p)
  then have IH: "class_name_loop kDescriptor 0x2F f (p @ [0]) = Inr (rest_of_class f p)" for f by simp
  have end_of: "rbind (next_byte (p @ [0])) (\<lambda>(c1, _). Inr (c1 = 0)) = Inr (p = [])"
    using Cons.prems by (cases p) auto
  from Cons.prems have x: "x \<noteq> 0" "x \<le> 0x7f" by auto
  consider "x = 0x3B" | "x = 0x2F" | "x = 0x2E" | "x \<noteq> 0x3B" "x \<noteq> 0x2F" "x \<noteq> 0x2E" by blast
  then show ?case
    by cases
      (use x IH end_of in \<open>auto simp: class_name_loop.simps [of _ _ _ "_ # _"] rest_of_class_simps part_ascii\<close>)
qed

lemma primitive_end:
  assumes "\<forall>c \<in> set p. 0 < c \<and> c \<le> (0x7f :: u8)"
  shows "rbind (next_byte (p @ [0])) (\<lambda>(c1, _). Inr (c1 = 0)) = Inr (p = [])"
  using assms by (cases p) auto

lemma brackets_unique:
  assumes "body = [] \<or> hd body \<noteq> b" "body' = [] \<or> hd body' \<noteq> b" "replicate n b @ body = replicate m b @ body'"
  shows "n = m \<and> body = body'"
  using assms by (induction n arbitrary: m) (case_tac m; auto)+

definition descriptor_body :: "nat \<Rightarrow> u8 list \<Rightarrow> bool" where
  "descriptor_body n body \<longleftrightarrow>
     body \<in> {[0x42], [0x43], [0x44], [0x46], [0x49], [0x4A], [0x53], [0x5A]} \<or> n = 0 \<and> body = [0x56] \<or>
     (\<exists>p. body = 0x4C # p \<and> rest_of_class True p)"

lemma class_body:
  "(\<exists>p. body = 0x4C # p \<and> rest_of_class True p) \<longleftrightarrow>
     (\<exists>c ds. component c \<and> (\<forall>d \<in> set ds. component d) \<and> body = 0x4C # c @ more_components ds @ [0x3B])"
  by (simp add: rest_of_class_def component_def) blast

lemma grammar_body:
  assumes "body = [] \<or> hd body \<noteq> 0x5B"
  shows "descriptor_grammar (replicate n 0x5B @ body) \<longleftrightarrow> n \<le> 255 \<and> descriptor_body n body"
proof -
  have g: "descriptor_grammar s \<longleftrightarrow> (\<exists>m body'. m \<le> 255 \<and> s = replicate m 0x5B @ body' \<and> descriptor_body m body')" for s
    unfolding descriptor_grammar_def descriptor_body_def class_body ..
  have h: "hd body' \<noteq> 0x5B" if "descriptor_body m body'" for m body' using that by (auto simp: descriptor_body_def)
  show ?thesis unfolding g using brackets_unique [OF assms] h by blast
qed

lemma descriptor_body_check:
  assumes "\<forall>c \<in> set body. 0 < c \<and> c \<le> 0x7f"
  shows "rbind (next_byte (body @ [0])) (\<lambda>(c, s).
      if c \<in> {0x42, 0x43, 0x44, 0x46, 0x49, 0x4A, 0x53, 0x5A} then rbind (next_byte s) (\<lambda>(c1, _). Inr (c1 = 0))
      else if c = 0x56
      then if n = 0 then rbind (next_byte s) (\<lambda>(c1, _). Inr (c1 = 0)) else Inr False
      else if c = 0x4C then class_name_loop kDescriptor 0x2F True s
      else Inr False) = Inr (descriptor_body n body)"
proof (cases body)
  case Nil
  then show ?thesis by (simp add: descriptor_body_def)
next
  case (Cons x p)
  with assms have p: "\<forall>c \<in> set p. 0 < c \<and> c \<le> 0x7f" by simp
  show ?thesis
    using Cons primitive_end [OF p] class_name_loop_ascii [OF p, of True]
    by (auto simp: descriptor_body_def)
qed



section \<open>Splitting, joining, trimming\<close>

lemma Split_word:
  assumes "w \<noteq> []" "c \<notin> set w" "t = [] \<or> hd t = c"
  shows "Split (w @ t) c = w # Split t c"
proof -
  obtain x w' where w: "w = x # w'" using assms(1) by (cases w) auto
  have t: "takeWhile (\<lambda>y. y \<noteq> c) t = []" "dropWhile (\<lambda>y. y \<noteq> c) t = t" using assms(3) by (cases t; simp)+
  have "\<forall>y \<in> set w'. y \<noteq> c" using assms(2) w by auto
  then have "takeWhile (\<lambda>y. y \<noteq> c) (w' @ t) = w'" "dropWhile (\<lambda>y. y \<noteq> c) (w' @ t) = t"
    using t by (simp_all add: takeWhile_append2 dropWhile_append2)
  with assms(2) w show ?thesis by (subst Split.simps) auto
qed

lemma Split_sep: "Split (c # t) c = Split t c" "Split [] c = []"
  by (subst Split.simps, simp)+

lemma Split_single: "w \<noteq> [] \<Longrightarrow> c \<notin> set w \<Longrightarrow> Split w c = [w]"
  using Split_word [of w c "[]"] by (simp add: Split_sep)

lemma Split_Join:
  assumes "\<forall>w \<in> set ws. w \<noteq> [] \<and> c \<notin> set w"
  shows "Split (Join ws c) c = ws"
proof (cases ws)
  case (Cons v vs)
  have tail: "Split (concat (map (\<lambda>t. c # t) us)) c = us" if "\<forall>w \<in> set us. w \<noteq> [] \<and> c \<notin> set w" for us
    using that
  proof (induction us)
    case (Cons u us)
    then show ?case by (cases us) (simp_all add: Split_sep Split_word Split_single)
  qed (simp add: Split_sep)
  from assms Cons tail [of vs] show ?thesis by (cases vs) (simp_all add: Split_word Split_single)
qed (simp add: Split_sep)

lemma trim_end_spec:
  assumes "start \<le> n" "n \<le> length s"
  shows "start + length (dropWhile isspace (rev (drop start (take n s)))) = trim_end s start n"
  using assms
proof (induction s start n rule: trim_end.induct)
  case (1 s start n)
  show ?case
  proof (cases "n > start")
    case True
    then obtain m where m: "n = Suc m" "start \<le> m" by (cases n) auto
    have "take n s = take m s @ [s ! m]" using 1(3) m by (simp add: take_Suc_conv_app_nth)
    then have "rev (drop start (take n s)) = s ! m # rev (drop start (take m s))" using 1(3) m by simp
    with 1 True m show ?thesis by (subst trim_end.simps) auto
  next
    case False
    with 1(2) show ?thesis by (subst trim_end.simps) simp
  qed
qed

text \<open>Trim drops the blanks at both ends, but must not be called with the empty string.\<close>

lemma Trim_spec: "s \<noteq> [] \<Longrightarrow> Trim s = Inr (rev (dropWhile isspace (rev (dropWhile isspace s))))"
  "Trim [] = Inl OutOfBounds"
proof -
  show "Trim [] = Inl OutOfBounds" by (simp add: Trim_def)
  assume s: "s \<noteq> []"
  let ?k = "length (takeWhile isspace s)" and ?d = "dropWhile isspace (rev (dropWhile isspace s))"
  have d: "drop ?k s = dropWhile isspace s" by (simp add: dropWhile_eq_drop)
  have e: "trim_end s ?k (length s) = ?k + length ?d"
    using trim_end_spec [of ?k "length s" s] d by (simp add: length_takeWhile_le)
  have "take (length ?d) (dropWhile isspace s) = rev ?d"
  proof -
    have "dropWhile isspace s = rev ?d @ rev (takeWhile isspace (rev (dropWhile isspace s)))"
      by (metis rev_append rev_rev_ident takeWhile_dropWhile_id)
    then show ?thesis by (metis append_eq_conv_conj length_rev)
  qed
  with s show "Trim s = Inr (rev ?d)" by (simp add: Trim_def Let_def e d)
qed

section \<open>Mangling\<close>

text \<open>The characters of a string of UTF-16 units as GetUtf16FromUtf8 delivers them, and the number
  of its surrogate pairs.\<close>

fun chars_of :: "u16 list \<Rightarrow> u32 list" where
  "chars_of [] = []"
| "chars_of [ch] = [ucast ch]"
| "chars_of (ch # ch2 # cs) =
     (if high_surrogate ch \<and> low_surrogate ch2 then (ucast ch OR push_bit 16 (ucast ch2)) # chars_of cs
      else ucast ch # chars_of (ch2 # cs))"

fun pairs :: "u16 list \<Rightarrow> nat" where
  "pairs [] = 0"
| "pairs [ch] = 0"
| "pairs (ch # ch2 # cs) =
     (if high_surrogate ch \<and> low_surrogate ch2 then Suc (pairs cs) else pairs (ch2 # cs))"

lemma length_chars_of: "length us = length (chars_of us) + pairs us"
  by (induction us rule: chars_of.induct) auto

lemma append_chars_encoded:
  "append_chars f (length (chars_of us) + k) (ConvertUtf16ToModifiedUtf8 us @ q) =
     rbind (append_chars f k q) (\<lambda>r. Inr (concat (map f (chars_of us)) @ r))"
proof (induction us rule: chars_of.induct)
  case 1
  show ?case by (cases "append_chars f k q") simp_all
next
  case (2 ch)
  show ?case by (simp add: decode_unit)
next
  case (3 ch ch2 cs)
  show ?case
  proof (cases "high_surrogate ch \<and> low_surrogate ch2")
    case True
    with 3 show ?thesis by (simp add: decode_pair rbind_assoc)
  next
    case False
    then have "chars_of (ch # ch2 # cs) = ucast ch # chars_of (ch2 # cs)"
        "ConvertUtf16ToModifiedUtf8 (ch # ch2 # cs) = unit_bytes ch @ ConvertUtf16ToModifiedUtf8 (ch2 # cs)"
      by auto
    with 3(2) [OF False] show ?thesis
      by (simp add: decode_unit rbind_assoc del: chars_of.simps ConvertUtf16ToModifiedUtf8.simps)
  qed
qed

lemma append_chars_terminator:
  "append_chars f k [0] = (if k = 0 then Inr [] else if k = 1 then Inr (f 0) else Inl OutOfBounds)"
proof -
  have z: "GetUtf16FromUtf8 [0] = Inr (0, [])" "GetUtf16FromUtf8 [] = Inl OutOfBounds"
    by (simp_all add: GetUtf16FromUtf8_def)
  consider "k = 0" | "k = 1" | m where "k = Suc (Suc m)" by (metis One_nat_def nat.exhaust)
  then show ?thesis by cases (simp_all add: z)
qed

text \<open>C33: MangleForJni on the modified UTF-8 of any UTF-16 string. Without surrogate pairs the
  result is the concatenation of the mangled characters. The loop runs once per UTF-16 unit
  but takes a pair in one turn, so with one pair it also mangles the terminator, and with
  two or more it reads past the end of the string.\<close>

theorem MangleForJni_spec:
  "MangleForJni (ConvertUtf16ToModifiedUtf8 us @ [0]) =
     (let mangled = concat (map mangled_text (chars_of us)) in
      if pairs us = 0 then Inr mangled
      else if pairs us = 1 then Inr (mangled @ ''_00000'')
      else Inl OutOfBounds)"
proof -
  have "CountModifiedUtf8Chars (ConvertUtf16ToModifiedUtf8 us @ [0]) = Inr (length (chars_of us) + pairs us)"
    using length_chars_of [of us] by (simp add: count_converted convert_encoded)
  moreover have "mangled_text 0 = ''_00000''" by code_simp
  ultimately show ?thesis
    by (simp add: MangleForJni_def append_chars_encoded append_chars_terminator Let_def)
qed

end
