(* ===== verification/MiniTrace_Config.thy ===== *)
theory MiniTrace_Config
  imports MiniTrace_Buffer C_Strings
begin

text \<open>
  The configuration file of the tracer, as MiniTrace::Start of runtime/mini\_trace.cc reads it:
  the lines std::getline delivers before end of file, one option per line, atoi and the
  product of the buffer factors at the width of \<open>int\<close>.
\<close>

section \<open>Reading lines\<close>

text \<open>
  The loop stops as soon as getline reaches the end of the file, before the line is looked at;
  \<open>line\<close> holds the characters read of the current line, the last first.
\<close>

fun getlines :: "string \<Rightarrow> string \<Rightarrow> string list" where
  "getlines line [] = []"
| "getlines line (c # cs) = (if c = CHR 0x0A then rev line # getlines [] cs else getlines (c # line) cs)"

section \<open>Options\<close>

text \<open>The value of an \<open>int\<close> product, which wraps on the target.\<close>

definition int32 :: "int \<Rightarrow> int" where
  "int32 z = sint (word_of_int z :: 32 word)"

text \<open>atoi: leading blanks, a sign, digits up to the first other character; strtol saturates.\<close>

definition digits_value :: "string \<Rightarrow> int" where
  "digits_value s = foldl (\<lambda>a c. 10 * a + (int (of_char c) - 48)) 0 s"

definition atoi :: "string \<Rightarrow> int" where
  "atoi s =
     (let s = dropWhile isspace s;
          neg = (s \<noteq> [] \<and> hd s = CHR ''-'');
          s = (if s \<noteq> [] \<and> hd s \<in> {CHR ''-'', CHR ''+''} then tl s else s);
          n = digits_value (takeWhile isdigit s)
      in max (- 2147483648) (min 2147483647 (if neg then - n else n)))"

record TraceConfig =
  events :: u32
  config_buffer_size :: int
  config_whitelist :: "string list"

definition default_config :: TraceConfig where
  "default_config = \<lparr>events = 0, config_buffer_size = 1024, config_whitelist = []\<rparr>"

abbreviation add_events :: "u32 \<Rightarrow> TraceConfig \<Rightarrow> TraceConfig" where
  "add_events e c \<equiv> c\<lparr>events := events c OR e\<rparr>"

text \<open>One line; None is the early return of the option off.\<close>

definition config_line :: "string \<Rightarrow> TraceConfig \<Rightarrow> TraceConfig option res" where
  "config_line line c =
     (if line = ''off'' then Inr None
      else if line = ''DoCoverage'' then Inr (Some (add_events kDoCoverage c))
      else if line = ''DoFilter'' then Inr (Some (add_events kDoFilter c))
      else if line = ''MethodEvent''
      then Inr (Some (add_events (event_code kMethodEntered OR event_code kMethodExited OR event_code kMethodUnwind) c))
      else if line = ''FieldEvent''
      then Inr (Some (add_events (event_code kFieldRead OR event_code kFieldWritten) c))
      else if line = ''MonitorEvent'' then Inr (Some (add_events (kDoMonitorEntered OR kDoMonitorExited) c))
      else if take 6 line = ''Buffer''
      then let factor = atoi (drop 6 line) in
           Inr (Some (if factor > 0 then c\<lparr>config_buffer_size := int32 (config_buffer_size c * factor)\<rparr> else c))
      else if take 7 line = ''Include''
      then if length line < 8 then Inl OutOfRange
           else Inr (Some (c\<lparr>config_whitelist := config_whitelist c @ [drop 8 line]\<rparr>))
      else Inr (Some c))"

fun config_lines :: "string list \<Rightarrow> TraceConfig \<Rightarrow> TraceConfig option res" where
  "config_lines [] c = Inr (Some c)"
| "config_lines (line # ls) c =
     rbind (config_line line c) (\<lambda>r. case r of None \<Rightarrow> Inr None | Some c \<Rightarrow> config_lines ls c)"

definition read_config :: "string \<Rightarrow> TraceConfig option res" where
  "read_config text = config_lines (getlines [] text) default_config"

section \<open>Lines\<close>

lemma getlines_unterminated: "CHR 0x0A \<notin> set l \<Longrightarrow> getlines acc l = []"
  by (induction l arbitrary: acc) auto

lemma getlines_line: "CHR 0x0A \<notin> set l \<Longrightarrow> getlines acc (l @ CHR 0x0A # t) = (rev acc @ l) # getlines [] t"
  by (induction l arbitrary: acc) auto

lemma getlines_append:
  "t = [] \<or> last t = CHR 0x0A \<Longrightarrow> getlines [] (t @ l) = getlines [] t @ getlines [] l"
proof (induction t rule: length_induct)
  case (1 t)
  show ?case
  proof (cases "t = []")
    case False
    with 1 have nl: "CHR 0x0A \<in> set t" by (metis last_in_set)
    then obtain a b where t: "t = a @ CHR 0x0A # b" "CHR 0x0A \<notin> set a" by (meson split_list_first)
    with 1(2) have "b = [] \<or> last b = CHR 0x0A" by (cases "b = []") simp_all
    with 1(1) t(1) have "getlines [] (b @ l) = getlines [] b @ getlines [] l" by auto
    with t(2) show ?thesis by (simp add: t(1) getlines_line)
  qed simp
qed

definition unlines :: "string list \<Rightarrow> string" where
  "unlines ls = concat (map (\<lambda>l. l @ [CHR 0x0A]) ls)"

lemma getlines_unlines: "\<forall>l \<in> set ls. CHR 0x0A \<notin> set l \<Longrightarrow> getlines [] (unlines ls) = ls"
  by (induction ls) (simp_all add: unlines_def getlines_line)

lemma config_lines_append:
  "config_lines (ls @ ls') c =
     rbind (config_lines ls c) (\<lambda>r. case r of None \<Rightarrow> Inr None | Some c \<Rightarrow> config_lines ls' c)"
  by (induction ls arbitrary: c) (auto simp: rbind_def split: sum.splits option.splits)

section \<open>Numbers\<close>

lemma digits_value_snoc: "digits_value (s @ [c]) = 10 * digits_value s + (int (of_char c) - 48)"
  by (simp add: digits_value_def)

lemma decimal_value: "digits_value (decimal n) = int n"
proof (induction n rule: decimal.induct)
  case (1 n)
  have v: "digits_value (decimal n) =
      10 * digits_value (if n < 10 then [] else decimal (n div 10)) + int (n mod 10)"
    by (subst decimal.simps) (simp only: digits_value_snoc, simp)
  show ?case
  proof (cases "n < 10")
    case True
    then show ?thesis unfolding v by (simp add: digits_value_def)
  next
    case False
    with 1 have "digits_value (decimal n) = 10 * int (n div 10) + int (n mod 10)" unfolding v by simp
    then show ?thesis by presburger
  qed
qed

lemma atoi_decimal: "n < 2147483648 \<Longrightarrow> atoi (decimal n) = int n"
proof -
  assume n: "n < 2147483648"
  obtain c cs where d: "decimal n = c # cs" by (cases "decimal n") simp_all
  have "isdigit c" using decimal_digits [of n] d by simp
  then have "\<not> isspace c" "c \<noteq> CHR ''-''" "c \<noteq> CHR ''+''" by (auto simp: isdigit_def isspace_def)
  moreover have "takeWhile isdigit (c # cs) = c # cs"
    using decimal_digits [of n] unfolding d by (simp add: takeWhile_eq_all_conv)
  ultimately show ?thesis
    using n decimal_value [of n] by (simp add: atoi_def d)
qed

lemma int32_mult: "int32 (int32 a * b) = int32 (a * b)"
  by (simp add: int32_def)

lemma int32_range: "- 2147483648 \<le> int32 a \<and> int32 a \<le> 2147483647"
  using sint_greater_eq [of "word_of_int a :: 32 word"] sint_less [of "word_of_int a :: 32 word"]
  by (simp add: int32_def)

lemma int32_id: "- 2147483648 \<le> a \<Longrightarrow> a \<le> 2147483647 \<Longrightarrow> int32 a = a"
proof -
  assume "- 2147483648 \<le> a" "a \<le> 2147483647"
  then have "signed_take_bit 31 a = a" by (intro signed_take_bit_int_eq_self) simp_all
  moreover have "sint (word_of_int a :: 32 word) = signed_take_bit 31 a"
    using sint_sbintrunc' [where 'a = 32, of a] by simp
  ultimately show "int32 a = a" by (simp add: int32_def)
qed

section \<open>What a configuration file means\<close>

text \<open>The options as data, their text and their meaning.\<close>

datatype config_option =
    DoCoverage | DoFilter | MethodEvent | FieldEvent | MonitorEvent | Buffer nat | Include string

fun option_text :: "config_option \<Rightarrow> string" where
  "option_text DoCoverage = ''DoCoverage''"
| "option_text DoFilter = ''DoFilter''"
| "option_text MethodEvent = ''MethodEvent''"
| "option_text FieldEvent = ''FieldEvent''"
| "option_text MonitorEvent = ''MonitorEvent''"
| "option_text (Buffer n) = ''Buffer'' @ decimal n"
| "option_text (Include s) = ''Include '' @ s"

fun option_events :: "config_option \<Rightarrow> u32" where
  "option_events DoCoverage = 0x200"
| "option_events DoFilter = 0x400"
| "option_events MethodEvent = 0x7"
| "option_events FieldEvent = 0x30"
| "option_events MonitorEvent = 0x180"
| "option_events (Buffer n) = 0"
| "option_events (Include s) = 0"

fun factor_of :: "config_option \<Rightarrow> int" where
  "factor_of (Buffer n) = int n"
| "factor_of _ = 1"

fun includes_of :: "config_option \<Rightarrow> string list" where
  "includes_of (Include s) = [s]"
| "includes_of _ = []"

fun option_ok :: "config_option \<Rightarrow> bool" where
  "option_ok (Buffer n) \<longleftrightarrow> 0 < n \<and> n < 2147483648"
| "option_ok (Include s) \<longleftrightarrow> CHR 0x0A \<notin> set s"
| "option_ok _ \<longleftrightarrow> True"

lemma config_line_option:
  assumes "option_ok opt" "- 2147483648 \<le> config_buffer_size c" "config_buffer_size c \<le> 2147483647"
  shows "config_line (option_text opt) c =
    Inr (Some (c\<lparr>events := events c OR option_events opt,
                  config_buffer_size := int32 (config_buffer_size c * factor_of opt),
                  config_whitelist := config_whitelist c @ includes_of opt\<rparr>))"
  using assms
  by (cases opt)
    (simp_all add: config_line_def atoi_decimal int32_id kDoCoverage_def kDoFilter_def
      kDoMonitorEntered_def kDoMonitorExited_def)

lemma option_text_lines: "option_ok opt \<Longrightarrow> CHR 0x0A \<notin> set (option_text opt)"
  by (cases opt) (simp_all add: decimal_line)

lemma config_lines_options:
  assumes "\<forall>opt \<in> set opts. option_ok opt" "- 2147483648 \<le> config_buffer_size c" "config_buffer_size c \<le> 2147483647"
  shows "config_lines (map option_text opts) c =
    Inr (Some \<lparr>events = fold (\<lambda>opt e. e OR option_events opt) opts (events c),
               config_buffer_size = int32 (config_buffer_size c * prod_list (map factor_of opts)),
               config_whitelist = config_whitelist c @ concat (map includes_of opts)\<rparr>)"
  using assms
proof (induction opts arbitrary: c)
  case Nil
  then show ?case by (simp add: int32_id)
next
  case (Cons opt opts)
  let ?c = "c\<lparr>events := events c OR option_events opt,
      config_buffer_size := int32 (config_buffer_size c * factor_of opt),
      config_whitelist := config_whitelist c @ includes_of opt\<rparr>"
  have "config_lines (map option_text (opt # opts)) c = config_lines (map option_text opts) ?c"
    using Cons.prems config_line_option [of opt c] by simp
  also have "\<dots> = Inr (Some \<lparr>events = fold (\<lambda>opt e. e OR option_events opt) opts (events ?c),
      config_buffer_size = int32 (config_buffer_size ?c * prod_list (map factor_of opts)),
      config_whitelist = config_whitelist ?c @ concat (map includes_of opts)\<rparr>)"
    using Cons.prems int32_range [of "config_buffer_size c * factor_of opt"] by (intro Cons.IH) simp_all
  finally show ?case by (simp add: int32_mult mult.assoc)
qed

text \<open>C13: a file written from a list of options is read back as their meaning: the events are
  the union of the options' events, the buffer is 1024 times the product of all factors at
  the width of an \<open>int\<close>, and the whitelist has the included prefixes in their order.\<close>

theorem config_roundtrip:
  assumes "\<forall>opt \<in> set opts. option_ok opt"
  shows "read_config (unlines (map option_text opts)) =
    Inr (Some \<lparr>events = fold (\<lambda>opt e. e OR option_events opt) opts 0,
               config_buffer_size = int32 (1024 * prod_list (map factor_of opts)),
               config_whitelist = concat (map includes_of opts)\<rparr>)"
proof -
  have "getlines [] (unlines (map option_text opts)) = map option_text opts"
    using assms option_text_lines by (intro getlines_unlines) auto
  then show ?thesis
    using config_lines_options [of opts default_config] assms by (simp add: read_config_def default_config_def)
qed

theorem config_roundtrip_witness:
  "\<exists>c. read_config (unlines (map option_text [MethodEvent, Buffer 16, Buffer 2, Include ''Lapp/''])) = Inr (Some c) \<and>
     events c = 7 \<and> config_buffer_size c = 32768 \<and> config_whitelist c = [''Lapp/'']"
  using config_roundtrip [of "[MethodEvent, Buffer 16, Buffer 2, Include ''Lapp/'']"]
  by (simp add: int32_id)

text \<open>A last line that does not end in a newline is not read.\<close>

lemma unterminated_line_ignored:
  assumes "t = [] \<or> last t = CHR 0x0A" "CHR 0x0A \<notin> set l"
  shows "read_config (t @ l) = read_config t"
  using getlines_append [OF assms(1), of l] getlines_unterminated [OF assms(2)] by (simp add: read_config_def)

text \<open>The events a file asks for.\<close>

lemma HasEvent_or: "HasEvent ev (a OR b) \<longleftrightarrow> HasEvent ev a \<or> HasEvent ev b"
proof -
  have "x OR y = 0 \<longleftrightarrow> x = 0 \<and> y = 0" for x y :: u32 by (auto simp: bit_eq_iff bit_simps)
  then show ?thesis by (simp add: HasEvent_def bit.conj_disj_distrib2)
qed

fun requested_by :: "InstrumentationEvent \<Rightarrow> string option" where
  "requested_by kMethodEntered = Some ''MethodEvent''"
| "requested_by kMethodExited = Some ''MethodEvent''"
| "requested_by kMethodUnwind = Some ''MethodEvent''"
| "requested_by kFieldRead = Some ''FieldEvent''"
| "requested_by kFieldWritten = Some ''FieldEvent''"
| "requested_by kBackwardBranch = Some ''MonitorEvent''"
| "requested_by kDexPcMoved = None"
| "requested_by kExceptionCaught = None"

lemma config_line_events:
  assumes "config_line line c = Inr (Some c')"
  shows "HasEvent ev (events c') \<longleftrightarrow> HasEvent ev (events c) \<or> requested_by ev = Some line"
proof -
  have "\<exists>e. events c' = events c OR e \<and> (HasEvent ev e \<longleftrightarrow> requested_by ev = Some line)"
    using assms
    by (cases ev)
      (auto simp: config_line_def Let_def HasEvent_def kDoCoverage_def kDoFilter_def
        kDoMonitorEntered_def kDoMonitorExited_def split: if_splits intro: exI [of _ 0])
  then show ?thesis by (auto simp: HasEvent_or)
qed

lemma config_lines_events:
  "config_lines ls c = Inr (Some c') \<Longrightarrow>
     HasEvent ev (events c') \<longleftrightarrow> HasEvent ev (events c) \<or> requested_by ev \<in> Some ` set ls"
proof (induction ls arbitrary: c)
  case (Cons line ls)
  then obtain d where d: "config_line line c = Inr (Some d)" "config_lines ls d = Inr (Some c')"
    by (auto simp: rbind_eq_Inr split: option.splits)
  show ?case using config_line_events [OF d(1)] Cons.IH [OF d(2)] by auto
qed simp

text \<open>C29: the tracer registers for an event exactly when the file has the line that requests
  it: MethodEvent for method entry, exit and unwind, FieldEvent for reads and writes. No file
  registers it for dex pc moves or caught exceptions. MonitorEvent registers it for backward
  branches, whose bit kDoMonitorEntered shares.\<close>

theorem config_registers:
  assumes "read_config text = Inr (Some c)"
  shows "HasEvent ev (events c) \<longleftrightarrow> (\<exists>line. requested_by ev = Some line \<and> line \<in> set (getlines [] text))"
proof -
  have "\<not> HasEvent ev 0" by (simp add: HasEvent_def)
  then show ?thesis
    using config_lines_events [of "getlines [] text" default_config c ev] assms
    by (auto simp: read_config_def default_config_def)
qed

theorem config_registers_witness:
  "\<exists>c. read_config (''MonitorEvent'' @ [CHR 0x0A]) = Inr (Some c) \<and>
     HasEvent kBackwardBranch (events c) \<and> \<not> HasEvent kMethodEntered (events c)"
proof -
  have "\<exists>c. read_config (''MonitorEvent'' @ [CHR 0x0A]) = Inr (Some c)"
    by (simp add: read_config_def config_line_def)
  then obtain c where c: "read_config (''MonitorEvent'' @ [CHR 0x0A]) = Inr (Some c)" ..
  show ?thesis
    using config_registers [OF c, of kBackwardBranch] config_registers [OF c, of kMethodEntered] c by simp
qed

text \<open>The option Include without a prefix ends in an exception no one catches.\<close>

lemma include_without_prefix: "config_line ''Include'' c = Inl OutOfRange"
  by (simp add: config_line_def)

text \<open>The buffer size always fits an \<open>int\<close>.\<close>

definition config_ok :: "TraceConfig \<Rightarrow> bool" where
  "config_ok c \<longleftrightarrow> - 2147483648 \<le> config_buffer_size c \<and> config_buffer_size c \<le> 2147483647"

lemma config_line_ok: "config_line line c = Inr (Some c') \<Longrightarrow> config_ok c \<Longrightarrow> config_ok c'"
  using int32_range by (auto simp: config_line_def config_ok_def Let_def split: if_splits)

lemma read_config_ok: "read_config text = Inr (Some c) \<Longrightarrow> config_ok c"
proof -
  have "config_lines ls c0 = Inr (Some c) \<Longrightarrow> config_ok c0 \<Longrightarrow> config_ok c" for ls c0
    by (induction ls arbitrary: c0) (auto simp: rbind_eq_Inr config_line_ok split: option.splits)
  then show "read_config text = Inr (Some c) \<Longrightarrow> config_ok c"
    by (auto simp: read_config_def config_ok_def default_config_def)
qed

end
