(* ===== verification/Dex_Coverage.thy ===== *)
theory Dex_Coverage
  imports Art_Utils Fd_File
begin

text \<open>
  Coverage data: the byte per dex pc that a DexFile keeps beside its contents
  (runtime/dex\_file.h, runtime/dex\_file.cc, runtime/art\_method-inl.h) and its dump
  (DumpCoverageData of runtime/mini\_trace.cc). The byte of the pc \<open>p\<close> of a method is at the
  offset of its CodeItem plus \<open>p\<close>.
\<close>

section \<open>The coverage array of a DexFile\<close>

text \<open>
  \<open>insns_size_in_code_units\<close> gives, for the offset of a CodeItem of the file, its field of that
  name. A CodeItem takes 16 bytes and two for each code unit.
\<close>

record DexFile =
  dex_size :: nat
  insns_size_in_code_units :: "u32 \<rightharpoonup> u32"
  coverage_data_begin :: "u8 list option"

text \<open>Init; \<open>mem\<close> is what the memory new returns happens to hold.\<close>

definition Init :: "bool \<Rightarrow> u8 list \<Rightarrow> DexFile \<Rightarrow> bool \<times> DexFile" where
  "Init magic_and_version_ok mem d =
     (if \<not> magic_and_version_ok then (False, d)
      else (True, if dex_size d > 0 then d\<lparr>coverage_data_begin := Some mem\<rparr> else d))"

definition GetCodeItem :: "DexFile \<Rightarrow> u32 \<Rightarrow> u32 option" where
  "GetCodeItem d code_off = (if code_off = 0 then None else Some code_off)"

definition coverage_array :: "DexFile \<Rightarrow> u8 list res" where
  "coverage_array d = (case coverage_data_begin d of None \<Rightarrow> Inl NullPointer | Some b \<Rightarrow> Inr b)"

definition VisitPc :: "u32 \<Rightarrow> u32 \<Rightarrow> DexFile \<Rightarrow> DexFile res" where
  "VisitPc code_off dex_pc d =
     (if code_off = 0 then Inr d
      else rbind (coverage_array d) (\<lambda>b.
           rbind (store8 b (unat code_off + unat dex_pc) 1) (\<lambda>b.
           Inr (d\<lparr>coverage_data_begin := Some b\<rparr>))))"

definition dex_IsMiniTraceable :: "DexFile \<Rightarrow> bool" where
  "dex_IsMiniTraceable d \<longleftrightarrow> coverage_data_begin d \<noteq> None"

text \<open>A pointer into the coverage array is its index.\<close>

definition GetCoverageData :: "u32 \<Rightarrow> nat option" where
  "GetCoverageData code_off = (if code_off = 0 then None else Some (unat code_off))"

section \<open>Dumping one method\<close>

text \<open>The test for a visited byte reads whole words, from the first to the one with index
  \<open>insns_size >> 2\<close>.\<close>

fun any_word :: "u8 list \<Rightarrow> nat \<Rightarrow> nat \<Rightarrow> bool res" where
  "any_word b p 0 = Inr False"
| "any_word b p (Suc n) = rbind (read_le32 b p) (\<lambda>w. if w \<noteq> 0 then Inr True else any_word b (p + 4) n)"

fun dump_bytes :: "u8 list \<Rightarrow> nat \<Rightarrow> nat \<Rightarrow> (string \<times> u8 list) res" where
  "dump_bytes b p 0 = Inr ([], b)"
| "dump_bytes b p (Suc n) =
     rbind (load8 b p) (\<lambda>x.
     rbind (if x \<noteq> 0 then store8 b p 0 else Inr b) (\<lambda>b.
     rbind (dump_bytes b (p + 1) n) (\<lambda>(os, b).
     Inr ((if x \<noteq> 0 then CHR ''1'' else CHR ''0'') # os, b))))"

text \<open>DumpCoverageData without the text it prints before the bits; None when it prints nothing.\<close>

definition coverage_row :: "u32 \<Rightarrow> DexFile \<Rightarrow> ((u16 \<times> string) option \<times> DexFile) res" where
  "coverage_row code_off d =
     (case GetCodeItem d code_off of None \<Rightarrow> Inr (None, d)
      | Some code_item \<Rightarrow>
        rbind (deref (insns_size_in_code_units d) code_item) (\<lambda>units.
        let insns_size = (ucast units :: u16) in
        case GetCoverageData code_off of None \<Rightarrow> Inr (None, d)
        | Some data \<Rightarrow>
          if insns_size = 0 then Inr (None, d)
          else
            rbind (coverage_array d) (\<lambda>b.
            rbind (load8 b data) (\<lambda>first.
            rbind (if first = 0 then any_word b data (unat (drop_bit 2 insns_size) + 1) else Inr True) (\<lambda>visited.
            if \<not> visited then Inr (None, d)
            else
              rbind (dump_bytes b data (unat insns_size)) (\<lambda>(bits, b).
              Inr (Some (insns_size, bits), d\<lparr>coverage_data_begin := Some b\<rparr>)))))))"

section \<open>Methods, classes and the file\<close>

text \<open>The dex files by their location, as the classes name them.\<close>

type_synonym dex_store = "string \<rightharpoonup> DexFile"

definition method_dex :: "art_heap \<Rightarrow> ArtMethod \<Rightarrow> dex_store \<Rightarrow> (string \<times> DexFile) res" where
  "method_dex h m ds =
     rbind (deref (classes h) (declaring_class m)) (\<lambda>k.
     rbind (deref ds (dex_location k)) (\<lambda>d. Inr (dex_location k, d)))"

definition method_VisitPc :: "art_heap \<Rightarrow> ptr \<Rightarrow> u32 \<Rightarrow> dex_store \<Rightarrow> dex_store res" where
  "method_VisitPc h method dex_pc ds =
     rbind (deref (methods h) method) (\<lambda>m.
     rbind (method_dex h m ds) (\<lambda>(l, d).
     rbind (VisitPc (dex_code_item_offset m) dex_pc d) (\<lambda>d. Inr (ds(l \<mapsto> d)))))"

abbreviation tab :: string where "tab \<equiv> [CHR 0x09]"
abbreviation newline :: string where "newline \<equiv> [CHR 0x0A]"

definition DumpCoverageData :: "art_heap \<Rightarrow> ptr \<Rightarrow> string \<times> dex_store \<Rightarrow> (string \<times> dex_store) res" where
  "DumpCoverageData h method s = (case s of (os, ds) \<Rightarrow>
     rbind (deref (methods h) method) (\<lambda>m.
     rbind (method_dex h m ds) (\<lambda>(l, d).
     rbind (coverage_row (dex_code_item_offset m) d) (\<lambda>(row, d).
     case row of None \<Rightarrow> Inr (os, ds)
     | Some (insns_size, bits) \<Rightarrow>
         rbind (deref (classes h) (declaring_class m)) (\<lambda>k.
         rbind (PrettyDescriptor (c_descriptor k)) (\<lambda>name.
         Inr (os @ pointer_text method @ tab @ name @ tab @ m_name m @ tab @ m_signature m @ tab @
                source_file k @ tab @ decimal (unat insns_size) @ tab @ bits @ newline,
              ds(l \<mapsto> d))))))))"

definition DumpCoverageDataClassVisitor :: "art_heap \<Rightarrow> ptr \<Rightarrow> string \<times> dex_store \<Rightarrow> (string \<times> dex_store) res" where
  "DumpCoverageDataClassVisitor h klass s =
     rbind (deref (classes h) klass) (\<lambda>k.
     if \<not> class_IsMiniTraceable k then Inr s
     else rbind (rfold (DumpCoverageData h) (direct_methods k) s)
            (rfold (DumpCoverageData h) (virtual_methods k)))"

text \<open>
  The dump to the coverage file. \<open>disk\<close> is the contents of the file if it exists, \<open>ks\<close> the
  kernel's answers; the result is the file afterwards.
\<close>

definition coverage_text :: "bool \<Rightarrow> nat \<Rightarrow> nat \<Rightarrow> art_heap \<Rightarrow> dex_store \<Rightarrow> (string \<times> dex_store) res" where
  "coverage_text start pid now h ds =
     (if start then Inr (''Start'' @ tab @ decimal pid @ tab @ decimal now @ newline, ds)
      else rfold (DumpCoverageDataClassVisitor h) (class_table h)
             (''Dump'' @ tab @ decimal pid @ tab @ decimal now @ newline, ds))"

definition DumpCoverageDataToFile ::
    "bool \<Rightarrow> nat \<Rightarrow> nat \<Rightarrow> nat \<Rightarrow> art_heap \<Rightarrow> u8 list option \<Rightarrow> sysret list \<Rightarrow> dex_store \<Rightarrow> (u8 list option \<times> dex_store) res" where
  "DumpCoverageDataToFile start uid pid now h disk ks ds =
     (let path = ''/data/mini_trace_'' @ decimal uid @ ''_coverage.dat'' in
      rbind (case disk of Some old \<Rightarrow> OpenFileWithFlags path True False old ks | None \<Rightarrow> CreateEmptyFile path ks) (\<lambda>file.
      case file of None \<Rightarrow> Inr (disk, ds)
      | Some f \<Rightarrow>
        rbind (coverage_text start pid now h ds) (\<lambda>(os, ds).
        rbind (case WriteFully (map of_char os) f of
                 (False, f) \<Rightarrow> Erase f
               | (True, f) \<Rightarrow> rbind (FlushCloseOrErase f) (\<lambda>(_, f). Inr f)) (\<lambda>f.
        rbind (destroy_FdFile f) (\<lambda>f. Inr (Some (file_bytes f), ds))))))"

section \<open>The array's invariant\<close>

text \<open>Every CodeItem lies inside the file and no two overlap; the array has a byte per byte of the file.\<close>

definition item_end :: "u32 \<Rightarrow> u32 \<Rightarrow> nat" where
  "item_end off units = unat off + 16 + 2 * unat units"

definition items_ok :: "DexFile \<Rightarrow> bool" where
  "items_ok d \<longleftrightarrow>
     (\<forall>off units. insns_size_in_code_units d off = Some units \<longrightarrow> off \<noteq> 0 \<and> item_end off units \<le> dex_size d) \<and>
     (\<forall>o1 u1 o2 u2. insns_size_in_code_units d o1 = Some u1 \<longrightarrow> insns_size_in_code_units d o2 = Some u2 \<longrightarrow>
        unat o1 < unat o2 \<longrightarrow> item_end o1 u1 \<le> unat o2)"

definition visit_ok :: "DexFile \<Rightarrow> u32 \<times> u32 \<Rightarrow> bool" where
  "visit_ok d v \<longleftrightarrow> (\<exists>units. insns_size_in_code_units d (fst v) = Some units \<and> snd v < units)"

text \<open>The array after the visits \<open>vs\<close>: a byte is set exactly for a visited pc.\<close>

definition covers :: "DexFile \<Rightarrow> (u32 \<times> u32) list \<Rightarrow> bool" where
  "covers d vs \<longleftrightarrow>
     (\<exists>b. coverage_data_begin d = Some b \<and> length b = dex_size d \<and>
        (\<forall>i < length b. b ! i = (if \<exists>v \<in> set vs. i = unat (fst v) + unat (snd v) then 1 else 0)))"

definition visit :: "u32 \<times> u32 \<Rightarrow> DexFile \<Rightarrow> DexFile res" where
  "visit v d = VisitPc (fst v) (snd v) d"

lemma visit_index:
  assumes "items_ok d" "visit_ok d v"
  shows "fst v \<noteq> 0" "unat (fst v) + unat (snd v) < dex_size d"
  using assms by (fastforce simp: items_ok_def visit_ok_def item_end_def word_less_nat_alt)+

lemma visit_covers:
  assumes "items_ok d" "covers d vs" "visit_ok d v"
  obtains d' where "visit v d = Inr d'" "covers d' (v # vs)" "dex_size d' = dex_size d"
    "insns_size_in_code_units d' = insns_size_in_code_units d"
proof -
  from assms(2) obtain b where b: "coverage_data_begin d = Some b" "length b = dex_size d"
      "\<forall>i < length b. b ! i = (if \<exists>v \<in> set vs. i = unat (fst v) + unat (snd v) then 1 else 0)"
    by (auto simp: covers_def)
  let ?i = "unat (fst v) + unat (snd v)"
  let ?d = "d\<lparr>coverage_data_begin := Some (b[?i := 1])\<rparr>"
  note idx = visit_index [OF assms(1,3)]
  have "visit v d = Inr ?d" using idx b(1,2) by (simp add: visit_def VisitPc_def coverage_array_def store8_def)
  moreover have "b[?i := 1] ! j = (if \<exists>w \<in> set (v # vs). j = unat (fst w) + unat (snd w) then 1 else 0)"
    if "j < length b" for j using that b(3) by (cases "j = ?i") auto
  with b have "covers ?d (v # vs)" unfolding covers_def by (intro exI [of _ "b[?i := 1]"]) simp
  ultimately show thesis using that by simp
qed

lemma items_ok_frame:
  "insns_size_in_code_units d' = insns_size_in_code_units d \<Longrightarrow> dex_size d' = dex_size d \<Longrightarrow> items_ok d' = items_ok d"
  "insns_size_in_code_units d' = insns_size_in_code_units d \<Longrightarrow> visit_ok d' = visit_ok d"
  by (simp_all add: items_ok_def visit_ok_def fun_eq_iff)

lemma visits_cover:
  assumes "items_ok d" "covers d vs" "\<forall>v \<in> set ws. visit_ok d v"
  obtains d' where "rfold visit ws d = Inr d'" "covers d' (rev ws @ vs)" "dex_size d' = dex_size d"
    "insns_size_in_code_units d' = insns_size_in_code_units d"
  using assms
proof (induction ws arbitrary: d vs thesis)
  case Nil
  then show ?case by simp
next
  case (Cons w ws)
  from Cons.prems obtain d1 where d1: "visit w d = Inr d1" "covers d1 (w # vs)" "dex_size d1 = dex_size d"
      "insns_size_in_code_units d1 = insns_size_in_code_units d"
    using visit_covers [of d vs w] by auto
  have ok: "items_ok d1" "\<forall>v \<in> set ws. visit_ok d1 v"
    using Cons.prems(2,4) items_ok_frame [OF d1(4)] d1(3) by auto
  obtain d2 where "rfold visit ws d1 = Inr d2" "covers d2 (rev ws @ w # vs)" "dex_size d2 = dex_size d1"
      "insns_size_in_code_units d2 = insns_size_in_code_units d1"
    using Cons.IH [OF _ ok(1) d1(2) ok(2)] by blast
  with d1 show ?case by (intro Cons.prems(1) [of d2]) simp_all
qed

section \<open>Reading the array\<close>

lemma le32_zero: "le32 a b c d = 0 \<longleftrightarrow> a = 0 \<and> b = 0 \<and> c = 0 \<and> d = 0"
proof
  assume z: "le32 a b c d = 0"
  have n: "\<not> bit (le32 a b c d) k" for k by (simp add: z)
  have "\<not> bit a k" "\<not> bit b k" "\<not> bit c k" "\<not> bit d k" if "k < 8" for k
    using that n [of k] n [of "k + 8"] n [of "k + 16"] n [of "k + 24"] unfolding bit_le32 by simp_all
  then show "a = 0 \<and> b = 0 \<and> c = 0 \<and> d = 0" by (auto intro!: bit_word_eqI)
qed (simp add: le32_def)

lemma any_word_iff:
  "p + 4 * n \<le> length b \<Longrightarrow> any_word b p n = Inr (\<exists>j < 4 * n. b ! (p + j) \<noteq> 0)"
proof (induction n arbitrary: p)
  case (Suc n)
  have "(\<exists>j < 4 * Suc n. b ! (p + j) \<noteq> 0) \<longleftrightarrow>
      b ! p \<noteq> 0 \<or> b ! (p + 1) \<noteq> 0 \<or> b ! (p + 2) \<noteq> 0 \<or> b ! (p + 3) \<noteq> 0 \<or> (\<exists>j < 4 * n. b ! (p + 4 + j) \<noteq> 0)"
    (is "?l \<longleftrightarrow> ?r")
  proof
    assume ?l
    then obtain j where j: "j < 4 * Suc n" "b ! (p + j) \<noteq> 0" by blast
    show ?r
    proof (cases "j < 4")
      case True
      then have "j = 0 \<or> j = 1 \<or> j = 2 \<or> j = 3" by linarith
      with j(2) show ?thesis by auto
    next
      case False
      with j have "j - 4 < 4 * n" "b ! (p + 4 + (j - 4)) \<noteq> 0" by auto
      then show ?thesis by blast
    qed
  next
    assume ?r
    moreover have "b ! (p + (4 + j)) \<noteq> 0 \<Longrightarrow> j < 4 * n \<Longrightarrow> ?l" for j by (rule exI [of _ "4 + j"]) simp
    moreover have "b ! (p + j) \<noteq> 0 \<Longrightarrow> j < 4 \<Longrightarrow> ?l" for j by (rule exI [of _ j]) simp
    from this [of 0] this [of 1] this [of 2] this [of 3] calculation show ?l by (auto simp: add.assoc)
  qed
  with Suc.IH [of "p + 4"] Suc.prems show ?case
    by (auto simp: read_le32_def load8_def le32_zero)
qed simp

lemma dump_bytes_eq:
  "p + n \<le> length b \<Longrightarrow>
     dump_bytes b p n = Inr (map (\<lambda>j. if b ! (p + j) \<noteq> 0 then CHR ''1'' else CHR ''0'') [0..<n], splice b p (replicate n 0))"
proof (induction n arbitrary: p b)
  case (Suc n)
  let ?b = "b[p := 0]"
  have len: "p < length b" "p + 1 + n \<le> length ?b" using Suc.prems by simp_all
  have same: "(if b ! p \<noteq> 0 then store8 b p 0 else Inr b) = Inr ?b"
    using len(1) list_update_id [of b p] by (cases "b ! p = 0") (simp_all add: store8_def)
  have "map (\<lambda>j. if ?b ! (p + 1 + j) \<noteq> 0 then CHR ''1'' else CHR ''0'') [0..<n] =
      map (\<lambda>j. if b ! (p + Suc j) \<noteq> 0 then CHR ''1'' else CHR ''0'') [0..<n]"
    by simp
  moreover have "splice b p (replicate (Suc n) 0) = splice ?b (p + 1) (replicate n 0)"
    using splice_Cons [of p 0 "replicate n 0" b] len by simp
  ultimately show ?case
    using Suc.IH [OF len(2)] len(1) same
    by (simp add: load8_def map_upt_Suc del: upt_Suc)
qed simp

section \<open>What a dump shows\<close>

lemma same_item:
  assumes "items_ok d" "insns_size_in_code_units d off = Some units" "visit_ok d v"
    and "unat (fst v) + unat (snd v) = unat off + j" "unat off + j < item_end off units"
  shows "fst v = off \<and> unat (snd v) = j"
proof -
  from assms(3) obtain u where u: "insns_size_in_code_units d (fst v) = Some u" "snd v < u" by (auto simp: visit_ok_def)
  have sep: "insns_size_in_code_units d o1 = Some u1 \<Longrightarrow> insns_size_in_code_units d o2 = Some u2 \<Longrightarrow>
      unat o1 < unat o2 \<Longrightarrow> item_end o1 u1 \<le> unat o2" for o1 u1 o2 u2
    using assms(1) unfolding items_ok_def by blast
  have "unat (fst v) = unat off"
  proof (rule linorder_cases [of "unat (fst v)" "unat off"])
    assume "unat (fst v) < unat off"
    from sep [OF u(1) assms(2) this] u(2) assms(4) show ?thesis by (simp add: item_end_def word_less_nat_alt)
  next
    assume "unat off < unat (fst v)"
    from sep [OF assms(2) u(1) this] assms(4,5) show ?thesis by simp
  qed
  with assms(4) show ?thesis by (simp add: word_unat_eq_iff)
qed

lemma byte_visited:
  assumes "items_ok d" "covers d vs" "\<forall>v \<in> set vs. visit_ok d v" "coverage_data_begin d = Some b"
    and "insns_size_in_code_units d off = Some units" "unat off + j < item_end off units"
  shows "b ! (unat off + j) \<noteq> 0 \<longleftrightarrow> (\<exists>pc. (off, pc) \<in> set vs \<and> unat pc = j)"
proof -
  from assms(1,5,6) have "unat off + j < dex_size d" by (fastforce simp: items_ok_def)
  with assms(2,4) have "b ! (unat off + j) \<noteq> 0 \<longleftrightarrow> (\<exists>v \<in> set vs. unat off + j = unat (fst v) + unat (snd v))"
    by (auto simp: covers_def)
  also have "\<dots> \<longleftrightarrow> (\<exists>pc. (off, pc) \<in> set vs \<and> unat pc = j)"
  proof
    assume "\<exists>v \<in> set vs. unat off + j = unat (fst v) + unat (snd v)"
    then obtain v where v: "v \<in> set vs" "unat (fst v) + unat (snd v) = unat off + j" by auto
    with assms(3) have "fst v = off \<and> unat (snd v) = j" by (intro same_item [OF assms(1,5) _ _ assms(6)]) auto
    with v(1) show "\<exists>pc. (off, pc) \<in> set vs \<and> unat pc = j" by (metis prod.collapse)
  next
    assume "\<exists>pc. (off, pc) \<in> set vs \<and> unat pc = j"
    then show "\<exists>v \<in> set vs. unat off + j = unat (fst v) + unat (snd v)" by force
  qed
  finally show ?thesis .
qed

lemma covers_cleared:
  assumes "items_ok d" "covers d vs" "\<forall>v \<in> set vs. visit_ok d v" "coverage_data_begin d = Some b"
    and "insns_size_in_code_units d off = Some units"
  shows "covers (d\<lparr>coverage_data_begin := Some (splice b (unat off) (replicate (unat units) 0))\<rparr>)
    (filter (\<lambda>v. fst v \<noteq> off) vs)"
proof -
  let ?n = "unat units"
  from assms(1,5) have fit: "unat off + ?n \<le> dex_size d" by (fastforce simp: items_ok_def item_end_def)
  from assms(2,4) have b: "length b = dex_size d"
      "\<forall>i < length b. b ! i = (if \<exists>v \<in> set vs. i = unat (fst v) + unat (snd v) then 1 else 0)"
    by (auto simp: covers_def)
  have "splice b (unat off) (replicate ?n 0) ! i =
      (if \<exists>v \<in> set (filter (\<lambda>v. fst v \<noteq> off) vs). i = unat (fst v) + unat (snd v) then 1 else 0)"
    if i: "i < length b" for i
  proof (cases "unat off \<le> i \<and> i < unat off + ?n")
    case True
    then obtain j where j: "i = unat off + j" "j < ?n" by (metis le_Suc_ex nat_add_left_cancel_less)
    have "fst v = off" if "v \<in> set vs" "i = unat (fst v) + unat (snd v)" for v
      using same_item [OF assms(1,5), of v j] assms(3) that j by (auto simp: item_end_def)
    with True fit b(1) show ?thesis by (auto simp: nth_splice)
  next
    case False
    have "fst v \<noteq> off" if v: "v \<in> set vs" "i = unat (fst v) + unat (snd v)" for v
    proof
      assume o: "fst v = off"
      from assms(3) v(1) have "visit_ok d v" by blast
      with o assms(5) have "unat (snd v) < ?n" by (auto simp: visit_ok_def word_less_nat_alt)
      with False v(2) o show False by simp
    qed
    then have "(\<exists>v \<in> set (filter (\<lambda>v. fst v \<noteq> off) vs). i = unat (fst v) + unat (snd v)) \<longleftrightarrow>
        (\<exists>v \<in> set vs. i = unat (fst v) + unat (snd v))" unfolding set_filter by blast
    moreover have "splice b (unat off) (replicate ?n 0) ! i = b ! i"
      using False fit b(1) i nth_splice [of "unat off" "replicate ?n 0" b i] by (simp only: length_replicate if_False)
    ultimately show ?thesis using b(2) i by (simp only:)
  qed
  with b(1) fit show ?thesis
    unfolding covers_def by (intro exI [of _ "splice b (unat off) (replicate ?n 0)"]) simp
qed

lemma coverage_row_visits:
  assumes "items_ok d" "covers d vs" "\<forall>v \<in> set vs. visit_ok d v"
    and "insns_size_in_code_units d off = Some units" "0 < units" "units < 0x10000"
  obtains d' where "covers d' (filter (\<lambda>v. fst v \<noteq> off) vs)"
    "coverage_row off d =
       Inr (if \<exists>pc. (off, pc) \<in> set vs
            then Some (ucast units, map (\<lambda>j. if (off, word_of_nat j) \<in> set vs then CHR ''1'' else CHR ''0'') [0..<unat units])
            else None, d')"
proof -
  let ?n = "unat units" and ?p = "unat off" and ?hit = "\<exists>pc. (off, pc) \<in> set vs"
  from assms(2) obtain b where b: "coverage_data_begin d = Some b" "length b = dex_size d" by (auto simp: covers_def)
  from assms(1,4) have off: "off \<noteq> 0" "item_end off units \<le> dex_size d" by (auto simp: items_ok_def)
  have n: "0 < ?n" "?n < 65536" using assms(5,6) by (simp_all add: word_less_nat_alt)
  have small: "unat (ucast units :: u16) = ?n" using n(2) by (simp add: unsigned_ucast_eq take_bit_nat_eq_self)
  have words: "unat (drop_bit 2 (ucast units :: u16)) + 1 = ?n div 4 + 1"
    unfolding unat_drop_bit_eq small by (simp add: drop_bit_eq_div)
  have nz: "(ucast units :: u16) \<noteq> 0" using small n(1) by auto
  have end_of: "4 * (?n div 4 + 1) \<le> 16 + 2 * ?n" "?n \<le> 4 * (?n div 4 + 1)" by presburger+
  have byte: "b ! (?p + j) \<noteq> 0 \<longleftrightarrow> (\<exists>pc. (off, pc) \<in> set vs \<and> unat pc = j)" if "j < 16 + 2 * ?n" for j
    using byte_visited [OF assms(1-3) b(1) assms(4)] that by (simp add: item_end_def)
  have pc: "unat pc < ?n" if "(off, pc) \<in> set vs" for pc
    using assms(3,4) that by (force simp: visit_ok_def word_less_nat_alt)
  have any: "any_word b ?p (?n div 4 + 1) = Inr ?hit"
  proof -
    have "any_word b ?p (?n div 4 + 1) = Inr (\<exists>j < 4 * (?n div 4 + 1). b ! (?p + j) \<noteq> 0)"
      using off(2) b(2) end_of(1) by (intro any_word_iff) (simp add: item_end_def)
    moreover have "(\<exists>j < 4 * (?n div 4 + 1). b ! (?p + j) \<noteq> 0) \<longleftrightarrow> ?hit"
    proof
      assume "\<exists>j < 4 * (?n div 4 + 1). b ! (?p + j) \<noteq> 0"
      then obtain j where j: "j < 4 * (?n div 4 + 1)" "b ! (?p + j) \<noteq> 0" by blast
      from j(1) end_of(1) have "j < 16 + 2 * ?n" by linarith
      then show ?hit using byte [of j] j(2) by blast
    next
      assume ?hit
      then obtain q where q: "(off, q) \<in> set vs" by blast
      then have "b ! (?p + unat q) \<noteq> 0" using byte [of "unat q"] pc [OF q] by auto
      with pc [OF q] end_of(2) show "\<exists>j < 4 * (?n div 4 + 1). b ! (?p + j) \<noteq> 0"
        by (intro exI [of _ "unat q"]) simp
    qed
    ultimately show ?thesis by simp
  qed
  have visited: "(if b ! ?p = 0 then any_word b ?p (?n div 4 + 1) else Inr True) = Inr ?hit"
    using any byte [of 0] by auto
  have row: "dump_bytes b ?p ?n =
      Inr (map (\<lambda>j. if (off, word_of_nat j) \<in> set vs then CHR ''1'' else CHR ''0'') [0..<?n], splice b ?p (replicate ?n 0))"
  proof -
    have "b ! (?p + j) \<noteq> 0 \<longleftrightarrow> (off, word_of_nat j) \<in> set vs" if j: "j < ?n" for j
    proof -
      have "unat (word_of_nat j :: u32) = j" using j n(2) by (simp add: unat_of_nat take_bit_nat_eq_self)
      then show ?thesis using byte [of j] j by (metis of_nat_unat trans_less_add2 ucast_id mult_2 trans_less_add1)
    qed
    moreover have "?p + ?n \<le> length b" using off(2) b(2) by (simp add: item_end_def)
    ultimately show ?thesis by (simp add: dump_bytes_eq)
  qed
  have len: "?p < length b" using off(2) b(2) by (simp add: item_end_def)
  let ?d = "if ?hit then d\<lparr>coverage_data_begin := Some (splice b ?p (replicate ?n 0))\<rparr> else d"
  have "covers ?d (filter (\<lambda>v. fst v \<noteq> off) vs)"
  proof (cases ?hit)
    case True
    then show ?thesis using covers_cleared [OF assms(1-3) b(1) assms(4)] by simp
  next
    case False
    then have "filter (\<lambda>v. fst v \<noteq> off) vs = vs" by (auto simp: filter_id_conv)
    with False assms(2) show ?thesis by simp
  qed
  moreover have "coverage_row off d =
      Inr (if ?hit
           then Some (ucast units, map (\<lambda>j. if (off, word_of_nat j) \<in> set vs then CHR ''1'' else CHR ''0'') [0..<?n])
           else None, ?d)"
  proof -
    have "coverage_row off d =
        rbind (if b ! ?p = 0 then any_word b ?p (?n div 4 + 1) else Inr True) (\<lambda>visited.
        if \<not> visited then Inr (None, d)
        else rbind (dump_bytes b ?p ?n) (\<lambda>(bits, b). Inr (Some (ucast units, bits), d\<lparr>coverage_data_begin := Some b\<rparr>)))"
      using off(1) nz len
      by (simp only: coverage_row_def GetCodeItem_def GetCoverageData_def coverage_array_def load8_def Let_def
          if_False if_True option.case deref_Some [of "insns_size_in_code_units d", OF assms(4)] rbind_Inr b(1) small words)
    then show ?thesis unfolding visited row by simp
  qed
  ultimately show thesis by (rule that)
qed


text \<open>A small file with two methods.\<close>

definition sample_dex :: DexFile where
  "sample_dex = \<lparr>dex_size = 64, insns_size_in_code_units = [8 \<mapsto> 3, 40 \<mapsto> 4], coverage_data_begin = Some (replicate 64 0)\<rparr>"

lemma sample_dex_ok: "items_ok sample_dex" "covers sample_dex []"
  by (auto simp: items_ok_def covers_def sample_dex_def item_end_def split: if_splits)


text \<open>C28: the array is not cleared when it is allocated: with a set byte in the memory the
  allocation returns, a method that was never executed is dumped as executed.\<close>

theorem stale_memory_is_dumped:
  assumes "items_ok d" "length mem = dex_size d" "insns_size_in_code_units d off = Some units"
    and "0 < units" "units < 0x10000" "mem ! unat off \<noteq> 0" "Init True mem d = (ok, d0)"
  shows "\<exists>bits d'. coverage_row off d0 = Inr (Some (ucast units, CHR ''1'' # bits), d')"
proof -
  let ?n = "unat units" and ?p = "unat off"
  from assms(1,3) have off: "off \<noteq> 0" "item_end off units \<le> dex_size d" by (auto simp: items_ok_def)
  then have len: "?p + ?n \<le> length mem" "?p < length mem" and d0: "d0 = d\<lparr>coverage_data_begin := Some mem\<rparr>"
    using assms(2,7) by (auto simp: Init_def item_end_def split: if_splits)
  have n: "0 < ?n" "?n < 65536" using assms(4,5) by (simp_all add: word_less_nat_alt)
  have small: "unat (ucast units :: u16) = ?n" using n(2) by (simp add: unsigned_ucast_eq take_bit_nat_eq_self)
  then have nz: "(ucast units :: u16) \<noteq> 0" using n(1) by auto
  obtain m where m: "?n = Suc m" using n(1) by (cases ?n) auto
  have "coverage_row off d0 = rbind (dump_bytes mem ?p ?n) (\<lambda>(bits, b).
      Inr (Some (ucast units, bits), d0\<lparr>coverage_data_begin := Some b\<rparr>))"
    using off(1) nz len(2) assms(3,6)
    by (simp add: coverage_row_def GetCodeItem_def GetCoverageData_def coverage_array_def load8_def Let_def small d0)
  then show ?thesis
    using assms(6) unfolding dump_bytes_eq [OF len(1)] by (simp add: m upt_rec [of 0 "Suc m"] del: upt_Suc)
qed

theorem stale_memory_is_dumped_witness:
  "\<exists>bits d'. coverage_row 8 (snd (Init True (replicate 64 0xAA) sample_dex)) = Inr (Some (3, CHR ''1'' # bits), d')"
  using stale_memory_is_dumped [OF sample_dex_ok(1), of "replicate 64 0xAA" 8 3]
  by (simp add: sample_dex_def Init_def)

end
