(* ===== verification/MiniTrace_Control.thy ===== *)
theory MiniTrace_Control
  imports MiniTrace_Config Dex_Coverage Instrumentation_Stubs
begin

text \<open>
  The life of the tracer (runtime/mini\_trace.cc): PostClassPrepare marks what is traced, Start
  reads the configuration, opens the files and registers the tracer with the instrumentation,
  Stop flushes, writes the lists of threads, methods and fields, and takes everything down
  again. Start and Stop run on the whole runtime: heap, instrumentation, stacks and tracer.
\<close>

section \<open>State\<close>

text \<open>The static members the\_trace\_ (null is 0) and whitelist\_, and the tracer objects by address.\<close>

record control =
  the_trace :: ptr
  whitelist :: "string list option"
  tracers :: "ptr \<rightharpoonup> MiniTrace"

record art_runtime =
  rt_vm :: "control vm"
  dex_files :: dex_store
  coverage_file :: "u8 list option"       \<comment> \<open>the coverage file, if it exists\<close>
  thread_list :: "(u32 \<times> string) list"    \<comment> \<open>thread id and name of the running threads\<close>

text \<open>The instrumentation calls the tracer for its own listener address only.\<close>

definition with_tracer :: "(MiniTrace \<Rightarrow> MiniTrace res) \<Rightarrow> listener \<Rightarrow> control \<Rightarrow> control res" where
  "with_tracer f l c =
     (case tracers c l of None \<Rightarrow> Inr c
      | Some t \<Rightarrow> rbind (f t) (\<lambda>t. Inr (c\<lparr>tracers := (tracers c)(l \<mapsto> t)\<rparr>)))"

definition trace_env :: "u32 \<Rightarrow> to_dex_pc \<Rightarrow> control env" where
  "trace_env epc tpc =
     \<lparr>exit_pc = epc, to_pc = tpc,
      on_entered = \<lambda>h l tid this m pc. with_tracer (MethodEntered h tid this m pc) l,
      on_exited = \<lambda>h l tid this m pc rv. with_tracer (MethodExited h tid this m pc rv) l\<rparr>"

section \<open>Marking classes\<close>

definition AllocateCoverageData :: "art_heap \<Rightarrow> dex_store \<Rightarrow> ptr \<Rightarrow> unit res" where
  "AllocateCoverageData h ds method =
     rbind (deref (methods h) method) (\<lambda>m.
     rbind (method_dex h m ds) (\<lambda>(_, d).
     case GetCodeItem d (dex_code_item_offset m) of
       None \<Rightarrow> Inl NullPointer
     | Some code_item \<Rightarrow> rbind (deref (insns_size_in_code_units d) code_item) (\<lambda>_. Inr ())))"

definition mark_method :: "dex_store \<Rightarrow> ptr \<Rightarrow> art_heap \<Rightarrow> art_heap res" where
  "mark_method ds mp h =
     rbind (deref (methods h) mp) (\<lambda>m.
     let h = set_method mp (method_SetIsMiniTraceable m) h in
     rbind (AllocateCoverageData h ds mp) (\<lambda>_. Inr h))"

definition mark_field :: "ptr \<Rightarrow> art_heap \<Rightarrow> art_heap res" where
  "mark_field fp h =
     rbind (deref (art_fields h) fp) (\<lambda>f.
     Inr (h\<lparr>art_fields := (art_fields h)(fp \<mapsto> field_SetIsMiniTraceable f)\<rparr>))"

text \<open>The prefix of a whitelist entry ends at its first zero character.\<close>

definition do_trace :: "string list option \<Rightarrow> Klass \<Rightarrow> bool" where
  "do_trace wl k =
     (case wl of None \<Rightarrow> False
      | Some ps \<Rightarrow>
          if ps = [] then \<not> StartsWith (dex_location k) ''/system/framework/''
          else list_ex (\<lambda>p. StartsWith (c_descriptor k) (takeWhile (\<lambda>c. c \<noteq> CHR 0x00) p)) ps)"

definition PostClassPrepare :: "string list option \<Rightarrow> dex_store \<Rightarrow> ptr \<Rightarrow> art_heap \<Rightarrow> art_heap res" where
  "PostClassPrepare wl ds kp h =
     rbind (deref (classes h) kp) (\<lambda>k.
     if IsArrayClass k \<or> IsInterface k \<or> IsPrimitive k \<or> IsProxyClass k then Inr h
     else if \<not> do_trace wl k then Inr h
     else
       rbind (rfold (mark_method ds) (direct_methods k)
                (h\<lparr>classes := (classes h)(kp \<mapsto> class_SetIsMiniTraceable k)\<rparr>)) (\<lambda>h.
       rbind (rfold (mark_method ds) (virtual_methods k) h) (\<lambda>h.
       rbind (rfold mark_field (ifields k) h)
         (rfold mark_field (sfields k)))))"

section \<open>Starting\<close>

record start_input =
  config_file :: "string option option"   \<comment> \<open>None: does not exist; Some None: cannot be opened\<close>
  info_kernel :: "sysret list"
  data_kernel :: "sysret list"
  coverage_kernel :: "sysret list"
  in_uid :: nat
  in_pid :: nat
  micro_time :: u64
  milli_time :: nat
  new_address :: ptr                      \<comment> \<open>what new returns for the tracer\<close>
  tracer_key :: ptr                       \<comment> \<open>the address kMiniTracerInstrumentationKey\<close>

text \<open>The part of Start under the lock, with the threads suspended.\<close>

definition create_trace ::
    "control env \<Rightarrow> start_input \<Rightarrow> TraceConfig \<Rightarrow> FdFile \<Rightarrow> FdFile \<Rightarrow> dex_store \<Rightarrow> control vm \<Rightarrow> control vm res" where
  "create_trace e inp c info data ds v =
     rbind (new_MiniTrace info data (events c) (config_buffer_size c) (micro_time inp)) (\<lambda>t.
     let p = new_address inp;
         v = v\<lparr>vm_state := (vm_state v)\<lparr>whitelist := Some (config_whitelist c), the_trace := p,
                  tracers := (tracers (vm_state v))(p \<mapsto> t)\<rparr>\<rparr> in
     rbind (AddListener p (events c) (vm_instr v)) (\<lambda>i.
     rbind (EnableMethodTracing e (tracer_key inp) False (v\<lparr>vm_instr := i\<rparr>)) (\<lambda>v.
     rbind (VisitClasses (PostClassPrepare (whitelist (vm_state v)) ds) (vm_heap v)) (\<lambda>h.
     Inr (v\<lparr>vm_heap := h\<rparr>)))))"

text \<open>In a run of one thread the second test of the\_trace\_ has the outcome of the first.\<close>

definition Start :: "control env \<Rightarrow> start_input \<Rightarrow> art_runtime \<Rightarrow> art_runtime res" where
  "Start e inp rt =
     (if the_trace (vm_state (rt_vm rt)) \<noteq> 0 then Inr rt
      else case config_file inp of
        None \<Rightarrow> Inr rt
      | Some None \<Rightarrow> Inr rt
      | Some (Some text) \<Rightarrow>
          rbind (read_config text) (\<lambda>cfg. case cfg of None \<Rightarrow> Inr rt | Some c \<Rightarrow>
          let base = ''/data/mini_trace_'' @ decimal (in_uid inp) in
          rbind (CreateEmptyFile (base @ ''_info.log'') (info_kernel inp)) (\<lambda>info.
          case info of None \<Rightarrow> Inr rt | Some info \<Rightarrow>
          rbind (CreateEmptyFile (base @ ''_data.bin'') (data_kernel inp)) (\<lambda>data.
          case data of
            None \<Rightarrow> rbind (destroy_FdFile info) (\<lambda>_. Inr rt)
          | Some data \<Rightarrow>
              rbind (create_trace e inp c info data (dex_files rt) (rt_vm rt)) (\<lambda>v.
              rbind (DumpCoverageDataToFile True (in_uid inp) (in_pid inp) (milli_time inp) (vm_heap v)
                       (coverage_file rt) (coverage_kernel inp) (dex_files rt)) (\<lambda>(cf, ds).
              Inr (rt\<lparr>rt_vm := v, coverage_file := cf, dex_files := ds\<rparr>)))))))"

section \<open>Lists of threads, methods and fields\<close>

definition DumpThreadList :: "(u32 \<times> string) list \<Rightarrow> MiniTrace \<Rightarrow> string" where
  "DumpThreadList ths t =
     concat (map (\<lambda>(tid, name). decimal (unat tid) @ tab @ name @ newline) (exited_threads t @ ths))"

definition method_line :: "art_heap \<Rightarrow> ptr \<Rightarrow> string res" where
  "method_line h method =
     rbind (deref (methods h) method) (\<lambda>m.
     rbind (deref (classes h) (declaring_class m)) (\<lambda>k.
     rbind (PrettyDescriptor (c_descriptor k)) (\<lambda>name.
     Inr (pointer_text method @ tab @ name @ tab @ m_name m @ tab @ m_signature m @ tab @ source_file k @ newline))))"

definition field_line :: "art_heap \<Rightarrow> ptr \<Rightarrow> string res" where
  "field_line h field =
     rbind (deref (art_fields h) field) (\<lambda>f.
     rbind (deref (classes h) (f_declaring_class f)) (\<lambda>k.
     rbind (PrettyDescriptor (c_descriptor k)) (\<lambda>name.
     Inr (pointer_text field @ tab @ name @ tab @ f_name f @ tab @ f_type_descriptor f @ newline))))"

text \<open>A std::set of pointers is walked in ascending order.\<close>

definition dump_set :: "(ptr \<Rightarrow> string res) \<Rightarrow> ptr set \<Rightarrow> string \<Rightarrow> string res" where
  "dump_set line ps os = rfold (\<lambda>p os. rbind (line p) (\<lambda>l. Inr (os @ l))) (sorted_list_of_set ps) os"

definition DumpMethodList :: "art_heap \<Rightarrow> MiniTrace \<Rightarrow> string \<Rightarrow> string res" where
  "DumpMethodList h t os = dump_set (method_line h) (visited_methods t) os"

definition DumpFieldList :: "art_heap \<Rightarrow> MiniTrace \<Rightarrow> string \<Rightarrow> string res" where
  "DumpFieldList h t os = dump_set (field_line h) (visited_fields t) os"

definition DumpList :: "art_heap \<Rightarrow> (u32 \<times> string) list \<Rightarrow> MiniTrace \<Rightarrow> string res" where
  "DumpList h ths t =
     rbind (DumpMethodList h t (''*threads'' @ newline @ DumpThreadList ths t @ ''*methods'' @ newline)) (\<lambda>os.
     rbind (DumpFieldList h t (os @ ''*fields'' @ newline)) (\<lambda>os.
     Inr (os @ ''*end'' @ newline)))"

section \<open>Stopping\<close>

text \<open>FinishTracing; a failed write leaves a pending Java exception and goes on.\<close>

definition FinishTracing :: "art_heap \<Rightarrow> (u32 \<times> string) list \<Rightarrow> MiniTrace \<Rightarrow> MiniTrace res" where
  "FinishTracing h ths t =
     rbind (FlushBuffer t) (\<lambda>(_, t).
     rbind (DumpList h ths t) (\<lambda>header.
     Inr (t\<lparr>trace_info_file := snd (WriteFully (map of_char header) (trace_info_file t))\<rparr>)))"

definition flush_and_close :: "FdFile \<Rightarrow> FdFile res" where
  "flush_and_close f = rbind (Close (snd (Flush f))) (\<lambda>(_, f). Inr f)"

definition close_and_delete :: "MiniTrace \<Rightarrow> MiniTrace res" where
  "close_and_delete t =
     rbind (flush_and_close (trace_info_file t)) (\<lambda>info.
     rbind (flush_and_close (trace_data_file t)) (\<lambda>data.
     rbind (destroy_FdFile data) (\<lambda>data.
     rbind (destroy_FdFile info) (\<lambda>info.
     Inr (t\<lparr>trace_info_file := info, trace_data_file := data\<rparr>)))))"

text \<open>The result has the state the files were left in, besides the runtime.\<close>

definition Stop :: "control env \<Rightarrow> ptr \<Rightarrow> art_runtime \<Rightarrow> (art_runtime \<times> MiniTrace option) res" where
  "Stop e key rt =
     (let v = rt_vm rt; p = the_trace (vm_state v) in
      if p = 0 then Inr (rt, None)
      else
        rbind (deref (tracers (vm_state v)) p) (\<lambda>t.
        rbind (FinishTracing (vm_heap v) (thread_list rt) t) (\<lambda>t.
        let v = v\<lparr>vm_state := (vm_state v)\<lparr>the_trace := 0, whitelist := None, tracers := (tracers (vm_state v))(p \<mapsto> t)\<rparr>\<rparr> in
        rbind (DisableMethodTracing e key v) (\<lambda>v.
        rbind (RemoveListener p (trace_events t) (vm_instr v)) (\<lambda>i.
        rbind (deref (tracers (vm_state v)) p) (\<lambda>t.
        rbind (close_and_delete t) (\<lambda>t.
        Inr (rt\<lparr>rt_vm := v\<lparr>vm_instr := i, vm_state := (vm_state v)\<lparr>tracers := (tracers (vm_state v))(p := None)\<rparr>\<rparr>\<rparr>,
             Some t))))))))"

datatype TracingMode = kTracingInactive | kMethodTracingActive | kSampleProfilingActive

definition GetMethodTracingMode :: "art_runtime \<Rightarrow> TracingMode" where
  "GetMethodTracingMode rt =
     (if the_trace (vm_state (rt_vm rt)) = 0 then kTracingInactive else kMethodTracingActive)"

definition Shutdown :: "control env \<Rightarrow> ptr \<Rightarrow> art_runtime \<Rightarrow> (art_runtime \<times> MiniTrace option) res" where
  "Shutdown e key rt =
     (if GetMethodTracingMode rt \<noteq> kTracingInactive then Stop e key rt else Inr (rt, None))"

definition StoreExitingThreadInfo :: "u32 \<Rightarrow> string \<Rightarrow> control \<Rightarrow> control res" where
  "StoreExitingThreadInfo tid name c =
     (if the_trace c \<noteq> 0
      then with_tracer (\<lambda>t. Inr (t\<lparr>exited_threads := Put tid name (exited_threads t)\<rparr>)) (the_trace c) c
      else Inr c)"

section \<open>What logging keeps of a tracer\<close>

lemma FlushBuffer_events: "FlushBuffer t = Inr (ok, t') \<Longrightarrow> trace_events t' = trace_events t"
  by (auto simp: FlushBuffer_def Let_def rbind_eq_Inr split: if_splits prod.splits bool.splits)

lemma HandleOverflow_events: "HandleOverflow t = Inr (ok, t') \<Longrightarrow> trace_events t' = trace_events t"
  by (auto simp: HandleOverflow_def HandleOverflow_locked_def Let_def split: if_splits dest: FlushBuffer_events)

lemma reserve_events: "reserve t = Inr (slot, t') \<Longrightarrow> trace_events t' = trace_events t"
proof (induction t rule: reserve.induct)
  case (1 t)
  show ?case
  proof (cases "int (cur_offset t + kMiniTraceRecordSize) > buffer_size t")
    case True
    then obtain ok u where u: "HandleOverflow t = Inr (ok, u)"
      using 1(2) by (auto simp: reserve.simps [of t] Let_def split: sum.splits)
    note keep = HandleOverflow_events [OF u]
    show ?thesis
    proof (cases "ok \<and> cur_offset u \<noteq> cur_offset t")
      case True': True
      with True u 1(2) have "reserve u = Inr (slot, t')" by (simp add: reserve.simps [of t] Let_def)
      with 1(1) [OF refl refl True u refl] True' keep show ?thesis by simp
    next
      case False
      with True u 1(2) keep show ?thesis by (auto simp: reserve.simps [of t] Let_def split: if_splits)
    qed
  next
    case False
    with 1(2) show ?thesis by (auto simp: reserve.simps [of t] Let_def)
  qed
qed

lemma LogMethodTraceEvent_events:
  "LogMethodTraceEvent h tid m ev rv t = Inr t' \<Longrightarrow> trace_events t' = trace_events t"
  by (auto simp: LogMethodTraceEvent_def rbind_eq_Inr split: if_splits option.splits dest!: reserve_events)

definition tracer_events :: "control \<Rightarrow> ptr \<rightharpoonup> u32" where
  "tracer_events s l = map_option trace_events (tracers s l)"

lemma with_tracer_keeps:
  assumes "with_tracer f l s = Inr s'" "\<And>t t'. f t = Inr t' \<Longrightarrow> trace_events t' = trace_events t"
  shows "the_trace s' = the_trace s \<and> whitelist s' = whitelist s \<and> tracer_events s' = tracer_events s"
  using assms by (auto simp: with_tracer_def tracer_events_def fun_eq_iff rbind_eq_Inr split: option.splits)

text \<open>The callbacks of the tracer keep which tracers exist and what they are registered for.\<close>

interpretation tl: state_listener "\<lambda>s. the_trace s = a \<and> whitelist s = w \<and> tracer_events s = E" "trace_env epc tpc"
  for a w E epc tpc
proof
  fix h l tid obj m pc s s' rv
  show "on_entered (trace_env epc tpc) h l tid obj m pc s = Inr s' \<Longrightarrow>
      the_trace s = a \<and> whitelist s = w \<and> tracer_events s = E \<Longrightarrow>
      the_trace s' = a \<and> whitelist s' = w \<and> tracer_events s' = E"
    using with_tracer_keeps [of "MethodEntered h tid obj m pc" l s s'] LogMethodTraceEvent_events
    by (auto simp: trace_env_def MethodEntered_def)
  show "on_exited (trace_env epc tpc) h l tid obj m pc rv s = Inr s' \<Longrightarrow>
      the_trace s = a \<and> whitelist s = w \<and> tracer_events s = E \<Longrightarrow>
      the_trace s' = a \<and> whitelist s' = w \<and> tracer_events s' = E"
    using with_tracer_keeps [of "MethodExited h tid obj m pc rv" l s s'] LogMethodTraceEvent_events
    by (auto simp: trace_env_def MethodExited_def)
qed

section \<open>Starting and stopping\<close>

lemma ConfigureStubs_listeners_inv:
  assumes "ConfigureStubs e key lvl v = Inr v'" "listeners_inv (vm_instr v)"
  shows "listeners_inv (vm_instr v')"
proof -
  have r: "listeners_inv (request_level key lvl i) = listeners_inv i" for i
    by (simp add: request_level_def Let_def listeners_inv_def IsActive_def)
  have s: "listeners_inv (set_stub_flags l i) = listeners_inv i" for l i
    by (simp add: set_stub_flags_def listeners_inv_def IsActive_def)
  have b: "listeners_inv (i\<lparr>instrumentation_stubs_installed := b\<rparr>) = listeners_inv i" for i b
    by (simp add: listeners_inv_def IsActive_def)
  show ?thesis by (rule ConfigureStubs_cases [OF assms(1) refl refl]) (use assms(2) in \<open>simp_all add: r s b\<close>)
qed

text \<open>The level in force is the highest one requested.\<close>

definition level_in_force :: "Instrumentation \<Rightarrow> bool" where
  "level_in_force i \<longleftrightarrow>
     (\<forall>k l. find_entry (requested_instrumentation_levels i) k = Some l \<longrightarrow> l \<le> GetCurrentInstrumentationLevel i) \<and>
     (GetCurrentInstrumentationLevel i \<noteq> kInstrumentNothing \<longrightarrow>
        (\<exists>k. find_entry (requested_instrumentation_levels i) k = Some (GetCurrentInstrumentationLevel i)))"

lemma level_unique:
  assumes "level_in_force i" "level_in_force j"
    and "find_entry (requested_instrumentation_levels i) = find_entry (requested_instrumentation_levels j)"
  shows "GetCurrentInstrumentationLevel i = GetCurrentInstrumentationLevel j"
proof -
  have "GetCurrentInstrumentationLevel a \<le> GetCurrentInstrumentationLevel b"
    if "level_in_force a" "level_in_force b"
      "find_entry (requested_instrumentation_levels a) = find_entry (requested_instrumentation_levels b)" for a b
  proof (cases "GetCurrentInstrumentationLevel a = kInstrumentNothing")
    case False
    with that show ?thesis unfolding level_in_force_def by metis
  qed simp
  from this [of i j] this [of j i] assms show ?thesis by simp
qed

lemma create_trace_effect:
  assumes "create_trace (trace_env epc tpc) inp c info data ds v = Inr v'"
    and "listeners_inv (vm_instr v)" "sm_inv (requested_instrumentation_levels (vm_instr v))"
  shows "the_trace (vm_state v') = new_address inp"
    "tracer_events (vm_state v') = (tracer_events (vm_state v))(new_address inp \<mapsto> events c)"
    "listeners_inv (vm_instr v')" "sm_inv (requested_instrumentation_levels (vm_instr v'))"
    "registered (vm_instr v') ev = registered (vm_instr v) ev @ (if HasEvent ev (events c) then [new_address inp] else [])"
    "find_entry (requested_instrumentation_levels (vm_instr v')) =
       (find_entry (requested_instrumentation_levels (vm_instr v)))(tracer_key inp \<mapsto> kInstrumentWithInstrumentationStubs)"
proof -
  let ?p = "new_address inp"
  from assms(2) have ok: "lists_ok (vm_instr v)" by (simp add: listeners_inv_lists)
  let ?i = "with_listeners (added ?p (events c) (vm_instr v)) (vm_instr v)"
  from assms(1) obtain t w where t: "new_MiniTrace info data (events c) (config_buffer_size c) (micro_time inp) = Inr t"
    and w: "EnableMethodTracing (trace_env epc tpc) (tracer_key inp) False
        (v\<lparr>vm_state := (vm_state v)\<lparr>whitelist := Some (config_whitelist c), the_trace := ?p,
             tracers := (tracers (vm_state v))(?p \<mapsto> t)\<rparr>, vm_instr := ?i\<rparr>) = Inr w"
    and v': "vm_state v' = vm_state w" "vm_instr v' = vm_instr w"
    by (auto simp: create_trace_def Let_def rbind_eq_Inr AddListener_eq [OF ok])
  let ?v = "v\<lparr>vm_state := (vm_state v)\<lparr>whitelist := Some (config_whitelist c), the_trace := ?p,
             tracers := (tracers (vm_state v))(?p \<mapsto> t)\<rparr>, vm_instr := ?i\<rparr>"
  have ev: "trace_events t = events c" using t by (auto simp: new_MiniTrace_def split: if_splits)
  from w have cs: "ConfigureStubs (trace_env epc tpc) (tracer_key inp) kInstrumentWithInstrumentationStubs ?v = Inr w"
    by (simp add: EnableMethodTracing_def)
  have lv: "requested_instrumentation_levels ?i = requested_instrumentation_levels (vm_instr v)"
    using same_levels_with unfolding same_levels_def by blast
  have "the_trace (vm_state ?v) = ?p \<and> whitelist (vm_state ?v) = Some (config_whitelist c) \<and>
      tracer_events (vm_state ?v) = (tracer_events (vm_state v))(?p \<mapsto> events c)"
    using ev by (auto simp: tracer_events_def fun_eq_iff)
  from tl.configure [OF cs this] show "the_trace (vm_state v') = ?p"
    "tracer_events (vm_state v') = (tracer_events (vm_state v))(?p \<mapsto> events c)"
    by (simp_all add: v')
  show "listeners_inv (vm_instr v')"
    using ConfigureStubs_listeners_inv [OF cs] inv_with [OF ok] by (simp add: v')
  have sm: "sm_inv (requested_instrumentation_levels (vm_instr ?v))" using assms(3) lv by simp
  note fr = ConfigureStubs_frame [OF sm cs]
  from fr show "sm_inv (requested_instrumentation_levels (vm_instr v'))" by (simp add: v')
  from fr show "registered (vm_instr v') ev = registered (vm_instr v) ev @ (if HasEvent ev (events c) then [?p] else [])"
    by (simp add: v' registered_with added_def)
  from fr show "find_entry (requested_instrumentation_levels (vm_instr v')) =
      (find_entry (requested_instrumentation_levels (vm_instr v)))(tracer_key inp \<mapsto> kInstrumentWithInstrumentationStubs)"
    by (simp add: v' lv)
qed

lemma Start_started:
  assumes "Start e inp rt = Inr rt1" "the_trace (vm_state (rt_vm rt)) = 0" "the_trace (vm_state (rt_vm rt1)) \<noteq> 0"
  obtains lns c info data where "config_file inp = Some (Some lns)" "read_config lns = Inr (Some c)"
    "create_trace e inp c info data (dex_files rt) (rt_vm rt) = Inr (rt_vm rt1)"
proof -
  from assms obtain lns where lns: "config_file inp = Some (Some lns)"
    by (auto simp: Start_def split: option.splits)
  with assms obtain c where c: "read_config lns = Inr (Some c)"
    by (auto simp: Start_def rbind_eq_Inr split: option.splits)
  with assms lns obtain info data where "create_trace e inp c info data (dex_files rt) (rt_vm rt) = Inr (rt_vm rt1)"
    by (auto simp: Start_def Let_def rbind_eq_Inr split: option.splits)
  with lns c that show thesis by blast
qed

lemma FinishTracing_events: "FinishTracing h ths t = Inr t' \<Longrightarrow> trace_events t' = trace_events t"
  by (auto simp: FinishTracing_def rbind_eq_Inr dest: FlushBuffer_events)

lemma Stop_effect:
  assumes "Stop (trace_env epc tpc) key rt = Inr (rt', res)" "the_trace (vm_state (rt_vm rt)) = p" "p \<noteq> 0"
    and "tracer_events (vm_state (rt_vm rt)) p = Some evs"
    and "listeners_inv (vm_instr (rt_vm rt))" "sm_inv (requested_instrumentation_levels (vm_instr (rt_vm rt)))"
  shows "the_trace (vm_state (rt_vm rt')) = 0" "whitelist (vm_state (rt_vm rt')) = None"
    "tracer_events (vm_state (rt_vm rt')) = (tracer_events (vm_state (rt_vm rt)))(p := None)"
    "listeners_inv (vm_instr (rt_vm rt'))" "level_in_force (vm_instr (rt_vm rt'))"
    "registered (vm_instr (rt_vm rt')) ev =
       (if HasEvent ev evs then filter (\<lambda>x. x \<noteq> p) (registered (vm_instr (rt_vm rt)) ev) else registered (vm_instr (rt_vm rt)) ev)"
    "find_entry (requested_instrumentation_levels (vm_instr (rt_vm rt'))) =
       (find_entry (requested_instrumentation_levels (vm_instr (rt_vm rt))))(key := None)"
proof -
  let ?v = "rt_vm rt"
  from assms(4) obtain t where t: "tracers (vm_state ?v) p = Some t" "trace_events t = evs"
    by (auto simp: tracer_events_def)
  from assms(1-3) t(1) obtain t1 w i where fin: "FinishTracing (vm_heap ?v) (thread_list rt) t = Inr t1"
    and w: "DisableMethodTracing (trace_env epc tpc) key
        (?v\<lparr>vm_state := (vm_state ?v)\<lparr>the_trace := 0, whitelist := None, tracers := (tracers (vm_state ?v))(p \<mapsto> t1)\<rparr>\<rparr>) = Inr w"
    and i: "RemoveListener p (trace_events t1) (vm_instr w) = Inr i"
    and rt': "rt_vm rt' = w\<lparr>vm_instr := i, vm_state := (vm_state w)\<lparr>tracers := (tracers (vm_state w))(p := None)\<rparr>\<rparr>"
    by (auto simp: Stop_def Let_def rbind_eq_Inr)
  let ?w = "?v\<lparr>vm_state := (vm_state ?v)\<lparr>the_trace := 0, whitelist := None, tracers := (tracers (vm_state ?v))(p \<mapsto> t1)\<rparr>\<rparr>"
  have ev1: "trace_events t1 = evs" using FinishTracing_events [OF fin] t(2) by simp
  from w have cs: "ConfigureStubs (trace_env epc tpc) key kInstrumentNothing ?w = Inr w"
    by (simp add: DisableMethodTracing_def)
  have "the_trace (vm_state ?w) = 0 \<and> whitelist (vm_state ?w) = None \<and> tracer_events (vm_state ?w) = tracer_events (vm_state ?v)"
    using t ev1 by (auto simp: tracer_events_def fun_eq_iff)
  note st = tl.configure [OF cs this]
  then show "the_trace (vm_state (rt_vm rt')) = 0" "whitelist (vm_state (rt_vm rt')) = None"
    "tracer_events (vm_state (rt_vm rt')) = (tracer_events (vm_state ?v))(p := None)"
    by (auto simp: rt' tracer_events_def fun_eq_iff)
  have "listeners_inv (vm_instr w)" using ConfigureStubs_listeners_inv [OF cs] assms(5) by simp
  then have ok: "lists_ok (vm_instr w)" by (simp add: listeners_inv_lists)
  have ii: "i = with_listeners (removed p evs (vm_instr w)) (vm_instr w)" using i RemoveListener_eq [OF ok] ev1 by simp
  then have sl: "same_levels i (vm_instr w)" using same_levels_with by blast
  from ii inv_with [OF ok] show "listeners_inv (vm_instr (rt_vm rt'))" by (simp add: rt')
  have sm: "sm_inv (requested_instrumentation_levels (vm_instr ?w))" using assms(6) by simp
  note fr = ConfigureStubs_frame [OF sm cs]
  have lv: "requested_instrumentation_levels i = requested_instrumentation_levels (vm_instr w)"
      "GetCurrentInstrumentationLevel i = GetCurrentInstrumentationLevel (vm_instr w)"
    using sl by (auto simp: same_levels_def GetCurrentInstrumentationLevel_def)
  from fr have "level_in_force (vm_instr w)" unfolding level_in_force_def by blast
  then show "level_in_force (vm_instr (rt_vm rt'))" by (simp add: rt' level_in_force_def lv)
  from fr show "registered (vm_instr (rt_vm rt')) ev =
      (if HasEvent ev evs then filter (\<lambda>x. x \<noteq> p) (registered (vm_instr ?v) ev) else registered (vm_instr ?v) ev)"
    by (simp add: rt' ii registered_with removed_def list_remove_def)
  from fr show "find_entry (requested_instrumentation_levels (vm_instr (rt_vm rt'))) =
      (find_entry (requested_instrumentation_levels (vm_instr ?v)))(key := None)"
    by (simp add: rt' lv)
qed

text \<open>C8: stopping undoes starting. After a Start that began a trace and a Stop, no tracer is
  active or left behind, every event has the listeners it had before, every client of the
  instrumentation has the level it asked for before, and the level in force is the old one.\<close>

theorem stop_undoes_start:
  assumes "Start (trace_env epc tpc) inp rt = Inr rt1" "Stop (trace_env epc tpc) (tracer_key inp) rt1 = Inr (rt2, res)"
    and "the_trace (vm_state (rt_vm rt)) = 0" "the_trace (vm_state (rt_vm rt1)) \<noteq> 0"
    and "listeners_inv (vm_instr (rt_vm rt))" "sm_inv (requested_instrumentation_levels (vm_instr (rt_vm rt)))"
    and "level_in_force (vm_instr (rt_vm rt))"
    and "\<forall>ev. new_address inp \<notin> set (registered (vm_instr (rt_vm rt)) ev)"
    and "find_entry (requested_instrumentation_levels (vm_instr (rt_vm rt))) (tracer_key inp) = None"
    and "tracers (vm_state (rt_vm rt)) (new_address inp) = None"
  shows "the_trace (vm_state (rt_vm rt2)) = 0 \<and> whitelist (vm_state (rt_vm rt2)) = None \<and>
     tracer_events (vm_state (rt_vm rt2)) = tracer_events (vm_state (rt_vm rt)) \<and>
     listeners_inv (vm_instr (rt_vm rt2)) \<and>
     registered (vm_instr (rt_vm rt2)) = registered (vm_instr (rt_vm rt)) \<and>
     find_entry (requested_instrumentation_levels (vm_instr (rt_vm rt2))) =
       find_entry (requested_instrumentation_levels (vm_instr (rt_vm rt))) \<and>
     GetCurrentInstrumentationLevel (vm_instr (rt_vm rt2)) = GetCurrentInstrumentationLevel (vm_instr (rt_vm rt))"
proof -
  obtain c info data where ct: "create_trace (trace_env epc tpc) inp c info data (dex_files rt) (rt_vm rt) = Inr (rt_vm rt1)"
    using Start_started [OF assms(1,3,4)] by blast
  note c = create_trace_effect [OF ct assms(5,6)]
  have p: "tracer_events (vm_state (rt_vm rt1)) (new_address inp) = Some (events c)" by (simp add: c(2))
  have nz: "new_address inp \<noteq> 0" using assms(4) by (simp add: c(1))
  note s = Stop_effect [OF assms(2) c(1) nz p c(3,4)]
  have te: "tracer_events (vm_state (rt_vm rt2)) = tracer_events (vm_state (rt_vm rt))"
    using assms(10) by (auto simp: s(3) c(2) fun_eq_iff tracer_events_def)
  have reg: "registered (vm_instr (rt_vm rt2)) ev = registered (vm_instr (rt_vm rt)) ev" for ev
    using assms(8) unfolding s(6) c(5) by (auto simp: filter_id_conv)
  have fe: "find_entry (requested_instrumentation_levels (vm_instr (rt_vm rt2))) =
      find_entry (requested_instrumentation_levels (vm_instr (rt_vm rt)))"
    using assms(9) unfolding s(7) c(6) by (auto simp: fun_eq_iff)
  show ?thesis
    using s(1,2,4) te reg fe level_unique [OF s(5) assms(7) fe] by (simp add: fun_eq_iff)
qed

text \<open>Files are always closed, and on a runtime without classes and threads nothing can fail.\<close>

lemma close_and_delete_ok: "\<exists>t'. close_and_delete t = Inr t'"
proof -
  have "\<exists>f'. flush_and_close f = Inr f' \<and> kClosed \<le> guard_state f'" for f
    using Close_ok [OF Flush_at_least [of f]] unfolding flush_and_close_def by (metis case_prod_conv rbind_Inr)
  then obtain a b where ab: "flush_and_close (trace_info_file t) = Inr a" "kClosed \<le> guard_state a"
      "flush_and_close (trace_data_file t) = Inr b" "kClosed \<le> guard_state b"
    by metis
  with destroy_closed_file [OF ab(2)] destroy_closed_file [OF ab(4)] show ?thesis by (auto simp: close_and_delete_def)
qed

lemma create_trace_bare:
  assumes "\<And>i. VisitClasses (InstallStubsForClass i) (vm_heap v) = Inr (vm_heap v)" "vm_threads v = []"
    and "listeners_inv (vm_instr v)" "VisitClasses (PostClassPrepare (Some (config_whitelist c)) ds) (vm_heap v) = Inr h"
    and "new_MiniTrace info data (events c) (config_buffer_size c) (micro_time inp) = Inr t"
  shows "\<exists>i. create_trace e inp c info data ds v =
     Inr (v\<lparr>vm_heap := h, vm_state := (vm_state v)\<lparr>whitelist := Some (config_whitelist c), the_trace := new_address inp,
            tracers := (tracers (vm_state v))(new_address inp \<mapsto> t)\<rparr>, vm_instr := i\<rparr>)"
proof -
  from assms(3) have ok: "lists_ok (vm_instr v)" by (simp add: listeners_inv_lists)
  let ?v = "v\<lparr>vm_state := (vm_state v)\<lparr>whitelist := Some (config_whitelist c), the_trace := new_address inp,
      tracers := (tracers (vm_state v))(new_address inp \<mapsto> t)\<rparr>,
      vm_instr := with_listeners (added (new_address inp) (events c) (vm_instr v)) (vm_instr v)\<rparr>"
  obtain i where en: "EnableMethodTracing e (tracer_key inp) False ?v = Inr (?v\<lparr>vm_instr := i\<rparr>)"
    using ConfigureStubs_bare [of ?v e "tracer_key inp" kInstrumentWithInstrumentationStubs] assms(1,2)
    by (auto simp: EnableMethodTracing_def)
  have "create_trace e inp c info data ds v = Inr (?v\<lparr>vm_instr := i, vm_heap := h\<rparr>)"
    using en assms(4,5) by (simp add: create_trace_def Let_def AddListener_eq [OF ok])
  then show ?thesis by (intro exI [of _ i]) (cases v, simp)
qed

lemma Stop_bare:
  assumes "class_table (vm_heap (rt_vm rt)) = []" "vm_threads (rt_vm rt) = []" "listeners_inv (vm_instr (rt_vm rt))"
    and "the_trace (vm_state (rt_vm rt)) = p" "tracers (vm_state (rt_vm rt)) p = Some t"
    and "cur_offset t = 0" "visited_methods t = {}" "visited_fields t = {}"
  shows "\<exists>r. Stop e key rt = Inr r"
proof (cases "p = 0")
  case True
  with assms(4) show ?thesis by (simp add: Stop_def)
next
  case False
  let ?v = "rt_vm rt"
  have "FlushBuffer t = Inr (True, t)" using assms(6) by (simp add: FlushBuffer_def)
  moreover obtain os where "DumpList (vm_heap ?v) (thread_list rt) t = Inr os"
    using assms(7,8) by (simp add: DumpList_def DumpMethodList_def DumpFieldList_def dump_set_def)
  ultimately obtain t1 where fin: "FinishTracing (vm_heap ?v) (thread_list rt) t = Inr t1" by (simp add: FinishTracing_def)
  let ?w = "?v\<lparr>vm_state := (vm_state ?v)\<lparr>the_trace := 0, whitelist := None, tracers := (tracers (vm_state ?v))(p \<mapsto> t1)\<rparr>\<rparr>"
  obtain i where dis: "DisableMethodTracing e key ?w = Inr (?w\<lparr>vm_instr := i\<rparr>)"
    using ConfigureStubs_bare [of ?w e key kInstrumentNothing] assms(1,2)
    by (auto simp: DisableMethodTracing_def VisitClasses_def)
  then have "ConfigureStubs e key kInstrumentNothing ?w = Inr (?w\<lparr>vm_instr := i\<rparr>)" by (simp add: DisableMethodTracing_def)
  from ConfigureStubs_listeners_inv [OF this] assms(3) have "listeners_inv i" by simp
  then have ok: "lists_ok i" by (simp add: listeners_inv_lists)
  obtain t2 where "close_and_delete t1 = Inr t2" using close_and_delete_ok by blast
  with False assms(4,5) fin dis show ?thesis by (simp add: Stop_def Let_def RemoveListener_eq [OF ok])
qed

text \<open>A small runtime and the inputs of a Start that traces field accesses.\<close>

definition sample_runtime :: art_runtime where
  "sample_runtime = \<lparr>
     rt_vm = \<lparr>vm_heap = sample_heap\<lparr>class_table := []\<rparr>, vm_instr = new_Instrumentation, vm_threads = [],
              vm_state = \<lparr>the_trace = 0, whitelist = None, tracers = Map.empty\<rparr>\<rparr>,
     dex_files = Map.empty, coverage_file = None, thread_list = [(77, ''main'')]\<rparr>"

definition sample_input :: start_input where
  "sample_input = \<lparr>config_file = Some (Some (''FieldEvent'' @ [CHR 0x0A])), info_kernel = [Inr 5, Inr 100, Inr 0, Inr 0],
     data_kernel = [Inr 6, Inr 0, Inr 0], coverage_kernel = [], in_uid = 10007, in_pid = 812, micro_time = 1, milli_time = 1,
     new_address = 0x5000, tracer_key = 0x100\<rparr>"

lemma sample_runtime_simps [simp]:
  "vm_heap (rt_vm sample_runtime) = sample_heap\<lparr>class_table := []\<rparr>" "vm_instr (rt_vm sample_runtime) = new_Instrumentation"
  "vm_threads (rt_vm sample_runtime) = []" "the_trace (vm_state (rt_vm sample_runtime)) = 0"
  "tracers (vm_state (rt_vm sample_runtime)) = Map.empty" "coverage_file sample_runtime = None"
  by (simp_all add: sample_runtime_def)

lemma sample_config:
  "read_config (''FieldEvent'' @ [CHR 0x0A]) = Inr (Some \<lparr>events = 0x30, config_buffer_size = 1024, config_whitelist = []\<rparr>)"
  by (simp add: read_config_def config_line_def default_config_def)

lemma CreateEmptyFile_opens: "\<exists>f. CreateEmptyFile n (Inr k # ks) = Inr (Some f)"
  by (simp add: CreateEmptyFile_def OpenFileWithFlags_def Open_def new_FdFile_def TEMP_FAILURE_RETRY_def syscall_def)

lemma CreateEmptyFile_fails: "CreateEmptyFile n [] = Inr None"
  by (simp add: CreateEmptyFile_def OpenFileWithFlags_def Open_def new_FdFile_def TEMP_FAILURE_RETRY_def syscall_def
      destroy_FdFile_def guard_order Close_def moveUp_def)

lemma sample_start:
  "\<exists>rt1 t. Start e sample_input sample_runtime = Inr rt1 \<and> class_table (vm_heap (rt_vm rt1)) = [] \<and> vm_threads (rt_vm rt1) = [] \<and>
     the_trace (vm_state (rt_vm rt1)) = 0x5000 \<and> tracers (vm_state (rt_vm rt1)) 0x5000 = Some t \<and>
     cur_offset t = 0 \<and> visited_methods t = {} \<and> visited_fields t = {}"
proof -
  obtain info data where fs:
    "CreateEmptyFile (''/data/mini_trace_'' @ decimal 10007 @ ''_info.log'') [Inr 5, Inr 100, Inr 0, Inr 0] = Inr (Some info)"
    "CreateEmptyFile (''/data/mini_trace_'' @ decimal 10007 @ ''_data.bin'') [Inr 6, Inr 0, Inr 0] = Inr (Some data)"
    using CreateEmptyFile_opens by metis
  let ?c = "\<lparr>events = 0x30, config_buffer_size = 1024, config_whitelist = []\<rparr> :: TraceConfig"
  obtain t where t: "new_MiniTrace info data (events ?c) (config_buffer_size ?c) (micro_time sample_input) = Inr t"
      "cur_offset t = 0" "visited_methods t = {}" "visited_fields t = {}"
    by (simp add: new_MiniTrace_def)
  obtain i where "create_trace e sample_input ?c info data (dex_files sample_runtime) (rt_vm sample_runtime) =
      Inr ((rt_vm sample_runtime)\<lparr>vm_heap := sample_heap\<lparr>class_table := []\<rparr>, vm_state := (vm_state (rt_vm sample_runtime))\<lparr>whitelist := Some (config_whitelist ?c),
        the_trace := new_address sample_input, tracers := (tracers (vm_state (rt_vm sample_runtime)))(new_address sample_input \<mapsto> t)\<rparr>, vm_instr := i\<rparr>)"
    using create_trace_bare [OF _ _ _ _ t(1), of "rt_vm sample_runtime" "dex_files sample_runtime" "sample_heap\<lparr>class_table := []\<rparr>" e]
      new_listeners_inv by (auto simp: VisitClasses_def)
  with fs sample_config CreateEmptyFile_fails t(2-4) show ?thesis
    by (simp add: Start_def sample_input_def Let_def DumpCoverageDataToFile_def)
qed

lemma new_Instrumentation_levels:
  "sm_inv (requested_instrumentation_levels new_Instrumentation)" "level_in_force new_Instrumentation"
  "find_entry (requested_instrumentation_levels new_Instrumentation) k = None"
  by (simp_all add: new_Instrumentation_def sm_inv_def level_in_force_def find_entry_def GetCurrentInstrumentationLevel_def)

theorem stop_undoes_start_witness:
  "\<exists>rt1 rt2 res. Start (trace_env 0x9990 (\<lambda>_ _. 0)) sample_input sample_runtime = Inr rt1 \<and>
     the_trace (vm_state (rt_vm rt1)) \<noteq> 0 \<and>
     Stop (trace_env 0x9990 (\<lambda>_ _. 0)) (tracer_key sample_input) rt1 = Inr (rt2, res) \<and>
     registered (vm_instr (rt_vm rt2)) = registered new_Instrumentation"
proof -
  let ?e = "trace_env 0x9990 (\<lambda>_ _. 0)"
  obtain rt1 t where s: "Start ?e sample_input sample_runtime = Inr rt1" "class_table (vm_heap (rt_vm rt1)) = []"
      "vm_threads (rt_vm rt1) = []" "the_trace (vm_state (rt_vm rt1)) = 0x5000" "tracers (vm_state (rt_vm rt1)) 0x5000 = Some t"
      "cur_offset t = 0" "visited_methods t = {}" "visited_fields t = {}"
    using sample_start by blast
  have nz: "the_trace (vm_state (rt_vm rt1)) \<noteq> 0" using s(4) by simp
  obtain c info data where ct: "create_trace ?e sample_input c info data (dex_files sample_runtime) (rt_vm sample_runtime) = Inr (rt_vm rt1)"
    by (rule Start_started [OF s(1) _ nz]) simp_all
  have "listeners_inv (vm_instr (rt_vm rt1))"
    using create_trace_effect(3) [OF ct] new_listeners_inv new_Instrumentation_levels by simp
  from Stop_bare [OF s(2,3) this s(4-8)] obtain rt2 res where
    st: "Stop ?e (tracer_key sample_input) rt1 = Inr (rt2, res)" by force
  show ?thesis
    using stop_undoes_start [OF s(1) st _ nz] s(1) st nz new_listeners_inv new_Instrumentation_levels registered_new
    by simp
qed

section \<open>What PostClassPrepare marks\<close>

lemma SetIsMiniTraceable_idem [simp]:
  "method_SetIsMiniTraceable (method_SetIsMiniTraceable m) = method_SetIsMiniTraceable m"
  "field_SetIsMiniTraceable (field_SetIsMiniTraceable f) = field_SetIsMiniTraceable f"
  by (simp_all add: method_SetIsMiniTraceable_def field_SetIsMiniTraceable_def or.assoc)

lemma mark_method_effect:
  "mark_method ds q h = Inr g \<Longrightarrow> \<exists>m. methods h q = Some m \<and> g = set_method q (method_SetIsMiniTraceable m) h"
  "mark_field p h = Inr g \<Longrightarrow>
     \<exists>f. art_fields h p = Some f \<and> g = h\<lparr>art_fields := (art_fields h)(p \<mapsto> field_SetIsMiniTraceable f)\<rparr>"
  by (auto simp: mark_method_def mark_field_def Let_def rbind_eq_Inr)

lemma mark_methods:
  assumes "rfold (mark_method ds) ms h = Inr h'"
  shows "h' = h\<lparr>methods := (\<lambda>mp. if mp \<in> set ms then map_option method_SetIsMiniTraceable (methods h mp) else methods h mp)\<rparr>"
  using assms
proof (induction ms arbitrary: h)
  case (Cons q ms)
  then obtain m where m: "methods h q = Some m"
    and r: "rfold (mark_method ds) ms (set_method q (method_SetIsMiniTraceable m) h) = Inr h'"
    by (auto simp: rbind_eq_Inr dest: mark_method_effect)
  from Cons.IH [OF r] m show ?case by (simp add: set_method_def fun_eq_iff)
qed simp

lemma mark_fields:
  assumes "rfold mark_field fs h = Inr h'"
  shows "h' = h\<lparr>art_fields := (\<lambda>fp. if fp \<in> set fs then map_option field_SetIsMiniTraceable (art_fields h fp) else art_fields h fp)\<rparr>"
  using assms
proof (induction fs arbitrary: h)
  case (Cons q fs)
  then obtain f where f: "art_fields h q = Some f"
    and r: "rfold mark_field fs (h\<lparr>art_fields := (art_fields h)(q \<mapsto> field_SetIsMiniTraceable f)\<rparr>) = Inr h'"
    by (auto simp: rbind_eq_Inr dest: mark_method_effect)
  from Cons.IH [OF r] f show ?case by (simp add: fun_eq_iff)
qed simp

definition traced_class :: "string list option \<Rightarrow> Klass \<Rightarrow> bool" where
  "traced_class wl k \<longleftrightarrow> \<not> (IsArrayClass k \<or> IsInterface k \<or> IsPrimitive k \<or> IsProxyClass k) \<and> do_trace wl k"

lemma PostClassPrepare_effect:
  assumes "PostClassPrepare wl ds kp h = Inr h'" "classes h kp = Some k"
  shows "h' = (if traced_class wl k
     then h\<lparr>classes := (classes h)(kp \<mapsto> class_SetIsMiniTraceable k),
            methods := (\<lambda>mp. if mp \<in> set (direct_methods k @ virtual_methods k)
                             then map_option method_SetIsMiniTraceable (methods h mp) else methods h mp),
            art_fields := (\<lambda>fp. if fp \<in> set (ifields k @ sfields k)
                                then map_option field_SetIsMiniTraceable (art_fields h fp) else art_fields h fp)\<rparr>
     else h)"
proof (cases "traced_class wl k")
  case True
  let ?h0 = "h\<lparr>classes := (classes h)(kp \<mapsto> class_SetIsMiniTraceable k)\<rparr>"
  from assms True obtain h1 h2 where
    "rfold (mark_method ds) (direct_methods k @ virtual_methods k) ?h0 = Inr h1"
    "rfold mark_field (ifields k @ sfields k) h1 = Inr h'"
    by (auto simp: PostClassPrepare_def traced_class_def rfold_append rbind_eq_Inr)
  from mark_methods [OF this(1)] mark_fields [OF this(2)] True show ?thesis by (simp cong: if_cong)
next
  case False
  with assms show ?thesis by (auto simp: PostClassPrepare_def traced_class_def split: if_splits)
qed


definition sample_dex_files :: dex_store where
  "sample_dex_files = [''/data/app/base.apk'' \<mapsto> \<lparr>dex_size = 512, insns_size_in_code_units = [0x40 \<mapsto> 8],
     coverage_data_begin = Some (replicate 512 0)\<rparr>]"

lemma sample_marks: "\<exists>h'. PostClassPrepare (Some [''Lapp/'']) sample_dex_files 0x9000 sample_heap = Inr h'"
  by (simp add: PostClassPrepare_def sample_heap_def sample_class_def sample_method_def sample_field_def sample_dex_files_def
      IsArrayClass_def IsInterface_def IsPrimitive_def IsProxyClass_def has_flag_def kAcc_defs do_trace_def StartsWith_def
      mark_method_def mark_field_def AllocateCoverageData_def method_dex_def GetCodeItem_def set_method_def
      method_SetIsMiniTraceable_def class_SetIsMiniTraceable_def deref_def Let_def)

lemma sample_traced: "traced_class (Some [''Lapp/'']) sample_class"
  by (simp add: traced_class_def sample_class_def IsArrayClass_def IsInterface_def IsPrimitive_def IsProxyClass_def
      has_flag_def kAcc_defs do_trace_def StartsWith_def)


text \<open>A method without code in a class to be traced: the source reads through a null CodeItem.\<close>

lemma native_method_traps:
  assumes "methods h mp = Some m" "dex_code_item_offset m = 0"
  shows "\<exists>err. mark_method ds mp h = Inl err"
proof (cases "mark_method ds mp h")
  case (Inr g)
  with assms show ?thesis
    by (auto simp: mark_method_def AllocateCoverageData_def set_method_def Let_def rbind_eq_Inr GetCodeItem_def
        method_SetIsMiniTraceable_def)
qed simp

section \<open>Starting on loaded classes\<close>

lemma VisitClasses_total_methods:
  assumes "VisitClasses (InstallStubsForClass i) h = Inr h'"
  shows "classes h' = classes h \<and> (methods h mp = None \<longrightarrow> methods h' mp = None)"
proof -
  from assms have r: "rfold (InstallStubsForClass i) (class_table h) h = Inr h'" by (simp add: VisitClasses_def)
  show ?thesis
  proof (rule rfold_invariant [where P = "\<lambda>g. classes g = classes h \<and> (methods h mp = None \<longrightarrow> methods g mp = None)", OF r])
    fix kp g g'
    assume g: "classes g = classes h \<and> (methods h mp = None \<longrightarrow> methods g mp = None)" "InstallStubsForClass i kp g = Inr g'"
    from g(2) obtain k where k: "classes g kp = Some k" by (auto simp: InstallStubsForClass_def rbind_eq_Inr)
    let ?ms = "direct_methods k @ virtual_methods k"
    have "methods g mp = None \<longrightarrow> methods g' mp = None"
    proof (cases "stub_class k")
      case True
      with g(2) k have r: "rfold (InstallStubsForMethod i) ?ms g = Inr g'" by (simp add: InstallStubsForClass_eq)
      show ?thesis
        by (rule rfold_invariant [where P = "\<lambda>u. methods g mp = None \<longrightarrow> methods u mp = None", OF r])
          (auto elim!: InstallStubsForMethod_effect)
    next
      case False
      with g(2) k show ?thesis by (simp add: InstallStubsForClass_eq)
    qed
    with g InstallStubsForClass_frame [OF g(2)] show "classes g' = classes h \<and> (methods h mp = None \<longrightarrow> methods g' mp = None)"
      by simp
  qed simp
qed

definition entry_points :: "art_heap \<Rightarrow> ptr \<rightharpoonup> quick_code" where
  "entry_points h mp = map_option entry_point_from_quick_compiled_code (methods h mp)"

lemma marking_keeps_entry_points:
  assumes "VisitClasses (PostClassPrepare wl ds) h = Inr h'"
  shows "entry_points h' = entry_points h"
proof -
  from assms have r: "rfold (PostClassPrepare wl ds) (class_table h) h = Inr h'" by (simp add: VisitClasses_def)
  show ?thesis
  proof (rule rfold_invariant [where P = "\<lambda>g. entry_points g = entry_points h", OF r])
    fix kp g g'
    assume g: "entry_points g = entry_points h" "PostClassPrepare wl ds kp g = Inr g'"
    then obtain k where k: "classes g kp = Some k" by (auto simp: PostClassPrepare_def rbind_eq_Inr)
    have "entry_points g' = entry_points g"
      unfolding PostClassPrepare_effect [OF g(2) k]
      by (auto simp: entry_points_def fun_eq_iff method_SetIsMiniTraceable_def option.map_comp comp_def)
    with g(1) show "entry_points g' = entry_points h" by simp
  qed simp
qed

text \<open>Start installs the stubs before it marks the classes. When no loaded class is marked
  yet, every method of every loaded class is still entered through the same code afterwards,
  whatever the whitelist: none of them reports its entry or exit through a stub.\<close>

lemma loaded_classes_get_no_stubs:
  assumes "create_trace e inp c info data ds v = Inr v'" "listeners_inv (vm_instr v)"
    and "\<forall>kp k. classes (vm_heap v) kp = Some k \<longrightarrow> \<not> class_IsMiniTraceable k"
  shows "entry_points (vm_heap v') = entry_points (vm_heap v)"
proof -
  from assms(2) have ok: "lists_ok (vm_instr v)" by (simp add: listeners_inv_lists)
  let ?v0 = "\<lambda>t. v\<lparr>vm_state := (vm_state v)\<lparr>whitelist := Some (config_whitelist c), the_trace := new_address inp,
      tracers := (tracers (vm_state v))(new_address inp \<mapsto> t)\<rparr>,
      vm_instr := with_listeners (added (new_address inp) (events c) (vm_instr v)) (vm_instr v)\<rparr>"
  from assms(1) obtain t w where w: "ConfigureStubs e (tracer_key inp) kInstrumentWithInstrumentationStubs (?v0 t) = Inr w"
    and m: "VisitClasses (PostClassPrepare (whitelist (vm_state w)) ds) (vm_heap w) = Inr (vm_heap v')"
    by (auto simp: create_trace_def Let_def rbind_eq_Inr EnableMethodTracing_def AddListener_eq [OF ok])
  have v0: "vm_heap (?v0 t) = vm_heap v" by simp
  have no: "\<not> stub_target (vm_heap v) mp" for mp using assms(3) by (auto simp: stub_target_def stub_class_def)
  have "methods (vm_heap w) mp = methods (vm_heap v) mp" for mp
  proof (rule ConfigureStubs_cases [OF w refl refl])
    fix i b
    assume vc: "VisitClasses (InstallStubsForClass i) (vm_heap (?v0 t)) = Inr (vm_heap w)"
    show "methods (vm_heap w) mp = methods (vm_heap v) mp"
      using VisitClasses_total_methods [OF vc, of mp] visit_stubs [OF vc] no [of mp] v0
      by (cases "methods (vm_heap v) mp") auto
  qed (use v0 in auto)
  then have "entry_points (vm_heap w) = entry_points (vm_heap v)" by (simp add: entry_points_def fun_eq_iff)
  with marking_keeps_entry_points [OF m] show ?thesis by simp
qed

text \<open>The sample class before it is marked.\<close>

definition unmarked_heap :: art_heap where
  "unmarked_heap = sample_heap\<lparr>classes := [0x9000 \<mapsto> sample_class\<lparr>c_access_flags := 1\<rparr>]\<rparr>"

lemma unmarked_visits:
  "VisitClasses (InstallStubsForClass i) unmarked_heap = Inr unmarked_heap"
  "\<exists>h'. VisitClasses (PostClassPrepare (Some [''Lapp/'']) sample_dex_files) unmarked_heap = Inr h'"
  by (simp_all add: VisitClasses_def InstallStubsForClass_def unmarked_heap_def PostClassPrepare_def sample_heap_def
      sample_class_def sample_method_def sample_field_def sample_dex_files_def IsErroneous_def IsResolved_def
      class_IsMiniTraceable_def IsArrayClass_def IsInterface_def IsPrimitive_def IsProxyClass_def has_flag_def kAcc_defs
      do_trace_def StartsWith_def mark_method_def mark_field_def AllocateCoverageData_def method_dex_def GetCodeItem_def
      set_method_def method_SetIsMiniTraceable_def class_SetIsMiniTraceable_def deref_def Let_def)

section \<open>Two ways to lose the process\<close>

lemma dump_set_stuck:
  assumes "p \<in> ps" "line p = Inl e"
  shows "\<exists>e. dump_set line ps os = Inl e"
  unfolding dump_set_def by (rule rfold_stuck [of p]) (use assms in \<open>simp_all add: finite_subset [OF subset_UNIV]\<close>)

lemma method_line_unmapped: "methods h p = None \<Longrightarrow> method_line h p = Inl NullPointer"
  by (simp add: method_line_def deref_def)

text \<open>C24: when the only thing logged since the last flush is the entry of a method above the first
  64 KB of memory, where no method lives, Stop does not return: writing the method list dereferences
  the method's low 16 address bits.\<close>

theorem Stop_crashes_after_method_entry:
  assumes "the_trace (vm_state (rt_vm rt)) = p" "p \<noteq> 0" "tracers (vm_state (rt_vm rt)) p = Some t'"
    and "trace_inv t" "int (cur_offset t + 14) \<le> buffer_size t"
    and "methods (vm_heap (rt_vm rt)) mid = Some m" "method_IsMiniTraceable m" "aligned8 mid"
    and "MethodEntered (vm_heap (rt_vm rt)) tid obj mid dex_pc t = Inr t'" "FlushBuffer t' = Inr (True, t'')"
    and "methods (vm_heap (rt_vm rt)) (take_bit 16 mid) = None"
  shows "\<exists>x. Stop e key rt = Inl x"
proof -
  have "take_bit 16 mid \<in> visited_methods t''" by (rule method_misfiled [OF assms(4-10)])
  then obtain x where "DumpMethodList (vm_heap (rt_vm rt)) t''
      (''*threads'' @ newline @ DumpThreadList (thread_list rt) t'' @ ''*methods'' @ newline) = Inl x"
    using dump_set_stuck method_line_unmapped [OF assms(11)] unfolding DumpMethodList_def by blast
  then have "FinishTracing (vm_heap (rt_vm rt)) (thread_list rt) t' = Inl x"
    by (simp add: FinishTracing_def DumpList_def assms(10))
  then show ?thesis using assms(1-3) by (simp add: Stop_def Let_def deref_def)
qed

theorem Stop_crashes_after_method_entry_witness:
  "\<exists>t' x. MethodEntered sample_heap 77 0 0x70001230 0 sample_trace = Inr t' \<and>
     Stop (trace_env 0x9990 (\<lambda>_ _. 0)) 0x100 (sample_runtime\<lparr>rt_vm := (rt_vm sample_runtime)\<lparr>vm_heap := sample_heap,
        vm_state := \<lparr>the_trace = 0x5000, whitelist = None, tracers = [0x5000 \<mapsto> t']\<rparr>\<rparr>\<rparr>) = Inl x"
proof -
  obtain t' t'' where t: "MethodEntered sample_heap 77 0 0x70001230 0 sample_trace = Inr t'" "FlushBuffer t' = Inr (True, t'')"
    using sample_method_flush by blast
  let ?rt = "sample_runtime\<lparr>rt_vm := (rt_vm sample_runtime)\<lparr>vm_heap := sample_heap,
        vm_state := \<lparr>the_trace = 0x5000, whitelist = None, tracers = [0x5000 \<mapsto> t']\<rparr>\<rparr>\<rparr>"
  have "methods sample_heap (take_bit 16 0x70001230) = None" by (simp add: sample_heap_def)
  then have "\<exists>x. Stop (trace_env 0x9990 (\<lambda>_ _. 0)) 0x100 ?rt = Inl x"
    using Stop_crashes_after_method_entry [of ?rt "0x5000" t' sample_trace "0x70001230" sample_method 77 0 0 t'' "trace_env 0x9990 (\<lambda>_ _. 0)" "0x100"] t
    by (simp add: aligned8_def)
  with t(1) show ?thesis by blast
qed

text \<open>C25: when the information file can be created and the data file cannot, Start destroys the
  open information file and the process ends in the file's usage check, whatever else the runtime holds.\<close>

theorem Start_aborts_without_data_file:
  assumes "the_trace (vm_state (rt_vm rt)) = 0" "config_file inp = Some (Some txt')"
    and "read_config txt' = Inr (Some c)"
    and "CreateEmptyFile (''/data/mini_trace_'' @ decimal (in_uid inp) @ ''_info.log'') (info_kernel inp) = Inr (Some info)"
    and "CreateEmptyFile (''/data/mini_trace_'' @ decimal (in_uid inp) @ ''_data.bin'') (data_kernel inp) = Inr None"
  shows "Start e inp rt = Inl CheckFailed"
  using assms destroy_open_file [of info] CreateEmptyFile_unchecked [OF assms(4)]
  by (simp add: Start_def Let_def guard_order)

theorem Start_aborts_without_data_file_witness:
  "Start (trace_env 0x9990 (\<lambda>_ _. 0)) (sample_input\<lparr>data_kernel := []\<rparr>) sample_runtime = Inl CheckFailed"
proof -
  obtain info where "CreateEmptyFile (''/data/mini_trace_'' @ decimal 10007 @ ''_info.log'') [Inr 5, Inr 100, Inr 0, Inr 0] = Inr (Some info)"
    using CreateEmptyFile_opens by blast
  with Start_aborts_without_data_file [OF _ _ sample_config, of sample_runtime "sample_input\<lparr>data_kernel := []\<rparr>" info]
  show ?thesis by (simp add: sample_input_def CreateEmptyFile_fails)
qed

end
