(* ===== verification/Leb128.thy ===== *)
theory Leb128
  imports Utf
begin

text \<open>
  Little-endian base 128 integers (runtime/leb128.h), the variable-length integers of dex and
  oat files. A pointer that is read is the list of the bytes behind it, as in Utf; a buffer that
  is written is a list of bytes with an index.
\<close>

section \<open>Decoding\<close>

definition DecodeUnsignedLeb128 :: "u8 list \<Rightarrow> (u32 \<times> u8 list) res" where
  "DecodeUnsignedLeb128 ptr =
     rbind (next_byte ptr) (\<lambda>(b, ptr). let result = ucast b in
     if \<not> b > 0x7f then Inr (result, ptr) else
     rbind (next_byte ptr) (\<lambda>(cur, ptr). let result = (result AND 0x7f) OR byte_bits cur 0x7f 7 in
     if \<not> cur > 0x7f then Inr (result, ptr) else
     rbind (next_byte ptr) (\<lambda>(cur, ptr). let result = result OR byte_bits cur 0x7f 14 in
     if \<not> cur > 0x7f then Inr (result, ptr) else
     rbind (next_byte ptr) (\<lambda>(cur, ptr). let result = result OR byte_bits cur 0x7f 21 in
     if \<not> cur > 0x7f then Inr (result, ptr) else
     rbind (next_byte ptr) (\<lambda>(cur, ptr). Inr (result OR push_bit 28 (ucast cur), ptr))))))"

definition DecodeUnsignedLeb128P1 :: "u8 list \<Rightarrow> (u32 \<times> u8 list) res" where
  "DecodeUnsignedLeb128P1 data = rbind (DecodeUnsignedLeb128 data) (\<lambda>(v, data). Inr (v - 1, data))"

text \<open>The signed shifts \<open>(result << k) >> k\<close>.\<close>

definition shift_pair :: "nat \<Rightarrow> u32 \<Rightarrow> u32" where
  "shift_pair k result = signed_drop_bit k (push_bit k result)"

definition DecodeSignedLeb128 :: "u8 list \<Rightarrow> (u32 \<times> u8 list) res" where
  "DecodeSignedLeb128 ptr =
     rbind (next_byte ptr) (\<lambda>(b, ptr). let result = ucast b in
     if b \<le> 0x7f then Inr (shift_pair 25 result, ptr) else
     rbind (next_byte ptr) (\<lambda>(cur, ptr). let result = (result AND 0x7f) OR byte_bits cur 0x7f 7 in
     if cur \<le> 0x7f then Inr (shift_pair 18 result, ptr) else
     rbind (next_byte ptr) (\<lambda>(cur, ptr). let result = result OR byte_bits cur 0x7f 14 in
     if cur \<le> 0x7f then Inr (shift_pair 11 result, ptr) else
     rbind (next_byte ptr) (\<lambda>(cur, ptr). let result = result OR byte_bits cur 0x7f 21 in
     if cur \<le> 0x7f then Inr (shift_pair 4 result, ptr) else
     rbind (next_byte ptr) (\<lambda>(cur, ptr). Inr (result OR push_bit 28 (ucast cur), ptr))))))"

section \<open>Encoding\<close>

text \<open>CLZ, the number of leading zeros of a word that is not zero.\<close>

definition CLZ :: "u32 \<Rightarrow> nat" where
  "CLZ x = length (takeWhile (\<lambda>i. \<not> bit x i) (rev [0..<32]))"

definition UnsignedLeb128Size :: "u32 \<Rightarrow> u32" where
  "UnsignedLeb128Size data = (let x = 6 + 32 - of_nat (CLZ (data OR 1)) in drop_bit 8 (x * 37))"

definition SignedLeb128Size :: "u32 \<Rightarrow> u32" where
  "SignedLeb128Size data =
     (let data = data XOR signed_drop_bit 31 data;
          x = 1 + 6 + 32 - of_nat (CLZ (data OR 1)) in drop_bit 8 (x * 37))"

text \<open>The bytes written by the loops.\<close>

lemma drop7_smaller: "(v :: u32) \<noteq> 0 \<Longrightarrow> unat (drop_bit 7 v) < unat v"
proof -
  assume "v \<noteq> 0"
  then have "0 < unat v" by (simp add: unat_gt_0)
  moreover have "unat (drop_bit 7 v) = unat v div 128" by (simp only: unat_drop_bit_eq) (simp add: drop_bit_eq_div)
  ultimately show ?thesis by simp
qed

lemma drop_zero: "drop_bit k (x :: u32) = 0 \<longleftrightarrow> unat x < 2 ^ k"
proof -
  have "drop_bit k x = 0 \<longleftrightarrow> drop_bit k (unat x) = 0" by (simp only: word_unat_eq_iff unat_drop_bit_eq unsigned_0)
  also have "\<dots> \<longleftrightarrow> unat x < 2 ^ k" by (simp add: drop_bit_eq_div div_eq_0_iff)
  finally show ?thesis .
qed

function unsigned_loop :: "u8 \<Rightarrow> u32 \<Rightarrow> u8 list" where
  "unsigned_loop out v =
     (if v \<noteq> 0 then (out OR 0x80) # unsigned_loop (ucast (v AND 0x7f)) (drop_bit 7 v) else [out])"
  by pat_completeness auto
termination by (relation "measure (\<lambda>(out, v). unat v)") (auto simp: drop7_smaller)

declare unsigned_loop.simps [simp del]

definition unsigned_bytes :: "u32 \<Rightarrow> u8 list" where
  "unsigned_bytes v = unsigned_loop (ucast (v AND 0x7f)) (drop_bit 7 v)"

function signed_loop :: "u8 \<Rightarrow> u32 \<Rightarrow> u32 \<Rightarrow> u8 list" where
  "signed_loop out v extra_bits =
     (if extra_bits \<noteq> 0
      then (out OR 0x80) # (let v = signed_drop_bit 7 v in signed_loop (ucast (v AND 0x7f)) v (drop_bit 7 extra_bits))
      else [out])"
  by pat_completeness auto
termination by (relation "measure (\<lambda>(out, v, e). unat e)") (auto simp: drop7_smaller)

declare signed_loop.simps [simp del]

definition extra_bits_of :: "u32 \<Rightarrow> u32" where
  "extra_bits_of v = drop_bit 6 (v XOR signed_drop_bit 31 v)"

definition signed_bytes :: "u32 \<Rightarrow> u8 list" where
  "signed_bytes v = signed_loop (ucast (v AND 0x7f)) v (extra_bits_of v)"

text \<open>The overloads that write behind a pointer, and those that append to a vector.\<close>

definition EncodeUnsignedLeb128 :: "u8 list \<Rightarrow> nat \<Rightarrow> u32 \<Rightarrow> (u8 list \<times> nat) res" where
  "EncodeUnsignedLeb128 mem dest v =
     rbind (store_bytes mem dest (unsigned_bytes v)) (\<lambda>mem. Inr (mem, dest + length (unsigned_bytes v)))"

definition EncodeSignedLeb128 :: "u8 list \<Rightarrow> nat \<Rightarrow> u32 \<Rightarrow> (u8 list \<times> nat) res" where
  "EncodeSignedLeb128 mem dest v =
     rbind (store_bytes mem dest (signed_bytes v)) (\<lambda>mem. Inr (mem, dest + length (signed_bytes v)))"

definition PushBackUnsigned :: "u8 list \<Rightarrow> u32 \<Rightarrow> u8 list" where
  "PushBackUnsigned data v = data @ unsigned_bytes v"

definition PushBackSigned :: "u8 list \<Rightarrow> u32 \<Rightarrow> u8 list" where
  "PushBackSigned data v = data @ signed_bytes v"

definition InsertBackUnsigned :: "u8 list \<Rightarrow> u32 list \<Rightarrow> u8 list" where
  "InsertBackUnsigned data vs = foldl PushBackUnsigned data vs"

definition InsertBackSigned :: "u8 list \<Rightarrow> u32 list \<Rightarrow> u8 list" where
  "InsertBackSigned data vs = foldl PushBackSigned data vs"

text \<open>Filling the room of a longer encoding; \<open>n\<close> is \<open>old_end - end\<close>.\<close>

fun fill_leb128 :: "u8 list \<Rightarrow> nat \<Rightarrow> nat \<Rightarrow> u8 list res" where
  "fill_leb128 mem e 0 = Inr mem"
| "fill_leb128 mem e (Suc n) =
     rbind (load8 mem (e - 1)) (\<lambda>b.
     rbind (store8 mem (e - 1) (b OR 0x80)) (\<lambda>mem.
     rbind (store8 mem e 0) (\<lambda>mem. fill_leb128 mem (Suc e) n)))"

definition UpdateUnsignedLeb128 :: "u8 list \<Rightarrow> nat \<Rightarrow> u32 \<Rightarrow> u8 list res" where
  "UpdateUnsignedLeb128 mem dest v =
     rbind (DecodeUnsignedLeb128 (drop dest mem)) (\<lambda>(old, rest).
     rbind (EncodeUnsignedLeb128 mem dest v) (\<lambda>(mem', e).
     fill_leb128 mem' e ((length mem - length rest) - e)))"

section \<open>Groups of seven bits\<close>

text \<open>An encoding is a list of groups of seven bits, all but the last marked.\<close>

fun marked :: "u8 list \<Rightarrow> u8 list" where
  "marked [] = []"
| "marked [g] = [g]"
| "marked (g # gs) = (g OR 0x80) # marked gs"

fun group_value :: "u8 list \<Rightarrow> u32" where
  "group_value [] = 0"
| "group_value (g # gs) = ucast g OR push_bit 7 (group_value gs)"

definition groups_ok :: "u8 list \<Rightarrow> bool" where
  "groups_ok gs \<longleftrightarrow> gs \<noteq> [] \<and> length gs \<le> 5 \<and> (\<forall>g \<in> set gs. g \<le> 0x7f)"

lemma seven_bits: "(g :: u8) \<le> 0x7f \<longleftrightarrow> g = take_bit 7 g"
proof -
  have "g \<le> 0x7f \<longleftrightarrow> unat g < 2 ^ 7" by (auto simp: word_le_nat_alt)
  also have "\<dots> \<longleftrightarrow> take_bit 7 (unat g) = unat g" by (simp only: take_bit_nat_eq_self_iff)
  also have "\<dots> \<longleftrightarrow> g = take_bit 7 g"
    by (metis unsigned_take_bit_eq word_unat_eq_iff)
  finally show ?thesis .
qed

lemma seven_bit: "(g :: u8) \<le> 0x7f \<Longrightarrow> bit g n \<Longrightarrow> n < 7"
  by (metis seven_bits bit_take_bit_iff)

lemma bits_7f: "bit (0x7f :: int) n \<longleftrightarrow> n < 7"
proof -
  have "(0x7f :: int) = mask 7" by (simp add: mask_numeral)
  then show ?thesis by (simp only: bit_mask_iff) simp
qed

lemma bits_80: "bit (0x80 :: int) n \<longleftrightarrow> n = 7"
proof -
  have "(0x80 :: int) = 2 ^ 7" by simp
  then show ?thesis by (simp only: bit_exp_iff) auto
qed

lemma mark_simps:
  assumes "(g :: u8) \<le> 0x7f"
  shows "g OR 0x80 > 0x7f" "(g OR 0x80) AND 0x7f = g" "g AND 0x7f = g"
proof -
  have "bit (g OR 0x80) 7" by (simp add: bit_or_iff bits_80)
  then have "\<not> g OR 0x80 \<le> 0x7f" using seven_bit by blast
  then show "g OR 0x80 > 0x7f" by simp
  show "(g OR 0x80) AND 0x7f = g" "g AND 0x7f = g"
    by (rule bit_word_eqI, use assms seven_bit in \<open>auto simp: bit_or_iff bit_and_iff bits_7f bits_80\<close>)+
qed

text \<open>Enough to take the groups apart: a list of one to five groups.\<close>

lemma groups_cases:
  assumes "groups_ok gs"
  obtains a where "gs = [a]" | a b where "gs = [a, b]" | a b c where "gs = [a, b, c]"
  | a b c d where "gs = [a, b, c, d]" | a b c d e where "gs = [a, b, c, d, e]"
proof -
  from assms have "gs \<noteq> []" "length gs \<le> 5" by (auto simp: groups_ok_def)
  then have "length gs = 1 \<or> length gs = 2 \<or> length gs = 3 \<or> length gs = 4 \<or> length gs = 5"
    by (cases gs) (auto simp: le_Suc_eq numeral_eq_Suc)
  then show ?thesis using that by (auto simp: length_Suc_conv numeral_eq_Suc)
qed

lemma ucast_and_7f: "ucast (g :: u8) AND (0x7f :: u32) = ucast (g AND 0x7f)"
  by (rule bit_word_eqI) (auto simp: bit_and_iff bit_ucast_iff bits_7f dest: bit_imp_le_length)

lemma decode_unsigned:
  assumes "groups_ok gs"
  shows "DecodeUnsignedLeb128 (marked gs @ rest) = Inr (group_value gs, rest)"
proof -
  from assms have le: "\<forall>g \<in> set gs. g \<le> 0x7f \<and> \<not> 0x7f < g" by (auto simp: groups_ok_def)
  show ?thesis
    using assms
    by (rule groups_cases) (use le in \<open>simp_all add: DecodeUnsignedLeb128_def Let_def mark_simps ucast_and_7f push_bit_or or.assoc\<close>)
qed

section \<open>Unsigned values\<close>

function groups :: "u32 \<Rightarrow> u8 list" where
  "groups v = ucast (v AND 0x7f) # (if drop_bit 7 v = 0 then [] else groups (drop_bit 7 v))"
  by pat_completeness auto
termination
proof (relation "measure unat")
  fix v :: u32
  assume "drop_bit 7 v \<noteq> 0"
  then have "v \<noteq> 0" by auto
  then show "(drop_bit 7 v, v) \<in> measure unat" using drop7_smaller [of v] by simp
qed simp

declare groups.simps [simp del]

lemma groups_not_Nil [simp]: "groups v \<noteq> []"
  by (subst groups.simps) simp

lemma length_marked [simp]: "length (marked gs) = length gs"
  by (induction gs rule: marked.induct) simp_all

lemma marked_Cons: "gs \<noteq> [] \<Longrightarrow> marked (g # gs) = (g OR 0x80) # marked gs"
  by (cases gs) simp_all

lemma unsigned_bytes_groups: "unsigned_bytes v = marked (groups v)"
proof (induction v rule: groups.induct)
  case (1 v)
  then show ?case
    by (auto simp: unsigned_bytes_def groups.simps [of v] unsigned_loop.simps [of "ucast (v AND 0x7f)" "drop_bit 7 v"] marked_Cons)
qed

lemma group_le: "ucast ((v :: u32) AND 0x7f) \<le> (0x7f :: u8)"
proof -
  have "ucast (v AND 0x7f) = (take_bit 7 (ucast v) :: u8)"
    by (rule bit_word_eqI) (auto simp: bit_simps bits_7f)
  then show ?thesis by (simp only: seven_bits take_bit_take_bit) simp
qed

lemma groups_le: "g \<in> set (groups v) \<Longrightarrow> g \<le> 0x7f"
proof (induction v rule: groups.induct)
  case (1 v)
  then show ?case using group_le [of v] by (auto simp: groups.simps [of v] split: if_splits)
qed

lemma group_value_groups [simp]: "group_value (groups v) = v"
proof (induction v rule: groups.induct)
  case (1 v)
  have "ucast (ucast (v AND 0x7f) :: u8) OR push_bit 7 (drop_bit 7 v) = v"
  proof (rule bit_word_eqI)
    fix n
    assume "n < LENGTH(32)"
    then show "bit (ucast (ucast (v AND 0x7f) :: u8) OR push_bit 7 (drop_bit 7 v)) n = bit v n"
      by (cases "n < 7") (auto simp: bit_simps bits_7f)
  qed
  with 1 show ?case by (auto simp: groups.simps [of v])
qed

lemma length_groups: "length (groups v) \<le> Suc n \<longleftrightarrow> unat v < 2 ^ (7 * Suc n)"
proof (induction n arbitrary: v)
  case 0
  have "drop_bit 7 v = 0 \<longleftrightarrow> unat v < 128" by (simp add: drop_zero)
  then show ?case by (simp add: groups.simps [of v])
next
  case (Suc n)
  have d: "unat (drop_bit 7 v) = unat v div 128" by (simp only: unat_drop_bit_eq) (simp add: drop_bit_eq_div)
  have "unat v div 128 < 2 ^ (7 * Suc n) \<longleftrightarrow> unat v < 2 ^ (7 * Suc (Suc n))"
    by (simp add: div_less_iff_less_mult power_add)
  moreover have "unat v < 2 ^ (7 * Suc (Suc n))" if "drop_bit 7 v = 0"
  proof -
    from that have "unat v < 2 ^ 7" by (simp only: drop_zero)
    also have "(2 :: nat) ^ 7 \<le> 2 ^ (7 * Suc (Suc n))" by (rule power_increasing) simp_all
    finally show ?thesis .
  qed
  ultimately show ?case using Suc.IH [of "drop_bit 7 v"] by (auto simp: groups.simps [of v] d)
qed

lemma groups_ok_groups: "groups_ok (groups v)"
proof -
  have "unat v < 2 ^ 32" using unsigned_less [of v, where ?'a = nat] by simp
  then have "unat v < 2 ^ (7 * Suc 4)" by simp
  then have "length (groups v) \<le> 5" using length_groups [of v 4] by simp
  then show ?thesis using groups_le by (auto simp: groups_ok_def)
qed

section \<open>Signed values\<close>

lemma extra_bits_step: "extra_bits_of (signed_drop_bit 7 v) = drop_bit 7 (extra_bits_of v)"
  by (rule bit_word_eqI) (auto simp: extra_bits_of_def bit_simps not_le min_def dest: bit_imp_le_length)

lemma extra_bits_zero: "extra_bits_of v = 0 \<Longrightarrow> signed_take_bit 6 v = v"
proof (rule bit_word_eqI)
  fix n
  assume "extra_bits_of v = 0" "n < LENGTH(32)"
  then have "\<not> bit (extra_bits_of v) (n - 6)" "\<not> bit (extra_bits_of v) 0" by simp_all
  then show "bit (signed_take_bit 6 v) n = bit v n"
    using \<open>n < LENGTH(32)\<close> by (auto simp: extra_bits_of_def bit_simps min_def split: if_splits)
qed

lemma shift_pair_take: "k < 32 \<Longrightarrow> shift_pair k w = signed_take_bit (31 - k) w"
proof (rule bit_word_eqI)
  fix n
  assume k: "k < 32" and n: "n < LENGTH(32)"
  consider "n < 31 - k" | "n = 31 - k" | "31 - k < n" by linarith
  then show "bit (shift_pair k w) n = bit (signed_take_bit (31 - k) w) n"
    by cases (use k n in \<open>auto simp: shift_pair_def bit_simps min_def split: if_splits\<close>)
qed

function signed_groups :: "u32 \<Rightarrow> u8 list" where
  "signed_groups v =
     ucast (v AND 0x7f) # (if extra_bits_of v = 0 then [] else signed_groups (signed_drop_bit 7 v))"
  by pat_completeness auto
termination by (relation "measure (\<lambda>v. unat (extra_bits_of v))") (auto simp: extra_bits_step drop7_smaller)

declare signed_groups.simps [simp del]

fun signed_value :: "u8 list \<Rightarrow> u32" where
  "signed_value [] = 0"
| "signed_value [g] = signed_take_bit 6 (ucast g)"
| "signed_value (g # gs) = ucast g OR push_bit 7 (signed_value gs)"

lemma signed_groups_not_Nil [simp]: "signed_groups v \<noteq> []"
  by (subst signed_groups.simps) simp

lemma signed_value_Cons: "gs \<noteq> [] \<Longrightarrow> signed_value (g # gs) = ucast g OR push_bit 7 (signed_value gs)"
  by (cases gs) simp_all

lemma signed_bytes_groups: "signed_bytes v = marked (signed_groups v)"
proof (induction v rule: signed_groups.induct)
  case (1 v)
  then show ?case
    by (auto simp: signed_bytes_def signed_groups.simps [of v] signed_loop.simps [of _ v "extra_bits_of v"]
        marked_Cons Let_def extra_bits_step)
qed

lemma signed_groups_le: "g \<in> set (signed_groups v) \<Longrightarrow> g \<le> 0x7f"
proof (induction v rule: signed_groups.induct)
  case (1 v)
  then show ?case using group_le [of v] by (auto simp: signed_groups.simps [of v] split: if_splits)
qed

lemma signed_value_groups [simp]: "signed_value (signed_groups v) = v"
proof (induction v rule: signed_groups.induct)
  case (1 v)
  have "ucast (ucast (v AND 0x7f) :: u8) OR push_bit 7 (signed_drop_bit 7 v) = v"
  proof (rule bit_word_eqI)
    fix n
    assume "n < LENGTH(32)"
    then show "bit (ucast (ucast (v AND 0x7f) :: u8) OR push_bit 7 (signed_drop_bit 7 v)) n = bit v n"
      by (cases "n < 7") (auto simp: bit_simps bits_7f min_def)
  qed
  moreover have "signed_take_bit 6 (ucast (ucast (v AND 0x7f) :: u8)) = signed_take_bit 6 v"
    by (rule bit_word_eqI) (auto simp: bit_simps bits_7f min_def)
  ultimately show ?case using 1 extra_bits_zero [of v] by (auto simp: signed_groups.simps [of v] signed_value_Cons)
qed

lemma signed_value_bits:
  assumes "groups_ok gs"
  shows "signed_value gs = (if length gs = 5 then group_value gs else signed_take_bit (7 * length gs - 1) (group_value gs))"
proof (rule bit_word_eqI)
  fix n
  assume n: "n < LENGTH(32)"
  show "bit (signed_value gs) n =
      bit (if length gs = 5 then group_value gs else signed_take_bit (7 * length gs - 1) (group_value gs)) n"
    using assms
    by (rule groups_cases) (use n in \<open>auto simp: bit_simps min_def split: if_splits dest: bit_imp_le_length\<close>)
qed

lemma decode_signed:
  assumes "groups_ok gs"
  shows "DecodeSignedLeb128 (marked gs @ rest) = Inr (signed_value gs, rest)"
proof -
  from assms have le: "\<forall>g \<in> set gs. g \<le> 0x7f \<and> \<not> 0x7f < g" by (auto simp: groups_ok_def)
  note sv = signed_value_bits [OF assms]
  show ?thesis
    using assms
    by (rule groups_cases)
      (use le sv in \<open>simp_all add: DecodeSignedLeb128_def Let_def mark_simps not_le ucast_and_7f push_bit_or or.assoc shift_pair_take\<close>)
qed

lemma length_signed_groups:
  "length (signed_groups v) \<le> Suc n \<longleftrightarrow> unat (v XOR signed_drop_bit 31 v) < 2 ^ (7 * n + 6)"
proof (induction n arbitrary: v)
  case 0
  have "extra_bits_of v = 0 \<longleftrightarrow> unat (v XOR signed_drop_bit 31 v) < 64"
    unfolding extra_bits_of_def by (simp only: drop_zero) simp
  then show ?case by (simp add: signed_groups.simps [of v])
next
  case (Suc n)
  let ?w = "v XOR signed_drop_bit 31 v"
  have "signed_drop_bit 7 v XOR signed_drop_bit 31 (signed_drop_bit 7 v) = drop_bit 7 ?w"
    by (rule bit_word_eqI) (auto simp: bit_simps not_le min_def dest: bit_imp_le_length)
  moreover have d: "unat (drop_bit 7 ?w) = unat ?w div 128" by (simp only: unat_drop_bit_eq) (simp add: drop_bit_eq_div)
  moreover have "unat ?w div 128 < 2 ^ (7 * n + 6) \<longleftrightarrow> unat ?w < 2 ^ (7 * Suc n + 6)"
    by (simp add: div_less_iff_less_mult power_add)
  moreover have "unat ?w < 2 ^ (7 * Suc n + 6)" if "extra_bits_of v = 0"
  proof -
    from that have "unat ?w < 2 ^ 6" unfolding extra_bits_of_def by (simp only: drop_zero)
    also have "(2 :: nat) ^ 6 \<le> 2 ^ (7 * Suc n + 6)" by (rule power_increasing) simp_all
    finally show ?thesis .
  qed
  ultimately show ?case using Suc.IH [of "signed_drop_bit 7 v"] by (auto simp: signed_groups.simps [of v])
qed

lemma signed_groups_ok: "groups_ok (signed_groups v)"
proof -
  have "unat (v XOR signed_drop_bit 31 v) < 2 ^ 32" using unsigned_less [of "v XOR signed_drop_bit 31 v", where ?'a = nat] by simp
  then have "unat (v XOR signed_drop_bit 31 v) < 2 ^ (7 * 4 + 6)" by simp
  then have "length (signed_groups v) \<le> 5" using length_signed_groups [of v 4] by simp
  then show ?thesis using signed_groups_le by (auto simp: groups_ok_def)
qed

section \<open>Sizes\<close>

lemma CLZ_bound:
  assumes "x \<noteq> 0"
  shows "CLZ x < 32" "unat x < 2 ^ n \<longleftrightarrow> 32 - CLZ x \<le> n"
proof -
  define js where "js = rev [0..<32]"
  let ?P = "\<lambda>i. \<not> bit x i"
  have js: "length js = 32" "\<And>i. i < 32 \<Longrightarrow> js ! (31 - i) = i" "\<And>i. i < 32 \<Longrightarrow> i \<in> set js"
    unfolding js_def by (simp_all add: rev_nth del: upt_rec_numeral upt_Suc)
  have clz: "CLZ x = length (takeWhile ?P js)" by (simp only: CLZ_def js_def)
  from assms obtain i where "bit x i" by (auto simp: bit_eq_iff)
  then have i: "bit x i" "i < 32" using bit_imp_le_length [of x i] by simp_all
  have lt: "CLZ x < 32"
  proof (rule ccontr)
    assume "\<not> CLZ x < 32"
    then have "length js \<le> length (takeWhile ?P js)" using js(1) clz by simp
    then have "takeWhile ?P js = js" using takeWhile_eq_take [of ?P js] by (metis take_all)
    then show False using i js(3) [of i] by (simp add: takeWhile_eq_all_conv)
  qed
  then show "CLZ x < 32" .
  have "bit x (js ! CLZ x)" using nth_length_takeWhile [of ?P js] lt js(1) by (simp add: clz)
  then have "bit x (31 - CLZ x)" using js(2) [of "31 - CLZ x"] lt by simp
  moreover have "\<not> bit x j" if "31 - CLZ x < j" for j
  proof (cases "j < 32")
    case True
    with that have "31 - j < length (takeWhile ?P js)" unfolding clz by linarith
    then have "?P (js ! (31 - j))" by (metis nth_mem set_takeWhileD takeWhile_nth)
    with True js(2) show ?thesis by simp
  qed (auto dest: bit_imp_le_length)
  moreover have "unat x < 2 ^ n \<longleftrightarrow> (\<forall>j \<ge> n. \<not> bit x j)"
  proof -
    have "bit (drop_bit n x) (j - n) = bit x j" if "n \<le> j" for j using that by (simp add: bit_drop_bit_eq)
    then have "drop_bit n x = 0 \<Longrightarrow> \<forall>j \<ge> n. \<not> bit x j" by force
    moreover have "\<forall>j \<ge> n. \<not> bit x j \<Longrightarrow> drop_bit n x = 0" by (rule bit_word_eqI) (simp add: bit_drop_bit_eq)
    ultimately show ?thesis unfolding drop_zero [symmetric] by blast
  qed
  ultimately have "unat x < 2 ^ n \<longleftrightarrow> 31 - CLZ x < n" by (meson leD leI order.strict_trans2)
  with lt show "unat x < 2 ^ n \<longleftrightarrow> 32 - CLZ x \<le> n" by auto
qed

lemma size_formula:
  assumes "c < 32"
  shows "drop_bit 8 ((6 + 32 - of_nat c) * 37) = (of_nat ((38 - c) div 7) :: u32)"
    "drop_bit 8 ((1 + 6 + 32 - of_nat c) * 37) = (of_nat ((39 - c) div 7) :: u32)"
proof -
  have "list_all (\<lambda>c. drop_bit 8 ((6 + 32 - of_nat c) * 37) = (of_nat ((38 - c) div 7) :: u32) \<and>
      drop_bit 8 ((1 + 6 + 32 - of_nat c) * 37) = (of_nat ((39 - c) div 7) :: u32)) [0..<32]"
    by code_simp
  with assms show "drop_bit 8 ((6 + 32 - of_nat c) * 37) = (of_nat ((38 - c) div 7) :: u32)"
    "drop_bit 8 ((1 + 6 + 32 - of_nat c) * 37) = (of_nat ((39 - c) div 7) :: u32)"
    by (simp_all add: list_all_iff)
qed

lemma or_one_bound:
  assumes "0 < m"
  shows "v OR 1 \<noteq> 0" "unat (v OR 1 :: u32) < 2 ^ m \<longleftrightarrow> unat v < 2 ^ m"
proof -
  have "bit (v OR 1) 0" by (simp add: bit_or_iff)
  then show "v OR 1 \<noteq> 0" by auto
  have "drop_bit m (v OR 1) = drop_bit m v"
    using assms by (intro bit_word_eqI) (auto simp: bit_drop_bit_eq bit_or_iff bit_1_iff)
  then show "unat (v OR 1) < 2 ^ m \<longleftrightarrow> unat v < 2 ^ m" by (simp only: drop_zero [symmetric])
qed

lemma UnsignedLeb128Size_exact: "UnsignedLeb128Size v = of_nat (length (unsigned_bytes v))"
proof -
  let ?c = "CLZ (v OR 1)"
  note c = CLZ_bound [OF or_one_bound(1) [OF zero_less_one, of v]]
  obtain k where k: "length (groups v) = Suc k" by (cases "groups v") auto
  have L: "length (groups v) \<le> Suc n \<longleftrightarrow> 32 - ?c \<le> 7 * Suc n" for n
    using or_one_bound(2) [of "7 * Suc n" v] c(2) [of "7 * Suc n"] length_groups [of v n] by simp
  have "k \<noteq> 0 \<longrightarrow> 7 * k < 32 - ?c" using L [of "k - 1"] k by (cases k) auto
  moreover have "32 - ?c \<le> 7 * Suc k" using L [of k] k by simp
  ultimately have "(38 - ?c) div 7 = Suc k"
    using c(1) by (intro div_nat_eqI) arith+
  with size_formula(1) [OF c(1)] k show ?thesis
    by (simp add: UnsignedLeb128Size_def Let_def unsigned_bytes_groups length_marked)
qed

lemma SignedLeb128Size_exact: "SignedLeb128Size v = of_nat (length (signed_bytes v))"
proof -
  let ?w = "v XOR signed_drop_bit 31 v"
  let ?c = "CLZ (?w OR 1)"
  note c = CLZ_bound [OF or_one_bound(1) [OF zero_less_one, of ?w]]
  obtain k where k: "length (signed_groups v) = Suc k" by (cases "signed_groups v") auto
  have L: "length (signed_groups v) \<le> Suc n \<longleftrightarrow> 32 - ?c \<le> 7 * n + 6" for n
    using or_one_bound(2) [of "7 * n + 6" ?w] c(2) [of "7 * n + 6"] length_signed_groups [of v n] by simp
  have "k \<noteq> 0 \<longrightarrow> 7 * k \<le> 32 - ?c" using L [of "k - 1"] k by (cases k) auto
  moreover have "32 - ?c \<le> 7 * k + 6" using L [of k] k by simp
  ultimately have "(39 - ?c) div 7 = Suc k"
    using c(1) by (intro div_nat_eqI) arith+
  with size_formula(2) [OF c(1)] k show ?thesis
    by (simp add: SignedLeb128Size_def Let_def signed_bytes_groups)
qed

lemma decode_unsigned_bytes: "DecodeUnsignedLeb128 (unsigned_bytes v @ rest) = Inr (v, rest)"
  by (simp add: unsigned_bytes_groups decode_unsigned groups_ok_groups)

lemma decode_signed_bytes: "DecodeSignedLeb128 (signed_bytes v @ rest) = Inr (v, rest)"
  by (simp add: signed_bytes_groups decode_signed signed_groups_ok)

text \<open>C12: decoding the bytes written for an unsigned or signed value gives the value back and
  stops right behind them, and the size functions return the number of bytes written.\<close>

theorem leb128_roundtrip:
  "DecodeUnsignedLeb128 (unsigned_bytes v @ rest) = Inr (v, rest) \<and>
   DecodeSignedLeb128 (signed_bytes v @ rest) = Inr (v, rest) \<and>
   UnsignedLeb128Size v = of_nat (length (unsigned_bytes v)) \<and>
   SignedLeb128Size v = of_nat (length (signed_bytes v))"
  by (simp add: decode_unsigned_bytes decode_signed_bytes UnsignedLeb128Size_exact SignedLeb128Size_exact)

section \<open>Updating in place\<close>

lemma marked_snoc: "marked (gs @ [x]) = map (\<lambda>g. g OR 0x80) gs @ [x]"
  by (induction gs) (simp_all add: marked_Cons)

lemma group_value_zeros: "group_value (gs @ replicate n 0) = group_value gs"
proof -
  have "group_value (replicate n 0) = 0" by (induction n) simp_all
  then show ?thesis by (induction gs) simp_all
qed

lemma fill_leb128_eq:
  assumes "gs \<noteq> []" "length junk = n"
  shows "fill_leb128 (pre @ marked gs @ junk @ post) (length pre + length gs) n =
     Inr (pre @ marked (gs @ replicate n 0) @ post)"
  using assms
proof (induction n arbitrary: gs junk)
  case (Suc n)
  obtain hs x where gs: "gs = hs @ [x]" using Suc.prems(1) by (cases gs rule: rev_cases) auto
  obtain j junk' where junk: "junk = j # junk'" using Suc.prems(2) by (cases junk) auto
  have "marked (gs @ [0]) = map (\<lambda>g. g OR 0x80) hs @ [x OR 0x80, 0]"
    using marked_snoc [of "hs @ [x]" 0] by (simp add: gs)
  then have "fill_leb128 (pre @ marked gs @ junk @ post) (length pre + length gs) (Suc n) =
      fill_leb128 (pre @ marked (gs @ [0]) @ junk' @ post) (length pre + length (gs @ [0])) n"
    by (simp add: gs junk marked_snoc load8_def store8_def nth_append list_update_append)
  with Suc.IH [of "gs @ [0]" junk'] Suc.prems junk show ?case by (simp add: replicate_app_Cons_same)
qed simp

text \<open>What a successful decoding read.\<close>

lemma small_or: "unat (x :: u32) < 2 ^ k \<Longrightarrow> unat y < 2 ^ k \<Longrightarrow> unat (x OR y) < 2 ^ k"
  unfolding drop_zero [symmetric] by (simp add: drop_bit_or)

lemma small_bits: "j + 7 \<le> k \<Longrightarrow> unat (push_bit j (ucast ((g :: u8) AND 0x7f)) :: u32) < 2 ^ k"
  unfolding drop_zero [symmetric] by (rule bit_word_eqI) (auto simp: bit_simps bits_7f)

lemma small_and: "7 \<le> k \<Longrightarrow> unat (ucast ((g :: u8) AND 0x7f) :: u32) < 2 ^ k"
  using small_bits [of 0 k g] by simp

lemma small_byte: "\<not> (0x7f :: u8) < g \<Longrightarrow> unat (ucast g :: u32) < 2 ^ 7"
  unfolding drop_zero [symmetric] by (rule bit_word_eqI) (auto simp: bit_simps dest!: seven_bit [OF leI])

lemma decode_shape:
  assumes "DecodeUnsignedLeb128 p = Inr (x, rest)"
  obtains bs where "p = bs @ rest" "bs \<noteq> []" "length bs \<le> 5" "length bs < 5 \<longrightarrow> unat x < 2 ^ (7 * length bs)"
proof -
  from assms consider
    (1) a where "p = [a] @ rest" "\<not> 0x7f < a" "x = ucast a"
  | (2) a b where "p = [a, b] @ rest" "x = ucast (a AND 0x7f) OR byte_bits b 0x7f 7"
  | (3) a b c where "p = [a, b, c] @ rest" "x = ucast (a AND 0x7f) OR byte_bits b 0x7f 7 OR byte_bits c 0x7f 14"
  | (4) a b c d where "p = [a, b, c, d] @ rest"
      "x = ucast (a AND 0x7f) OR byte_bits b 0x7f 7 OR byte_bits c 0x7f 14 OR byte_bits d 0x7f 21"
  | (5) a b c d e where "p = [a, b, c, d, e] @ rest"
    by (auto simp: DecodeUnsignedLeb128_def rbind_eq_Inr next_byte_eq Let_def ucast_and_7f or.assoc split: if_splits)
  then show thesis
  proof cases
    case 1
    then show thesis using that [of "[a]"] small_byte [of a] by simp
  next
    case 2
    have "unat x < 2 ^ 14" unfolding 2(2) by (intro small_or small_and small_bits) simp_all
    with 2(1) show thesis using that [of "[a, b]"] by simp
  next
    case 3
    have "unat x < 2 ^ 21" unfolding 3(2) by (intro small_or small_and small_bits) simp_all
    with 3(1) show thesis using that [of "[a, b, c]"] by simp
  next
    case 4
    have "unat x < 2 ^ 28" unfolding 4(2) by (intro small_or small_and small_bits) simp_all
    with 4(1) show thesis using that [of "[a, b, c, d]"] by simp
  next
    case 5
    then show thesis using that [of "[a, b, c, d, e]"] by simp
  qed
qed

text \<open>Updating an encoded value by one that is not greater changes exactly the bytes of the
  old encoding: decoding gives the new value and the same end, and the rest of the memory is kept.\<close>

lemma UpdateUnsignedLeb128_in_place:
  assumes "mem = pre @ old_bytes" "DecodeUnsignedLeb128 old_bytes = Inr (old, rest)" "v \<le> old"
  shows "\<exists>new_bytes. UpdateUnsignedLeb128 mem (length pre) v = Inr (pre @ new_bytes) \<and>
     length new_bytes = length old_bytes \<and> DecodeUnsignedLeb128 new_bytes = Inr (v, rest)"
proof -
  obtain bs where bs: "old_bytes = bs @ rest" "bs \<noteq> []" "length bs \<le> 5" "length bs < 5 \<longrightarrow> unat old < 2 ^ (7 * length bs)"
    using decode_shape [OF assms(2)] .
  let ?gs = "groups v" and ?k = "length (groups v)"
  obtain m where m: "length bs = Suc m" using bs(2) by (cases bs) auto
  have len: "?k \<le> length bs"
  proof (cases "length bs < 5")
    case True
    with bs(4) assms(3) have "unat v < 2 ^ (7 * Suc m)" unfolding m by (simp add: word_le_nat_alt)
    then show ?thesis using length_groups [of v m] m by simp
  next
    case False
    then show ?thesis using groups_ok_groups [of v] by (simp add: groups_ok_def)
  qed
  have "splice mem (length pre) (marked ?gs) = pre @ marked ?gs @ drop ?k bs @ rest"
    using len by (simp add: splice_def assms(1) bs(1))
  then have enc: "EncodeUnsignedLeb128 mem (length pre) v = Inr (pre @ marked ?gs @ drop ?k bs @ rest, length pre + ?k)"
    using len by (simp add: EncodeUnsignedLeb128_def unsigned_bytes_groups store_bytes_eq assms(1) bs(1))
  let ?new = "?gs @ replicate (length bs - ?k) 0"
  have upd: "UpdateUnsignedLeb128 mem (length pre) v = Inr (pre @ marked ?new @ rest)"
    using fill_leb128_eq [of ?gs "drop ?k bs" "length bs - ?k" pre rest] enc assms(1,2)
    by (simp add: UpdateUnsignedLeb128_def bs(1))
  have "groups_ok ?new" using groups_ok_groups [of v] len bs(3) by (auto simp: groups_ok_def)
  then have "DecodeUnsignedLeb128 (marked ?new @ rest) = Inr (v, rest)"
    by (simp add: decode_unsigned group_value_zeros)
  with upd len show ?thesis by (intro exI [of _ "marked ?new @ rest"]) (simp add: bs(1))
qed

end
