(* ===== verification/Bisection.thy ===== *)
theory Bisection
  imports Art_Prelude
begin

text \<open>
  Binary search over an interval of indices. The runtime has several loops of this shape (the
  try items of a method, the keys of a sparse switch); each is shown to be \<open>bisect\<close> with its own
  probe, and \<open>bisect\<close> is shown to find the only hit of a probe that is ordered on the interval.
\<close>

datatype side = Below | Above | Hit

text \<open>\<open>Below\<close> means that the wanted index is below the probed one.\<close>

function bisect :: "(int \<Rightarrow> side res) \<Rightarrow> int \<Rightarrow> int \<Rightarrow> int option res" where
  "bisect probe lo hi =
     (if lo \<le> hi then
        let mid = (lo + hi) div 2 in
        rbind (probe mid) (\<lambda>s. case s of
          Below \<Rightarrow> bisect probe lo (mid - 1)
        | Above \<Rightarrow> bisect probe (mid + 1) hi
        | Hit \<Rightarrow> Inr (Some mid))
      else Inr None)"
  by pat_completeness auto
termination
  by (relation "measure (\<lambda>(_, lo, hi). nat (hi - lo + 1))") auto

declare bisect.simps [simp del]

text \<open>A probe is ordered on an interval when it never fails there, what lies below a \<open>Below\<close> or
  above an \<open>Above\<close> may be the hit, and nothing else.\<close>

definition ordered_probe :: "(int \<Rightarrow> side res) \<Rightarrow> int \<Rightarrow> int \<Rightarrow> bool" where
  "ordered_probe probe lo hi \<longleftrightarrow>
     (\<forall>i. lo \<le> i \<and> i \<le> hi \<longrightarrow> (\<exists>s. probe i = Inr s)) \<and>
     (\<forall>i j. lo \<le> i \<and> i < j \<and> j \<le> hi \<longrightarrow>
        (probe i = Inr Below \<longrightarrow> probe j = Inr Below) \<and> (probe j = Inr Above \<longrightarrow> probe i = Inr Above) \<and>
        \<not> (probe i = Inr Hit \<and> probe j = Inr Hit))"

lemma ordered_probe_sub:
  "ordered_probe probe lo hi \<Longrightarrow> lo \<le> lo' \<Longrightarrow> hi' \<le> hi \<Longrightarrow> ordered_probe probe lo' hi'"
  unfolding ordered_probe_def by (meson order.trans)

lemma ordered_probe_cases:
  assumes "ordered_probe probe lo hi" "lo \<le> i" "i \<le> hi"
  obtains (below) "probe i = Inr Below" "\<And>j. i \<le> j \<Longrightarrow> j \<le> hi \<Longrightarrow> probe j = Inr Below"
    | (above) "probe i = Inr Above" "\<And>j. lo \<le> j \<Longrightarrow> j \<le> i \<Longrightarrow> probe j = Inr Above"
    | (hit) "probe i = Inr Hit"
proof -
  from assms obtain s where s: "probe i = Inr s" by (auto simp: ordered_probe_def)
  show thesis
  proof (cases s)
    case Below
    have "probe j = Inr Below" if "i \<le> j" "j \<le> hi" for j
      using assms s Below that unfolding ordered_probe_def by (metis order_le_less)
    with s Below below show thesis by blast
  next
    case Above
    have "probe j = Inr Above" if "lo \<le> j" "j \<le> i" for j
      using assms s Above that unfolding ordered_probe_def by (metis order_le_less)
    with s Above above show thesis by blast
  next
    case Hit
    with s hit show thesis by blast
  qed
qed

text \<open>The search ends without a trap, and its answer is the hit of the interval, if there is one.\<close>

lemma bisect_total:
  assumes "ordered_probe probe lo hi"
  shows "\<exists>r. bisect probe lo hi = Inr r \<and>
     (case r of Some i \<Rightarrow> lo \<le> i \<and> i \<le> hi \<and> probe i = Inr Hit
      | None \<Rightarrow> \<forall>i. lo \<le> i \<and> i \<le> hi \<longrightarrow> probe i \<noteq> Inr Hit)"
  using assms
proof (induction probe lo hi rule: bisect.induct)
  case (1 probe lo hi)
  show ?case
  proof (cases "lo \<le> hi")
    case False then show ?thesis by (subst bisect.simps) auto
  next
    case True
    let ?m = "(lo + hi) div 2"
    have m: "lo \<le> ?m" "?m \<le> hi" using True by auto
    from "1.prems" m show ?thesis
    proof (cases rule: ordered_probe_cases)
      case below
      from "1.IH"(1) [OF True refl below(1) refl] ordered_probe_sub [OF "1.prems"] m obtain r where
        r: "bisect probe lo (?m - 1) = Inr r" "case r of Some i \<Rightarrow> lo \<le> i \<and> i \<le> ?m - 1 \<and> probe i = Inr Hit
           | None \<Rightarrow> \<forall>i. lo \<le> i \<and> i \<le> ?m - 1 \<longrightarrow> probe i \<noteq> Inr Hit" by fastforce
      then have "bisect probe lo hi = Inr r" using True below(1) by (subst bisect.simps) (simp add: Let_def)
      then show ?thesis using r(2) below(2) m
        by (auto split: option.splits) (metis linorder_not_le side.distinct(4) sum.inject(2) zle_diff1_eq)
    next
      case above
      from "1.IH"(2) [OF True refl above(1) refl] ordered_probe_sub [OF "1.prems"] m obtain r where
        r: "bisect probe (?m + 1) hi = Inr r" "case r of Some i \<Rightarrow> ?m + 1 \<le> i \<and> i \<le> hi \<and> probe i = Inr Hit
           | None \<Rightarrow> \<forall>i. ?m + 1 \<le> i \<and> i \<le> hi \<longrightarrow> probe i \<noteq> Inr Hit" by fastforce
      then have "bisect probe lo hi = Inr r" using True above(1) by (subst bisect.simps) (simp add: Let_def)
      then show ?thesis using r(2) above(2) m
        by (auto split: option.splits) (metis linorder_not_le side.distinct(6) sum.inject(2) zless_imp_add1_zle)
    next
      case hit
      then have "bisect probe lo hi = Inr (Some ?m)" using True by (subst bisect.simps) (simp add: Let_def)
      then show ?thesis using hit m by simp
    qed
  qed
qed

lemma bisect_finds:
  assumes "ordered_probe probe lo hi" "lo \<le> i" "i \<le> hi" "probe i = Inr Hit"
  shows "bisect probe lo hi = Inr (Some i)"
proof -
  from bisect_total [OF assms(1)] obtain r where r: "bisect probe lo hi = Inr r"
    "case r of Some i \<Rightarrow> lo \<le> i \<and> i \<le> hi \<and> probe i = Inr Hit
     | None \<Rightarrow> \<forall>i. lo \<le> i \<and> i \<le> hi \<longrightarrow> probe i \<noteq> Inr Hit" by blast
  then obtain j where j: "r = Some j" "lo \<le> j" "j \<le> hi" "probe j = Inr Hit"
    using assms(2-4) by (auto split: option.splits)
  have "j = i"
    using assms j unfolding ordered_probe_def by (metis linorder_neqE_linordered_idom)
  then show ?thesis using r(1) j(1) by simp
qed

lemma bisect_misses:
  assumes "ordered_probe probe lo hi" "\<And>i. lo \<le> i \<Longrightarrow> i \<le> hi \<Longrightarrow> probe i \<noteq> Inr Hit"
  shows "bisect probe lo hi = Inr None"
  using bisect_total [OF assms(1)] assms(2) by (auto split: option.splits)

end
