(* ===== verification/Dex_Catch.thy ===== *)
theory Dex_Catch
  imports Bisection Leb128 Art_Class
begin

text \<open>
  The code of a method and its exception handlers: CodeItem and TryItem of runtime/dex\_file.h,
  the search for the try item of an address and the iterator over the encoded catch handlers of
  runtime/dex\_file.cc, and the choice of the handler by ArtMethod::FindCatchBlock of
  runtime/art\_method.cc.
\<close>

section \<open>Code items\<close>

record TryItem =
  start_addr :: u32
  insn_count :: u16
  handler_off :: u16

text \<open>The arrays that follow a code item in the file: the instructions, the try items and the
  encoded handlers.\<close>

record CodeItem =
  registers_size :: u16
  ins_size :: u16
  outs_size :: u16
  insns :: "u16 list"
  try_items :: "TryItem list"
  handler_data :: "u8 list"

abbreviation tries_size :: "CodeItem \<Rightarrow> int" where
  "tries_size c \<equiv> int (length (try_items c))"

definition GetTryItems :: "CodeItem \<Rightarrow> int \<Rightarrow> TryItem res" where
  "GetTryItems c i =
     (if 0 \<le> i \<and> i < tries_size c then Inr (try_items c ! nat i) else Inl OutOfBounds)"

definition GetCatchHandlerData :: "CodeItem \<Rightarrow> int \<Rightarrow> u8 list" where
  "GetCatchHandlerData c off = drop (nat off) (handler_data c)"

function find_try_loop :: "CodeItem \<Rightarrow> u32 \<Rightarrow> int \<Rightarrow> int \<Rightarrow> int res" where
  "find_try_loop c address lo hi =
     (if lo \<le> hi then
        let mid = lo + (hi - lo) div 2 in
        rbind (GetTryItems c mid) (\<lambda>ti.
        let start = start_addr ti; end_addr = start + ucast (insn_count ti) in
        if address < start then find_try_loop c address lo (mid - 1)
        else if address \<ge> end_addr then find_try_loop c address (mid + 1) hi
        else Inr mid)
      else Inr (- 1))"
  by pat_completeness auto
termination
  by (relation "measure (\<lambda>(_, _, lo, hi). nat (hi - lo + 1))") auto

declare find_try_loop.simps [simp del]

definition FindTryItem :: "CodeItem \<Rightarrow> u32 \<Rightarrow> int res" where
  "FindTryItem c address = find_try_loop c address 0 (tries_size c - 1)"

definition FindCatchHandlerOffset :: "CodeItem \<Rightarrow> u32 \<Rightarrow> int res" where
  "FindCatchHandlerOffset c address =
     rbind (FindTryItem c address) (\<lambda>try_item.
     if try_item = - 1 then Inr (- 1)
     else rbind (GetTryItems c try_item) (\<lambda>ti. Inr (uint (handler_off ti))))"

section \<open>The iterator over catch handlers\<close>

record CatchHandlerIterator =
  type_idx :: u16
  handler_address :: u32
  current_data :: "u8 list"
  remaining_count :: u32
  catch_all :: bool

abbreviation kDexNoIndex :: u32 where "kDexNoIndex \<equiv> 0xFFFFFFFF"
abbreviation kDexNoIndex16 :: u16 where "kDexNoIndex16 \<equiv> 0xFFFF"

definition HasNext :: "CatchHandlerIterator \<Rightarrow> bool" where
  "HasNext it \<longleftrightarrow> remaining_count it \<noteq> - 1 \<or> catch_all it"

definition Next :: "CatchHandlerIterator \<Rightarrow> CatchHandlerIterator res" where
  "Next it =
     (if 0 <s remaining_count it then
        rbind (DecodeUnsignedLeb128 (current_data it)) (\<lambda>(t, data).
        rbind (DecodeUnsignedLeb128 data) (\<lambda>(a, data).
        Inr (it\<lparr>type_idx := ucast t, handler_address := a, current_data := data,
                remaining_count := remaining_count it - 1\<rparr>)))
      else if catch_all it then
        rbind (DecodeUnsignedLeb128 (current_data it)) (\<lambda>(a, data).
        Inr (it\<lparr>type_idx := kDexNoIndex16, handler_address := a, current_data := data, catch_all := False\<rparr>))
      else Inr (it\<lparr>remaining_count := - 1\<rparr>))"

text \<open>The constructors. The type index is not initialised there and never read before a Next; the
  model starts it with 0.\<close>

definition empty_iterator :: CatchHandlerIterator where
  "empty_iterator = \<lparr>type_idx = 0, handler_address = - 1, current_data = [], remaining_count = - 1, catch_all = False\<rparr>"

definition Init_data :: "u8 list \<Rightarrow> CatchHandlerIterator res" where
  "Init_data data =
     rbind (DecodeSignedLeb128 data) (\<lambda>(n, data).
     Next (empty_iterator\<lparr>current_data := data, remaining_count := (if n \<le>s 0 then - n else n),
                          catch_all := (n \<le>s 0)\<rparr>))"

definition Init_offset :: "CodeItem \<Rightarrow> int \<Rightarrow> CatchHandlerIterator res" where
  "Init_offset c off = (if 0 \<le> off then Init_data (GetCatchHandlerData c off) else Inr empty_iterator)"

definition new_CatchHandlerIterator :: "CodeItem \<Rightarrow> u32 \<Rightarrow> CatchHandlerIterator res" where
  "new_CatchHandlerIterator c address =
     rbind (if tries_size c = 0 then Inr (- 1)
            else if tries_size c = 1 then
              rbind (GetTryItems c 0) (\<lambda>tries.
              let start = start_addr tries in
              Inr (if address \<ge> start \<and> address < start + ucast (insn_count tries)
                   then uint (handler_off tries) else - 1))
            else FindCatchHandlerOffset c address)
       (Init_offset c)"

section \<open>The handler of an exception\<close>

text \<open>
  The loop of FindCatchBlock. \<open>resolve\<close> stands for GetClassFromTypeIndex, which gives null when
  the class cannot be loaded, and \<open>assignable\<close> for IsAssignableFrom; \<open>w\<close> is the state they work on.
\<close>

definition iterator_measure :: "CatchHandlerIterator \<Rightarrow> nat" where
  "iterator_measure it = nat (sint (remaining_count it)) + (if catch_all it then 1 else 0) +
     (if remaining_count it \<noteq> - 1 then 1 else 0)"

lemma sint_decrease: "0 <s (x :: u32) \<Longrightarrow> sint (x - 1) = sint x - 1"
proof -
  assume x: "0 <s x"
  have "sint x < 2 ^ 31" using sint_lt [of x] by simp
  moreover have "sint (x - 1) = signed_take_bit 31 (sint x - 1)"
    by (simp add: sint_word_ariths(2))
  ultimately show ?thesis using x by (simp add: word_sless_alt signed_take_bit_int_eq_self)
qed

lemma Next_measure:
  assumes "HasNext it" "Next it = Inr it'"
  shows "iterator_measure it' < iterator_measure it"
proof (cases "0 <s remaining_count it")
  case True
  then have "sint (remaining_count it - 1) = sint (remaining_count it) - 1" "0 < sint (remaining_count it)"
    by (simp_all add: sint_decrease word_sless_alt)
  moreover from this have "remaining_count it \<noteq> - 1" "remaining_count it - 1 \<noteq> - 1" by auto
  ultimately show ?thesis
    using assms(2) True by (auto simp: Next_def iterator_measure_def rbind_eq_Inr split: if_splits)
next
  case False
  then show ?thesis
    using assms by (auto simp: Next_def HasNext_def iterator_measure_def rbind_eq_Inr split: if_splits)
qed

function find_catch ::
    "(u16 \<Rightarrow> 'w \<Rightarrow> ptr \<times> 'w) \<Rightarrow> ('w \<Rightarrow> ptr \<Rightarrow> ptr \<Rightarrow> bool) \<Rightarrow> ptr \<Rightarrow> CatchHandlerIterator \<Rightarrow> 'w \<Rightarrow> (u32 \<times> 'w) res" where
  "find_catch resolve assignable exception_type it w =
     (if HasNext it then
        if type_idx it = kDexNoIndex16 then Inr (handler_address it, w)
        else case resolve (type_idx it) w of (iter_exception_type, w) \<Rightarrow>
          if iter_exception_type \<noteq> 0 \<and> assignable w iter_exception_type exception_type then Inr (handler_address it, w)
          else rbind (Next it) (\<lambda>it. find_catch resolve assignable exception_type it w)
      else Inr (kDexNoIndex, w))"
  by pat_completeness auto
termination
  by (relation "measure (\<lambda>(_, _, _, it, _). iterator_measure it)") (auto intro: Next_measure)

declare find_catch.simps [simp del]

section \<open>What the search finds\<close>

definition try_covers :: "u32 \<Rightarrow> TryItem \<Rightarrow> bool" where
  "try_covers a ti \<longleftrightarrow> start_addr ti \<le> a \<and> a < start_addr ti + ucast (insn_count ti)"

abbreviation try_end :: "TryItem \<Rightarrow> nat" where
  "try_end ti \<equiv> unat (start_addr ti) + unat (insn_count ti)"

text \<open>The dex format asks for try items in ascending order that do not overlap.\<close>

definition tries_ok :: "CodeItem \<Rightarrow> bool" where
  "tries_ok c \<longleftrightarrow> sorted_wrt (\<lambda>s t. try_end s \<le> unat (start_addr t)) (try_items c) \<and>
     (\<forall>t \<in> set (try_items c). try_end t < 2 ^ 32)"

definition try_probe :: "CodeItem \<Rightarrow> u32 \<Rightarrow> int \<Rightarrow> side res" where
  "try_probe c a i = rbind (GetTryItems c i) (\<lambda>ti.
     Inr (if a < start_addr ti then Below else if try_covers a ti then Hit else side.Above))"

lemma find_try_loop_bisect:
  "find_try_loop c a lo hi = rbind (bisect (try_probe c a) lo hi) (\<lambda>r. Inr (case r of None \<Rightarrow> - 1 | Some i \<Rightarrow> i))"
proof (induction c a lo hi rule: find_try_loop.induct)
  case (1 c a lo hi)
  have mid: "lo + (hi - lo) div 2 = (lo + hi) div 2" by presburger
  show ?case
  proof (cases "lo \<le> hi")
    case False then show ?thesis by (subst find_try_loop.simps, subst bisect.simps) simp
  next
    case True
    show ?thesis
    proof (cases "GetTryItems c ((lo + hi) div 2)")
      case (Inl e)
      with True show ?thesis
        by (subst find_try_loop.simps, subst bisect.simps) (simp add: mid try_probe_def)
    next
      case (Inr ti)
      then have "try_probe c a ((lo + hi) div 2) = Inr (if a < start_addr ti then Below else if try_covers a ti then Hit else side.Above)"
        by (simp add: try_probe_def)
      with "1.IH" [OF True refl _ refl refl, unfolded mid, OF Inr] True Inr show ?thesis
        by (subst find_try_loop.simps, subst bisect.simps) (auto simp: mid Let_def try_covers_def not_less)
    qed
  qed
qed

lemma try_end_word: "try_end ti < 2 ^ 32 \<Longrightarrow> unat (start_addr ti + ucast (insn_count ti)) = try_end ti"
  by (simp add: unat_word_ariths take_bit_nat_eq_self unsigned_ucast_eq)

lemma try_covers_nat: "try_end ti < 2 ^ 32 \<Longrightarrow> try_covers a ti \<longleftrightarrow> unat (start_addr ti) \<le> unat a \<and> unat a < try_end ti"
  by (simp add: try_covers_def word_le_nat_alt word_less_nat_alt try_end_word)

lemma try_probe_nth:
  assumes "tries_ok c" "0 \<le> i" "i < tries_size c"
  shows "try_probe c a i = Inr (if unat a < unat (start_addr (try_items c ! nat i)) then Below
     else if unat a < try_end (try_items c ! nat i) then Hit else side.Above)"
proof -
  have "try_end (try_items c ! nat i) < 2 ^ 32" using assms by (simp add: tries_ok_def)
  then show ?thesis
    using assms(2,3) by (simp add: try_probe_def GetTryItems_def try_covers_nat word_less_nat_alt)
qed

lemma tries_ordered: "tries_ok c \<Longrightarrow> ordered_probe (try_probe c a) 0 (tries_size c - 1)"
proof -
  assume ok: "tries_ok c"
  have "try_end (try_items c ! nat i) \<le> unat (start_addr (try_items c ! nat j))"
    if "0 \<le> i" "i < j" "j < tries_size c" for i j
    using ok that by (auto simp: tries_ok_def sorted_wrt_iff_nth_less)
  from this ok show ?thesis
    unfolding ordered_probe_def by (auto simp: try_probe_nth; force)
qed

text \<open>The offset FindCatchHandlerOffset gives is the one of the first try item that covers the
  address.\<close>

definition covering_try :: "CodeItem \<Rightarrow> u32 \<Rightarrow> TryItem option" where
  "covering_try c a = find (try_covers a) (try_items c)"

lemma FindTryItem_covering:
  assumes "tries_ok c"
  shows "(\<exists>i ti. FindTryItem c a = Inr i \<and> GetTryItems c i = Inr ti \<and> i \<noteq> - 1 \<and> covering_try c a = Some ti) \<or>
     FindTryItem c a = Inr (- 1) \<and> covering_try c a = None"
proof (cases "covering_try c a")
  case None
  then have no: "\<not> try_covers a t" if "t \<in> set (try_items c)" for t
    using that by (simp add: covering_try_def find_None_iff)
  have "bisect (try_probe c a) 0 (tries_size c - 1) = Inr None"
    by (rule bisect_misses [OF tries_ordered [OF assms]])
      (use no in \<open>auto simp: try_probe_def GetTryItems_def\<close>)
  with None show ?thesis by (simp add: FindTryItem_def find_try_loop_bisect)
next
  case (Some ti)
  then obtain k where k: "k < length (try_items c)" "try_covers a (try_items c ! k)" "ti = try_items c ! k"
    by (auto simp: covering_try_def find_Some_iff)
  then have hit: "try_probe c a (int k) = Inr Hit"
    by (auto simp: try_probe_def GetTryItems_def try_covers_def)
  have "bisect (try_probe c a) 0 (tries_size c - 1) = Inr (Some (int k))"
    by (rule bisect_finds [OF tries_ordered [OF assms]]) (use k hit in auto)
  with Some k show ?thesis by (auto simp: FindTryItem_def find_try_loop_bisect GetTryItems_def)
qed

text \<open>The constructor treats no and one try item apart; this is the general search.\<close>

lemma iterator_of_covering_try:
  assumes "tries_ok c"
  shows "new_CatchHandlerIterator c a =
     (case covering_try c a of None \<Rightarrow> Inr empty_iterator
      | Some ti \<Rightarrow> Init_data (GetCatchHandlerData c (uint (handler_off ti))))"
proof (cases "try_items c")
  case Nil
  then show ?thesis by (simp add: new_CatchHandlerIterator_def covering_try_def Init_offset_def)
next
  case (Cons t ts)
  show ?thesis
  proof (cases ts)
    case Nil
    with Cons show ?thesis
      by (simp add: new_CatchHandlerIterator_def covering_try_def Init_offset_def GetTryItems_def try_covers_def Let_def)
  next
    case (Cons t' ts')
    with \<open>try_items c = t # ts\<close> have "new_CatchHandlerIterator c a = rbind (FindCatchHandlerOffset c a) (Init_offset c)"
      by (simp add: new_CatchHandlerIterator_def)
    with FindTryItem_covering [OF assms, of a] show ?thesis
      by (auto simp: FindCatchHandlerOffset_def Init_offset_def)
  qed
qed

section \<open>The handlers of a try item\<close>

text \<open>Bytes that decode to a list of handlers with an optional catch-all handler.\<close>

fun handlers_at :: "(u16 \<times> u32) list \<Rightarrow> u32 option \<Rightarrow> u8 list \<Rightarrow> u8 list \<Rightarrow> bool" where
  "handlers_at [] None data rest \<longleftrightarrow> data = rest"
| "handlers_at [] (Some a) data rest \<longleftrightarrow> DecodeUnsignedLeb128 data = Inr (a, rest)"
| "handlers_at ((t, a) # hs) ca data rest \<longleftrightarrow>
     (\<exists>t' data1 data2. DecodeUnsignedLeb128 data = Inr (t', data1) \<and> t = ucast t' \<and>
        DecodeUnsignedLeb128 data1 = Inr (a, data2) \<and> handlers_at hs ca data2 rest)"

definition handler_list_at :: "(u16 \<times> u32) list \<Rightarrow> u32 option \<Rightarrow> u8 list \<Rightarrow> u8 list \<Rightarrow> bool" where
  "handler_list_at hs ca data rest \<longleftrightarrow> length hs < 2 ^ 31 \<and> (hs \<noteq> [] \<or> ca \<noteq> None) \<and>
     (\<exists>data'. DecodeSignedLeb128 data = Inr (if ca = None then of_nat (length hs) else - of_nat (length hs), data') \<and>
        handlers_at hs ca data' rest)"

definition handler_list :: "(u16 \<times> u32) list \<Rightarrow> u32 option \<Rightarrow> (u16 \<times> u32) list" where
  "handler_list hs ca = hs @ (case ca of None \<Rightarrow> [] | Some a \<Rightarrow> [(kDexNoIndex16, a)])"

text \<open>The first handler whose class can be resolved and covers the exception, or the catch-all.\<close>

fun choose_handler ::
    "(u16 \<Rightarrow> 'w \<Rightarrow> ptr \<times> 'w) \<Rightarrow> ('w \<Rightarrow> ptr \<Rightarrow> ptr \<Rightarrow> bool) \<Rightarrow> ptr \<Rightarrow> (u16 \<times> u32) list \<Rightarrow> 'w \<Rightarrow> u32 \<times> 'w" where
  "choose_handler resolve assignable e [] w = (kDexNoIndex, w)"
| "choose_handler resolve assignable e ((t, a) # hs) w =
     (if t = kDexNoIndex16 then (a, w)
      else case resolve t w of (k, w) \<Rightarrow>
        if k \<noteq> 0 \<and> assignable w k e then (a, w) else choose_handler resolve assignable e hs w)"

lemma small_count:
  assumes "n < 2 ^ 31"
  shows "0 <s (of_nat n :: u32) \<longleftrightarrow> 0 < n" "(of_nat n :: u32) \<noteq> - 1" "(of_nat n :: u32) \<le>s 0 \<longleftrightarrow> n = 0"
    "- (of_nat n :: u32) \<le>s 0"
proof -
  have s: "sint (of_nat n :: u32) = int n" using assms by (simp add: signed_of_nat signed_take_bit_int_eq_self)
  show "0 <s (of_nat n :: u32) \<longleftrightarrow> 0 < n" "(of_nat n :: u32) \<le>s 0 \<longleftrightarrow> n = 0"
    using s by (simp_all add: word_sless_alt word_sle_eq)
  show "(of_nat n :: u32) \<noteq> - 1" 
  proof
    assume "(of_nat n :: u32) = - 1"
    then have "sint (of_nat n :: u32) = - 1" by simp
    with s show False by simp
  qed
  show "- (of_nat n :: u32) \<le>s 0"
    using s assms by (simp add: word_sle_eq sint_word_ariths(4) signed_take_bit_int_eq_self [of 31 "- int n"])
qed

lemma type_idx_roundtrip [simp]: "(ucast (ucast (t :: u16) :: u32) :: u16) = t"
  by (rule bit_word_eqI) (simp add: bit_simps)

text \<open>The iterator stands at a handler, with the handlers that follow still encoded.\<close>

abbreviation iterator_at :: "u16 \<Rightarrow> u32 \<Rightarrow> (u16 \<times> u32) list \<Rightarrow> u32 option \<Rightarrow> u8 list \<Rightarrow> CatchHandlerIterator" where
  "iterator_at t a hs ca data \<equiv> \<lparr>type_idx = t, handler_address = a, current_data = data,
     remaining_count = of_nat (length hs), catch_all = (ca \<noteq> None)\<rparr>"

lemma Next_handler:
  assumes "length (h # hs) < 2 ^ 31" "handlers_at (h # hs) ca data rest"
  obtains data2 where "handlers_at hs ca data2 rest" "Next (iterator_at t a (h # hs) ca data) = Inr (iterator_at (fst h) (snd h) hs ca data2)"
    "HasNext (iterator_at t a (h # hs) ca data)"
proof -
  obtain t' a' where h: "h = (t', a')" by (cases h)
  obtain t'' data1 data2 where data: "DecodeUnsignedLeb128 data = Inr (t'', data1)" "t' = ucast t''"
      "DecodeUnsignedLeb128 data1 = Inr (a', data2)" "handlers_at hs ca data2 rest"
    using assms(2) by (auto simp: h)
  have n: "0 <s (of_nat (length (h # hs)) :: u32)" "(of_nat (length (h # hs)) :: u32) \<noteq> - 1"
    using small_count [OF assms(1)] by simp_all
  have "Next (iterator_at t a (h # hs) ca data) = Inr (iterator_at (fst h) (snd h) hs ca data2)"
    using n(1) by (simp add: Next_def data(1-3) h del: of_nat_Suc) simp
  moreover have "HasNext (iterator_at t a (h # hs) ca data)" using n(2) by (simp add: HasNext_def del: of_nat_Suc)
  ultimately show thesis using data(4) that by blast
qed

lemma Next_catch_all: "handlers_at [] (Some b) data rest \<Longrightarrow> Next (iterator_at t a [] (Some b) data) = Inr (iterator_at kDexNoIndex16 b [] None rest)"
  by (simp add: Next_def)

lemma Init_data_first:
  assumes "handler_list_at hs ca data rest"
  obtains t a hs' ca' data' where "handler_list hs ca = (t, a) # handler_list hs' ca'" "length hs' < 2 ^ 31"
    "handlers_at hs' ca' data' rest" "Init_data data = Inr (iterator_at t a hs' ca' data')"
proof -
  let ?n = "of_nat (length hs) :: u32"
  obtain data' where dec: "DecodeSignedLeb128 data = Inr (if ca = None then ?n else - ?n, data')"
    and at: "handlers_at hs ca data' rest" and len: "length hs < 2 ^ 31" and some: "hs \<noteq> [] \<or> ca \<noteq> None"
    using assms unfolding handler_list_at_def by blast
  have count: "(if (if ca = None then ?n else - ?n) \<le>s 0 then - (if ca = None then ?n else - ?n) else (if ca = None then ?n else - ?n)) = ?n"
      "((if ca = None then ?n else - ?n) \<le>s 0) = (ca \<noteq> None)"
    using small_count [OF len] some by auto
  have init: "Init_data data = Next (iterator_at 0 (- 1) hs ca data')"
    by (simp only: Init_data_def dec rbind_Inr prod.case count empty_iterator_def CatchHandlerIterator.simps) (cases ca, simp_all)
  show thesis
  proof (cases hs)
    case Nil
    with some obtain a where ca: "ca = Some a" by auto
    with at Nil init Next_catch_all [of a data' rest] show thesis
      by (intro that [of kDexNoIndex16 a "[]" None rest]) (simp_all add: handler_list_def)
  next
    case (Cons h hs')
    with len at obtain data2 where "handlers_at hs' ca data2 rest" "Next (iterator_at 0 (- 1) hs ca data') = Inr (iterator_at (fst h) (snd h) hs' ca data2)"
      by (metis Next_handler)
    with init Cons len show thesis by (intro that [of "fst h" "snd h" hs' ca data2]) (simp_all add: handler_list_def)
  qed
qed

lemma find_catch_chooses:
  assumes "length hs < 2 ^ 31" "handlers_at hs ca data rest"
  shows "find_catch resolve assignable e (iterator_at t a hs ca data) w =
     Inr (choose_handler resolve assignable e ((t, a) # handler_list hs ca) w)"
  using assms
proof (induction hs arbitrary: t a w data)
  case Nil
  then show ?case
    by (cases ca) (simp_all add: find_catch.simps HasNext_def Next_def handler_list_def split: prod.split)
next
  case (Cons h hs)
  obtain data2 where h: "handlers_at hs ca data2 rest" "Next (iterator_at t a (h # hs) ca data) = Inr (iterator_at (fst h) (snd h) hs ca data2)"
      "HasNext (iterator_at t a (h # hs) ca data)"
    by (rule Next_handler [OF Cons.prems])
  have "find_catch resolve assignable e (iterator_at (fst h) (snd h) hs ca data2) w' =
     Inr (choose_handler resolve assignable e ((fst h, snd h) # handler_list hs ca) w')" for w'
    by (rule Cons.IH) (use Cons.prems(1) h(1) in simp_all)
  then show ?case
    using h(2,3) by (subst find_catch.simps)
      (simp add: handler_list_def split: prod.split del: of_nat_Suc find_catch.simps choose_handler.simps(2), simp split: prod.split)
qed

lemma Init_data_chooses:
  assumes "handler_list_at hs ca data rest"
  shows "rbind (Init_data data) (\<lambda>it. find_catch resolve assignable e it w) =
     Inr (choose_handler resolve assignable e (handler_list hs ca) w)"
proof -
  obtain t a hs' ca' data' where *: "handler_list hs ca = (t, a) # handler_list hs' ca'" "length hs' < 2 ^ 31"
    "handlers_at hs' ca' data' rest" "Init_data data = Inr (iterator_at t a hs' ca' data')"
    by (rule Init_data_first [OF assms])
  show ?thesis unfolding *(1,4) rbind_Inr by (rule find_catch_chooses [OF *(2,3)])
qed

lemma search_covering_try:
  assumes "tries_ok c" "\<And>ti. covering_try c a = Some ti \<Longrightarrow> \<exists>rest. handler_list_at (hs ti) (ca ti) (drop (unat (handler_off ti)) (handler_data c)) rest"
  shows "rbind (new_CatchHandlerIterator c a) (\<lambda>it. find_catch resolve assignable e it w) =
     Inr (case covering_try c a of None \<Rightarrow> (kDexNoIndex, w)
          | Some ti \<Rightarrow> choose_handler resolve assignable e (handler_list (hs ti) (ca ti)) w)"
proof (cases "covering_try c a")
  case None
  then show ?thesis
    by (simp add: iterator_of_covering_try [OF assms(1)] find_catch.simps HasNext_def empty_iterator_def)
next
  case (Some ti)
  from assms(2) [OF this] obtain rest where "handler_list_at (hs ti) (ca ti) (drop (unat (handler_off ti)) (handler_data c)) rest" ..
  with Some show ?thesis
    using Init_data_chooses by (simp add: iterator_of_covering_try [OF assms(1)] GetCatchHandlerData_def)
qed

section \<open>Encoded handlers\<close>

definition encode_handler :: "u16 \<times> u32 \<Rightarrow> u8 list" where
  "encode_handler h = unsigned_bytes (ucast (fst h)) @ unsigned_bytes (snd h)"

definition encode_all :: "u32 option \<Rightarrow> u8 list" where
  "encode_all ca = (case ca of None \<Rightarrow> [] | Some a \<Rightarrow> unsigned_bytes a)"

definition encode_handlers :: "(u16 \<times> u32) list \<Rightarrow> u32 option \<Rightarrow> u8 list" where
  "encode_handlers hs ca =
     signed_bytes (if ca = None then of_nat (length hs) else - of_nat (length hs)) @
     concat (map encode_handler hs) @ encode_all ca"

lemma encoded_handlers_at: "handlers_at hs ca (concat (map encode_handler hs) @ encode_all ca @ rest) rest"
proof (induction hs)
  case Nil
  show ?case by (cases ca) (simp_all add: encode_all_def decode_unsigned_bytes)
next
  case (Cons h hs)
  then show ?case by (cases h) (simp add: encode_handler_def decode_unsigned_bytes)
qed

lemma encoded_list_at:
  assumes "length hs < 2 ^ 31" "hs \<noteq> [] \<or> ca \<noteq> None"
  shows "handler_list_at hs ca (encode_handlers hs ca @ rest) rest"
  using assms encoded_handlers_at unfolding handler_list_at_def encode_handlers_def
  by (auto simp: decode_signed_bytes)

text \<open>C38: the search for a handler, from the try items in the file to the encoded handlers, ends
  without a trap for every address; it takes the handlers of the try item that covers the address,
  in the order in which they were encoded, and answers with the first whose class is loaded and
  covers the exception, with the catch-all handler otherwise, and with no handler outside of all
  try items.\<close>

theorem catch_dispatch:
  assumes "tries_ok c"
    and "\<forall>ti \<in> set (try_items c). \<exists>rest. drop (unat (handler_off ti)) (handler_data c) =
           encode_handlers (hs ti) (ca ti) @ rest \<and> length (hs ti) < 2 ^ 31 \<and> (hs ti \<noteq> [] \<or> ca ti \<noteq> None)"
  shows "rbind (new_CatchHandlerIterator c a) (\<lambda>it. find_catch resolve assignable e it w) =
     Inr (case covering_try c a of None \<Rightarrow> (kDexNoIndex, w)
          | Some ti \<Rightarrow> choose_handler resolve assignable e (handler_list (hs ti) (ca ti)) w)"
proof (rule search_covering_try [OF assms(1)])
  fix ti assume "covering_try c a = Some ti"
  then have "ti \<in> set (try_items c)" by (auto simp: covering_try_def find_Some_iff)
  with assms(2) show "\<exists>rest. handler_list_at (hs ti) (ca ti) (drop (unat (handler_off ti)) (handler_data c)) rest"
    by (metis encoded_list_at)
qed

text \<open>A method with two try items: pcs 2 to 5 catch the class 7 at 20 and everything else at 30,
  pcs 8 and 9 catch the class 9 at 40. Classes are resolved to their index, and the exception is
  an instance of class 9.\<close>

definition sample_tries :: "TryItem list" where
  "sample_tries = [\<lparr>start_addr = 2, insn_count = 4, handler_off = 1\<rparr>, \<lparr>start_addr = 8, insn_count = 2, handler_off = 5\<rparr>]"

definition sample_code :: CodeItem where
  "sample_code = \<lparr>registers_size = 2, ins_size = 1, outs_size = 0, insns = replicate 64 0, try_items = sample_tries,
     handler_data = 2 # encode_handlers [(7, 20)] (Some 30) @ encode_handlers [(9, 40)] None\<rparr>"

definition sample_handlers :: "TryItem \<Rightarrow> (u16 \<times> u32) list \<times> u32 option" where
  "sample_handlers ti = (if start_addr ti = 2 then ([(7, 20)], Some 30) else ([(9, 40)], None))"

theorem catch_dispatch_witness:
  "map (\<lambda>a. rbind (new_CatchHandlerIterator sample_code a)
      (\<lambda>it. find_catch (\<lambda>t w. (ucast t, w)) (\<lambda>_ k e. k = e) 9 it ())) [1, 2, 5, 6, 9] =
   map Inr [(kDexNoIndex, ()), (30, ()), (30, ()), (kDexNoIndex, ()), (40, ())]"
proof -
  have ok: "tries_ok sample_code"
    by (simp add: tries_ok_def sample_code_def sample_tries_def)
  have enc: "encode_handlers [(7, 20)] (Some 30) = [0x7F, 7, 20, 30]" "encode_handlers [(9, 40)] None = [1, 9, 40]"
    by code_simp+
  have data: "\<forall>ti \<in> set (try_items sample_code). \<exists>rest. drop (unat (handler_off ti)) (handler_data sample_code) =
      encode_handlers (fst (sample_handlers ti)) (snd (sample_handlers ti)) @ rest \<and>
      length (fst (sample_handlers ti)) < 2 ^ 31 \<and> (fst (sample_handlers ti) \<noteq> [] \<or> snd (sample_handlers ti) \<noteq> None)"
    by (simp add: sample_code_def sample_tries_def sample_handlers_def enc)
  show ?thesis
    unfolding list.map by (simp only: catch_dispatch [OF ok data])
      (simp add: covering_try_def sample_code_def sample_tries_def try_covers_def sample_handlers_def handler_list_def, code_simp)
qed

end
