(* ===== verification/Dex_File_Verifier.thy ===== *)
theory Dex_File_Verifier
  imports Dex_Catch "HOL-Library.Sublist"
begin

text \<open>
  The check of code items in a dex file (runtime/dex\_file\_verifier.cc): the sizes, the try items and
  the encoded catch handlers. A check answers with True or False, a trap is a read outside of the
  memory of the code item; the text of the failure is left out.
\<close>

section \<open>Checks\<close>

text \<open>The part of the header of the file and of the verifier the checks use.\<close>

record Header =
  string_ids_size :: u32
  type_ids_size :: u32
  field_ids_size :: u32
  method_ids_size :: u32

record DexFileVerifier =
  begin_addr :: ptr
  file_size :: u32
  header :: Header

definition CheckListSize :: "DexFileVerifier \<Rightarrow> ptr \<Rightarrow> u32 \<Rightarrow> u32 \<Rightarrow> bool res" where
  "CheckListSize v start count elem_size =
     rbind (check (elem_size \<noteq> 0) CheckFailed) (\<lambda>_.
     let available_bytes_till_end_of_mem = (0 - 1) - start;
         max_count = available_bytes_till_end_of_mem div elem_size
     in if max_count < count then Inr False
        else let range_end = start + count * elem_size; file_end = begin_addr v + file_size v
             in Inr (\<not> (start < begin_addr v \<or> range_end > file_end)))"

definition CheckIndex :: "u32 \<Rightarrow> u32 \<Rightarrow> bool" where
  "CheckIndex field limit \<longleftrightarrow> \<not> field \<ge> limit"

section \<open>Catch handlers\<close>

definition insns_size_in_code_units :: "CodeItem \<Rightarrow> u32" where
  "insns_size_in_code_units c = of_nat (length (insns c))"

text \<open>The handlers of one list, without the catch-all handler.\<close>

fun check_handlers :: "DexFileVerifier \<Rightarrow> u32 \<Rightarrow> nat \<Rightarrow> u8 list \<Rightarrow> (bool \<times> u8 list) res" where
  "check_handlers v insns_size 0 ptr = Inr (True, ptr)"
| "check_handlers v insns_size (Suc n) ptr =
     rbind (DecodeUnsignedLeb128 ptr) (\<lambda>(type_idx, ptr).
     if \<not> CheckIndex type_idx (type_ids_size (header v)) then Inr (False, ptr)
     else rbind (DecodeUnsignedLeb128 ptr) (\<lambda>(addr, ptr).
          if addr \<ge> insns_size then Inr (False, ptr) else check_handlers v insns_size n ptr))"

definition check_catch_all :: "u32 \<Rightarrow> bool \<Rightarrow> u8 list \<Rightarrow> (bool \<times> u8 list) res" where
  "check_catch_all insns_size all_too ptr =
     (if all_too then rbind (DecodeUnsignedLeb128 ptr) (\<lambda>(addr, ptr). Inr (\<not> addr \<ge> insns_size, ptr)) else Inr (True, ptr))"

text \<open>One list of handlers: the sign of the encoded size tells whether there is a catch-all handler.\<close>

definition check_handler_list :: "DexFileVerifier \<Rightarrow> CodeItem \<Rightarrow> u8 list \<Rightarrow> (bool \<times> u8 list) res" where
  "check_handler_list v c ptr =
     rbind (DecodeSignedLeb128 ptr) (\<lambda>(size, ptr).
     if size <s - 65536 \<or> 65536 <s size then Inr (False, ptr)
     else
       let catch_all = size \<le>s 0; size = (if catch_all then - size else size); insns_size = insns_size_in_code_units c
       in rbind (check_handlers v insns_size (unat size) ptr) (\<lambda>(ok, ptr).
          if \<not> ok then Inr (False, ptr) else check_catch_all insns_size catch_all ptr))"

text \<open>The offsets of the lists, or None when a check failed.\<close>

fun CheckAndGetHandlerOffsets :: "DexFileVerifier \<Rightarrow> CodeItem \<Rightarrow> nat \<Rightarrow> u8 list \<Rightarrow> (u32 list option \<times> u8 list) res" where
  "CheckAndGetHandlerOffsets v c 0 ptr = Inr (Some [], ptr)"
| "CheckAndGetHandlerOffsets v c (Suc handlers_size) ptr =
     (let offset = of_nat (length (handler_data c) - length ptr) in
      rbind (check_handler_list v c ptr) (\<lambda>(ok, ptr).
      if \<not> ok then Inr (None, ptr)
      else rbind (CheckAndGetHandlerOffsets v c handlers_size ptr) (\<lambda>(offsets, ptr).
           Inr (map_option (Cons offset) offsets, ptr))))"

section \<open>Code items\<close>

fun check_tries :: "u32 \<Rightarrow> u32 list \<Rightarrow> u32 \<Rightarrow> TryItem list \<Rightarrow> bool" where
  "check_tries insns_size handler_offsets last_addr [] \<longleftrightarrow> True"
| "check_tries insns_size handler_offsets last_addr (ti # tis) \<longleftrightarrow>
     (if start_addr ti < last_addr then False
      else if start_addr ti \<ge> insns_size then False
      else if ucast (handler_off ti) \<notin> set handler_offsets then False
      else let last_addr = start_addr ti + ucast (insn_count ti) in
        if last_addr > insns_size then False else check_tries insns_size handler_offsets last_addr tis)"

text \<open>A code item at the address \<open>p\<close>: the header, the instructions, the try items on the next
  multiple of four, and the handlers. \<open>padding\<close> is the code unit behind the instructions. The
  answer is the address behind the code item, or None when a check failed.\<close>

definition sizeof_CodeItem :: u32 where "sizeof_CodeItem = 20"
definition sizeof_TryItem :: u32 where "sizeof_TryItem = 8"

definition insns_addr :: "ptr \<Rightarrow> ptr" where
  "insns_addr p = p + 16"

definition insns_end :: "ptr \<Rightarrow> CodeItem \<Rightarrow> ptr" where
  "insns_end p c = insns_addr p + 2 * insns_size_in_code_units c"

definition try_items_addr :: "ptr \<Rightarrow> CodeItem \<Rightarrow> ptr" where
  "try_items_addr p c = (insns_end p c + 3) AND NOT 3"

definition handlers_addr :: "ptr \<Rightarrow> CodeItem \<Rightarrow> ptr" where
  "handlers_addr p c = try_items_addr p c + sizeof_TryItem * of_nat (length (try_items c))"

definition guard_true :: "bool res \<Rightarrow> 'a option res \<Rightarrow> 'a option res" where
  "guard_true b k = rbind b (\<lambda>ok. if ok then k else Inr None)"

definition CheckIntraCodeItem :: "DexFileVerifier \<Rightarrow> ptr \<Rightarrow> u16 \<Rightarrow> CodeItem \<Rightarrow> ptr option res" where
  "CheckIntraCodeItem v p padding c =
     guard_true (CheckListSize v p 1 sizeof_CodeItem) (
     if ins_size c > registers_size c then Inr None
     else if outs_size c > 5 \<and> outs_size c > registers_size c then Inr None
     else
       guard_true (CheckListSize v (insns_addr p) (insns_size_in_code_units c) 2) (
       if try_items c = [] then Inr (Some (insns_end p c))
       else if insns_end p c AND 3 \<noteq> 0 \<and> padding \<noteq> 0 then Inr None
       else
         rbind (DecodeUnsignedLeb128 (GetCatchHandlerData c 0)) (\<lambda>(handlers_size, ptr).
         guard_true (CheckListSize v (try_items_addr p c) (of_nat (length (try_items c))) sizeof_TryItem) (
         if handlers_size = 0 \<or> handlers_size \<ge> 65536 then Inr None
         else
           rbind (CheckAndGetHandlerOffsets v c (unat handlers_size) ptr) (\<lambda>(offsets, ptr).
           case offsets of
             None \<Rightarrow> Inr None
           | Some handler_offsets \<Rightarrow>
               Inr (if check_tries (insns_size_in_code_units c) handler_offsets 0 (try_items c)
                    then Some (handlers_addr p c + of_nat (length (handler_data c) - length ptr)) else None))))))"

section \<open>What the check guarantees\<close>

text \<open>The sizes in the file are 16 and 32 bits wide.\<close>

definition code_item_fits :: "CodeItem \<Rightarrow> bool" where
  "code_item_fits c \<longleftrightarrow> length (insns c) < 2 ^ 32 \<and> length (handler_data c) < 2 ^ 32"

lemma guard_trueE: "guard_true b k = Inr (Some x) \<Longrightarrow> (b = Inr True \<Longrightarrow> k = Inr (Some x) \<Longrightarrow> P) \<Longrightarrow> P"
  by (auto simp: guard_true_def rbind_eq_Inr split: if_splits)

lemma next_byte_suffix: "next_byte ptr = Inr (b, ptr') \<Longrightarrow> suffix ptr' ptr"
  by (cases ptr) (auto simp: suffix_def)

lemma decode_suffix:
  "DecodeUnsignedLeb128 ptr = Inr (v, ptr') \<Longrightarrow> suffix ptr' ptr"
  "DecodeSignedLeb128 ptr = Inr (v, ptr') \<Longrightarrow> suffix ptr' ptr"
  by (auto simp: DecodeUnsignedLeb128_def DecodeSignedLeb128_def Let_def elim!: rbindE split: if_split_asm prod.split_asm
      dest!: next_byte_suffix) (meson suffix_order.trans)+

lemma check_handlers_at:
  assumes "check_handlers v n k ptr = Inr (True, ptr')"
  shows "\<exists>hs. length hs = k \<and> (\<forall>h \<in> set hs. snd h < n) \<and> suffix ptr' ptr \<and>
     (\<forall>ca rest. handlers_at [] ca ptr' rest \<longrightarrow> handlers_at hs ca ptr rest)"
  using assms
proof (induction k arbitrary: ptr)
  case 0
  then show ?case by (intro exI [of _ "[]"]) simp
next
  case (Suc k)
  then obtain t ptr1 a ptr2 where *: "DecodeUnsignedLeb128 ptr = Inr (t, ptr1)" "DecodeUnsignedLeb128 ptr1 = Inr (a, ptr2)"
      "a < n" "check_handlers v n k ptr2 = Inr (True, ptr')"
    by (auto elim!: rbindE split: if_split_asm)
  with Suc.IH obtain hs where hs: "length hs = k" "\<forall>h \<in> set hs. snd h < n" "suffix ptr' ptr2"
      "\<forall>ca rest. handlers_at [] ca ptr' rest \<longrightarrow> handlers_at hs ca ptr2 rest" by blast
  have "suffix ptr' ptr" using hs(3) decode_suffix(1) [OF *(1)] decode_suffix(1) [OF *(2)] by (blast intro: suffix_order.trans)
  with * hs show ?case by (intro exI [of _ "(ucast t, a) # hs"]) auto
qed

lemma handler_count:
  assumes "\<not> (n :: u32) <s - 65536" "\<not> 65536 <s n"
  shows "n \<le>s 0 \<Longrightarrow> unat (- n) < 2 ^ 31" "\<not> n \<le>s 0 \<Longrightarrow> unat n < 2 ^ 31 \<and> unat n \<noteq> 0"
proof -
  have bounds: "- 65536 \<le> sint n" "sint n \<le> 65536"
    using assms by (simp_all add: word_sless_alt)
  have neg: "- n = word_of_int (- sint n)" and pos: "n = word_of_int (sint n)" by simp_all
  show "unat (- n) < 2 ^ 31" if "n \<le>s 0"
  proof -
    have "sint n \<le> 0" using that by (simp add: word_sle_eq)
    then have "uint (- n) = - sint n" using bounds by (subst neg) (simp only: uint_word_of_int, simp)
    then show ?thesis using bounds by (simp only: unat_eq_nat_uint) simp
  qed
  show "unat n < 2 ^ 31 \<and> unat n \<noteq> 0" if "\<not> n \<le>s 0"
  proof -
    have "0 < sint n" using that by (simp add: word_sle_eq)
    then have "uint n = sint n" using bounds by (subst pos) (simp only: uint_word_of_int, simp)
    then show ?thesis using bounds \<open>0 < sint n\<close> by (simp only: unat_eq_nat_uint) simp
  qed
qed

lemma check_handler_list_at:
  assumes "check_handler_list v c ptr = Inr (True, ptr')"
  shows "suffix ptr' ptr \<and> (\<exists>hs ca. handler_list_at hs ca ptr ptr' \<and> (\<forall>h \<in> set (handler_list hs ca). snd h < insns_size_in_code_units c))"
proof -
  let ?n = "insns_size_in_code_units c"
  obtain size ptr1 ptr2 where *: "DecodeSignedLeb128 ptr = Inr (size, ptr1)" "\<not> size <s - 65536" "\<not> 65536 <s size"
      "check_handlers v ?n (unat (if size \<le>s 0 then - size else size)) ptr1 = Inr (True, ptr2)"
      "check_catch_all ?n (size \<le>s 0) ptr2 = Inr (True, ptr')"
    using assms by (auto simp: check_handler_list_def Let_def elim!: rbindE split: if_split_asm)
  obtain hs where hs: "length hs = unat (if size \<le>s 0 then - size else size)" "\<forall>h \<in> set hs. snd h < ?n" "suffix ptr2 ptr1"
      "\<And>ca rest. handlers_at [] ca ptr2 rest \<Longrightarrow> handlers_at hs ca ptr1 rest"
    using check_handlers_at [OF *(4)] by blast
  note count = handler_count [OF *(2,3)]
  note suffixes = decode_suffix(2) [OF *(1)] hs(3)
  show ?thesis
  proof (cases "size \<le>s 0")
    case True
    with *(5) obtain a where a: "DecodeUnsignedLeb128 ptr2 = Inr (a, ptr')" "a < ?n"
      by (auto simp: check_catch_all_def elim!: rbindE)
    have "handler_list_at hs (Some a) ptr ptr'"
      using hs(1) hs(4) [of "Some a" ptr'] a(1) *(1) count(1) True by (auto simp: handler_list_at_def)
    moreover have "\<forall>h \<in> set (handler_list hs (Some a)). snd h < ?n" using hs(2) a(2) by (auto simp: handler_list_def)
    moreover have "suffix ptr' ptr" using suffixes decode_suffix(1) [OF a(1)] by (blast intro: suffix_order.trans)
    ultimately show ?thesis by blast
  next
    case False
    with *(5) have "ptr' = ptr2" by (simp add: check_catch_all_def)
    moreover have "handler_list_at hs None ptr ptr2"
      using hs(1) hs(4) [of None ptr2] *(1) count(2) False by (auto simp: handler_list_at_def)
    moreover have "\<forall>h \<in> set (handler_list hs None). snd h < ?n" using hs(2) by (auto simp: handler_list_def)
    ultimately show ?thesis using suffixes by (blast intro: suffix_order.trans)
  qed
qed

lemma suffix_drop: "suffix ptr xs \<Longrightarrow> drop (length xs - length ptr) xs = ptr"
  by (auto simp: suffix_def)

lemma handler_offsets_at:
  assumes "CheckAndGetHandlerOffsets v c k ptr = Inr (Some offsets, ptr')" "suffix ptr (handler_data c)" "length (handler_data c) < 2 ^ 32"
    and "off \<in> set offsets"
  shows "\<exists>hs ca rest. handler_list_at hs ca (drop (unat off) (handler_data c)) rest \<and>
     (\<forall>h \<in> set (handler_list hs ca). snd h < insns_size_in_code_units c)"
  using assms
proof (induction k arbitrary: ptr offsets)
  case 0
  then show ?case by simp
next
  case (Suc k)
  let ?o = "length (handler_data c) - length ptr"
  obtain ptr1 offsets1 where *: "check_handler_list v c ptr = Inr (True, ptr1)"
      "CheckAndGetHandlerOffsets v c k ptr1 = Inr (Some offsets1, ptr')" "offsets = of_nat ?o # offsets1"
    using Suc.prems(1) by (auto simp: Let_def elim!: rbindE split: if_split_asm)
  have "unat (of_nat ?o :: u32) = ?o" using Suc.prems(3) by (simp add: unsigned_of_nat take_bit_nat_eq_self)
  then have here: "drop (unat (of_nat ?o :: u32)) (handler_data c) = ptr" using suffix_drop [OF Suc.prems(2)] by simp
  show ?case
  proof (cases "off = of_nat ?o")
    case True
    with check_handler_list_at [OF *(1)] here show ?thesis by metis
  next
    case False
    with *(3) Suc.prems(4) have "off \<in> set offsets1" by simp
    moreover have "suffix ptr1 (handler_data c)"
      using check_handler_list_at [OF *(1)] Suc.prems(2) by (blast intro: suffix_order.trans)
    ultimately show ?thesis using Suc.IH [OF *(2)] Suc.prems(3) by blast
  qed
qed

lemma check_tries_ordered:
  assumes "check_tries n offsets last_addr tis" "unat n < 2 ^ 31"
  shows "sorted_wrt (\<lambda>s t. try_end s \<le> unat (start_addr t)) tis \<and>
    (\<forall>t \<in> set tis. unat last_addr \<le> unat (start_addr t) \<and> unat (start_addr t) < unat n \<and> try_end t \<le> unat n \<and>
       ucast (handler_off t) \<in> set offsets)"
  using assms(1)
proof (induction tis arbitrary: last_addr)
  case Nil
  then show ?case by simp
next
  case (Cons t tis)
  let ?last = "start_addr t + ucast (insn_count t)"
  have t: "last_addr \<le> start_addr t" "start_addr t < n" "ucast (handler_off t) \<in> set offsets" "?last \<le> n"
    and rest: "check_tries n offsets ?last tis"
    using Cons.prems by (auto simp: Let_def not_less not_le split: if_split_asm)
  have "try_end t < 2 ^ 32"
    using t(2) assms(2) unsigned_less [of "insn_count t", where 'a = nat] by (simp add: word_less_nat_alt)
  then have "unat ?last = try_end t" by (rule try_end_word)
  with Cons.IH [OF rest] t show ?case
    by (fastforce simp: word_le_nat_alt word_less_nat_alt)
qed

lemma CheckListSize_count: "CheckListSize v start n 2 = Inr True \<Longrightarrow> unat n < 2 ^ 31"
proof -
  assume "CheckListSize v start n 2 = Inr True"
  then have "n \<le> (- 1 - start) div 2"
    by (auto simp: CheckListSize_def check_def Let_def not_less split: if_split_asm)
  then have "unat n \<le> unat ((- 1 - start) div 2)" by (simp add: word_le_nat_alt)
  also have "\<dots> < 2 ^ 31" using unsigned_less [of "- 1 - start", where 'a = nat] by (simp add: unat_div)
  finally show ?thesis .
qed

lemma unat_off [simp]: "unat (ucast (x :: u16) :: u32) = unat x"
proof -
  have "unat x < 2 ^ 32" using unsigned_less [of x, where 'a = nat] by simp
  then show ?thesis by (simp add: unsigned_ucast_eq take_bit_nat_eq_self)
qed

text \<open>The outcome of a successful check of a code item with try items.\<close>

lemma checked_tries:
  assumes "CheckIntraCodeItem v p padding c = Inr (Some q)" "code_item_fits c"
  shows "unat (insns_size_in_code_units c) = length (insns c)" "tries_ok c"
    and "ti \<in> set (try_items c) \<Longrightarrow> try_end ti \<le> length (insns c) \<and>
       (\<exists>hs ca rest. handler_list_at hs ca (drop (unat (handler_off ti)) (handler_data c)) rest \<and>
          (\<forall>h \<in> set (handler_list hs ca). unat (snd h) < length (insns c)))"
proof -
  have n: "unat (insns_size_in_code_units c) = length (insns c)"
    using assms(2) by (simp add: insns_size_in_code_units_def code_item_fits_def unsigned_of_nat take_bit_nat_eq_self)
  then show "unat (insns_size_in_code_units c) = length (insns c)" .
  have small: "unat (insns_size_in_code_units c) < 2 ^ 31"
    using assms(1) by (auto simp: CheckIntraCodeItem_def elim!: guard_trueE split: if_split_asm dest: CheckListSize_count)
  have "tries_ok c \<and> (ti \<in> set (try_items c) \<longrightarrow> try_end ti \<le> length (insns c) \<and>
       (\<exists>hs ca rest. handler_list_at hs ca (drop (unat (handler_off ti)) (handler_data c)) rest \<and>
          (\<forall>h \<in> set (handler_list hs ca). unat (snd h) < length (insns c))))"
  proof (cases "try_items c = []")
    case True
    then show ?thesis by (simp add: tries_ok_def)
  next
    case False
    obtain k ptr offsets ptr' where dec: "DecodeUnsignedLeb128 (handler_data c) = Inr (k, ptr)"
      and offs: "CheckAndGetHandlerOffsets v c (unat k) ptr = Inr (Some offsets, ptr')"
      and tries: "check_tries (insns_size_in_code_units c) offsets 0 (try_items c)"
      using assms(1) False by (auto simp: CheckIntraCodeItem_def GetCatchHandlerData_def elim!: guard_trueE rbindE
          split: if_split_asm option.split_asm)
    note ordered = check_tries_ordered [OF tries small, unfolded n]
    have "\<exists>hs ca rest. handler_list_at hs ca (drop (unat (handler_off ti)) (handler_data c)) rest \<and>
          (\<forall>h \<in> set (handler_list hs ca). unat (snd h) < length (insns c))" if "ti \<in> set (try_items c)"
      using handler_offsets_at [OF offs decode_suffix(1) [OF dec], of "ucast (handler_off ti)"] ordered that assms(2) n
      by (auto simp: code_item_fits_def word_less_nat_alt)
    moreover have "tries_ok c"
      using ordered small n by (auto simp: tries_ok_def)
    ultimately show ?thesis using ordered by blast
  qed
  then show "tries_ok c" and "ti \<in> set (try_items c) \<Longrightarrow> try_end ti \<le> length (insns c) \<and>
       (\<exists>hs ca rest. handler_list_at hs ca (drop (unat (handler_off ti)) (handler_data c)) rest \<and>
          (\<forall>h \<in> set (handler_list hs ca). unat (snd h) < length (insns c)))" by blast+
qed

lemma choose_handler_address:
  "choose_handler resolve assignable e hs w = (found, w') \<Longrightarrow> found = kDexNoIndex \<or> found \<in> snd ` set hs"
  by (induction resolve assignable e hs w rule: choose_handler.induct) (auto split: if_splits prod.splits)

text \<open>C39: once the dex file verifier has accepted a code item, the search for the handler of an
  exception never leaves the data of the code item: it ends without a trap for every address,
  class and type check, and a handler it finds is an address inside of the instructions, found for
  an address that a try item covers.\<close>

theorem checked_search:
  assumes "CheckIntraCodeItem v p padding c = Inr (Some q)" "code_item_fits c"
  shows "\<exists>found w'. rbind (new_CatchHandlerIterator c a) (\<lambda>it. find_catch resolve assignable e it w) = Inr (found, w') \<and>
     (found \<noteq> kDexNoIndex \<longrightarrow> unat found < length (insns c) \<and> (\<exists>ti \<in> set (try_items c). try_covers a ti))"
proof (cases "covering_try c a")
  case None
  then show ?thesis using search_covering_try [OF checked_tries(2) [OF assms], of a undefined undefined resolve assignable e w] by simp
next
  case (Some ti)
  then have ti: "ti \<in> set (try_items c)" "try_covers a ti" by (auto simp: covering_try_def find_Some_iff)
  from checked_tries(3) [OF assms ti(1)] obtain hs ca rest where
      at: "handler_list_at hs ca (drop (unat (handler_off ti)) (handler_data c)) rest"
    and addr: "\<forall>h \<in> set (handler_list hs ca). unat (snd h) < length (insns c)" by blast
  obtain found w' where found: "choose_handler resolve assignable e (handler_list hs ca) w = (found, w')" by fastforce
  have "rbind (new_CatchHandlerIterator c a) (\<lambda>it. find_catch resolve assignable e it w) = Inr (found, w')"
    using search_covering_try [OF checked_tries(2) [OF assms], of a "\<lambda>_. hs" "\<lambda>_. ca" resolve assignable e w] at Some found by auto
  with choose_handler_address [OF found] addr ti show ?thesis by auto
qed

definition sample_verifier :: DexFileVerifier where
  "sample_verifier = \<lparr>begin_addr = 0x1000, file_size = 0x1000,
     header = \<lparr>string_ids_size = 10, type_ids_size = 10, field_ids_size = 10, method_ids_size = 10\<rparr>\<rparr>"

theorem checked_search_witness:
  "\<exists>found w'. rbind (new_CatchHandlerIterator sample_code 5) (\<lambda>it. find_catch (\<lambda>t w. (ucast t, w)) (\<lambda>_ k e. k = e) 9 it ()) =
       Inr (found, w') \<and>
     (found \<noteq> kDexNoIndex \<longrightarrow> unat found < 64 \<and> (\<exists>ti \<in> set sample_tries. try_covers 5 ti))"
proof -
  have enc: "encode_handlers [(7, 20)] (Some 30) = [0x7F, 7, 20, 30]" "encode_handlers [(9, 40)] None = [1, 9, 40]"
    by code_simp+
  let ?hd = "[2, 0x7F, 7, 20, 30, 1, 9, 40] :: u8 list"
  have data: "handler_data sample_code = ?hd" by (simp add: sample_code_def enc)
  have n: "insns_size_in_code_units sample_code = 64" by (simp add: insns_size_in_code_units_def sample_code_def)
  have sizes: "CheckListSize sample_verifier 0x1100 1 sizeof_CodeItem = Inr True"
    "CheckListSize sample_verifier (insns_addr 0x1100) 64 2 = Inr True"
    "CheckListSize sample_verifier 0x1190 2 sizeof_TryItem = Inr True" by code_simp+
  have addr: "insns_end 0x1100 sample_code = 0x1190" "try_items_addr 0x1100 sample_code = 0x1190"
    by (simp_all add: insns_end_def insns_addr_def try_items_addr_def n)
  have dec: "DecodeUnsignedLeb128 ?hd = Inr (2, tl ?hd)" "DecodeSignedLeb128 (tl ?hd) = Inr (- 1, drop 2 ?hd)"
     "DecodeUnsignedLeb128 (drop 2 ?hd) = Inr (7, drop 3 ?hd)" "DecodeUnsignedLeb128 (drop 3 ?hd) = Inr (20, drop 4 ?hd)"
     "DecodeUnsignedLeb128 (drop 4 ?hd) = Inr (30, drop 5 ?hd)" "DecodeSignedLeb128 (drop 5 ?hd) = Inr (1, drop 6 ?hd)"
     "DecodeUnsignedLeb128 (drop 6 ?hd) = Inr (9, drop 7 ?hd)" "DecodeUnsignedLeb128 (drop 7 ?hd) = Inr (40, drop 8 ?hd)"
    by code_simp+
  have "CheckAndGetHandlerOffsets sample_verifier sample_code (Suc (Suc 0)) (tl ?hd) = Inr (Some [1, 5], [])"
    using dec by (simp add: check_handler_list_def n data check_catch_all_def CheckIndex_def sample_verifier_def
      word_sless_alt word_sle_eq Let_def)
  then have offsets: "CheckAndGetHandlerOffsets sample_verifier sample_code 2 (tl ?hd) = Inr (Some [1, 5], [])"
    by (simp only: numeral_2_eq_2)
  have item: "try_items sample_code = sample_tries" "length sample_tries = 2" "sample_tries \<noteq> []" "ins_size sample_code = 1"
    "outs_size sample_code = 0" "registers_size sample_code = 2" "check_tries 64 [1, 5] 0 sample_tries"
    by (simp_all add: sample_code_def sample_tries_def Let_def)
  have ok: "CheckIntraCodeItem sample_verifier 0x1100 0 sample_code = Inr (Some 0x11a8)"
    using dec(1) sizes offsets
    by (simp add: CheckIntraCodeItem_def guard_true_def n data addr item GetCatchHandlerData_def handlers_addr_def sizeof_TryItem_def)
  have fits: "code_item_fits sample_code" by (simp add: code_item_fits_def data) (simp add: sample_code_def)
  have len: "length (insns sample_code) = 64" by (simp add: sample_code_def)
  from checked_search [OF ok fits, where a = 5 and resolve = "\<lambda>t w. (ucast t, w)" and assignable = "\<lambda>_ k e. k = e" and e = 9 and w = "()"]
  show ?thesis unfolding item len .
qed

end
