(* ===== verification/Dex_Opcodes.thy ===== *)
theory Dex_Opcodes
  imports Art_Prelude
begin

text \<open>
  The instruction set of dex code (runtime/dex\_instruction\_list.h and the tables of
  runtime/dex\_instruction.cc): for every opcode its name, its format, its flags and its
  verification flags. The two columns of the list that the runtime expands nowhere are left out.
\<close>

section \<open>Formats and flags\<close>

text \<open>In the order of the enumeration, which the size table relies on.\<close>

datatype Format =
    k10x | k12x | k11n | k11x | k10t | k20t | k22x | k21t | k21s | k21h | k21c | k23x | k22b | k22t
  | k22s | k22c | k32x | k30t | k31t | k31i | k31c | k35c | k3rc | k51l

definition format_rank :: "Format \<Rightarrow> nat" where
  "format_rank f = (case f of
       k10x \<Rightarrow> 0 | k12x \<Rightarrow> 1 | k11n \<Rightarrow> 2 | k11x \<Rightarrow> 3 | k10t \<Rightarrow> 4 | k20t \<Rightarrow> 5 | k22x \<Rightarrow> 6 | k21t \<Rightarrow> 7
     | k21s \<Rightarrow> 8 | k21h \<Rightarrow> 9 | k21c \<Rightarrow> 10 | k23x \<Rightarrow> 11 | k22b \<Rightarrow> 12 | k22t \<Rightarrow> 13 | k22s \<Rightarrow> 14
     | k22c \<Rightarrow> 15 | k32x \<Rightarrow> 16 | k30t \<Rightarrow> 17 | k31t \<Rightarrow> 18 | k31i \<Rightarrow> 19 | k31c \<Rightarrow> 20 | k35c \<Rightarrow> 21
     | k3rc \<Rightarrow> 22 | k51l \<Rightarrow> 23)"

lemma format_rank_inject: "format_rank a = format_rank b \<longleftrightarrow> a = b"
  by (cases a; cases b) (simp_all add: format_rank_def)

instantiation Format :: linorder
begin

definition less_eq_Format :: "Format \<Rightarrow> Format \<Rightarrow> bool" where
  "a \<le> b \<longleftrightarrow> format_rank a \<le> format_rank b"

definition less_Format :: "Format \<Rightarrow> Format \<Rightarrow> bool" where
  "a < b \<longleftrightarrow> format_rank a < format_rank b"

instance
  by standard (auto simp: less_eq_Format_def less_Format_def format_rank_inject)

end

text \<open>The flags of an opcode and what the verifier checks of it.\<close>

abbreviation (input) kBranch :: u32 where "kBranch \<equiv> 0x1"
abbreviation (input) kContinue :: u32 where "kContinue \<equiv> 0x2"
abbreviation (input) kSwitch :: u32 where "kSwitch \<equiv> 0x4"
abbreviation (input) kThrow :: u32 where "kThrow \<equiv> 0x8"
abbreviation (input) kReturn :: u32 where "kReturn \<equiv> 0x10"
abbreviation (input) kInvoke :: u32 where "kInvoke \<equiv> 0x20"
abbreviation (input) kUnconditional :: u32 where "kUnconditional \<equiv> 0x40"
abbreviation (input) kAdd :: u32 where "kAdd \<equiv> 0x80"
abbreviation (input) kSubtract :: u32 where "kSubtract \<equiv> 0x100"
abbreviation (input) kMultiply :: u32 where "kMultiply \<equiv> 0x200"
abbreviation (input) kDivide :: u32 where "kDivide \<equiv> 0x400"
abbreviation (input) kRemainder :: u32 where "kRemainder \<equiv> 0x800"
abbreviation (input) kAnd :: u32 where "kAnd \<equiv> 0x1000"
abbreviation (input) kOr :: u32 where "kOr \<equiv> 0x2000"
abbreviation (input) kXor :: u32 where "kXor \<equiv> 0x4000"
abbreviation (input) kShl :: u32 where "kShl \<equiv> 0x8000"
abbreviation (input) kShr :: u32 where "kShr \<equiv> 0x10000"
abbreviation (input) kUshr :: u32 where "kUshr \<equiv> 0x20000"
abbreviation (input) kCast :: u32 where "kCast \<equiv> 0x40000"
abbreviation (input) kStore :: u32 where "kStore \<equiv> 0x80000"
abbreviation (input) kLoad :: u32 where "kLoad \<equiv> 0x100000"
abbreviation (input) kClobber :: u32 where "kClobber \<equiv> 0x200000"
abbreviation (input) kRegCFieldOrConstant :: u32 where "kRegCFieldOrConstant \<equiv> 0x400000"
abbreviation (input) kRegBFieldOrConstant :: u32 where "kRegBFieldOrConstant \<equiv> 0x800000"
abbreviation (input) kVerifyNone :: u32 where "kVerifyNone \<equiv> 0x0"
abbreviation (input) kVerifyRegA :: u32 where "kVerifyRegA \<equiv> 0x1"
abbreviation (input) kVerifyRegAWide :: u32 where "kVerifyRegAWide \<equiv> 0x2"
abbreviation (input) kVerifyRegB :: u32 where "kVerifyRegB \<equiv> 0x4"
abbreviation (input) kVerifyRegBField :: u32 where "kVerifyRegBField \<equiv> 0x8"
abbreviation (input) kVerifyRegBMethod :: u32 where "kVerifyRegBMethod \<equiv> 0x10"
abbreviation (input) kVerifyRegBNewInstance :: u32 where "kVerifyRegBNewInstance \<equiv> 0x20"
abbreviation (input) kVerifyRegBString :: u32 where "kVerifyRegBString \<equiv> 0x40"
abbreviation (input) kVerifyRegBType :: u32 where "kVerifyRegBType \<equiv> 0x80"
abbreviation (input) kVerifyRegBWide :: u32 where "kVerifyRegBWide \<equiv> 0x100"
abbreviation (input) kVerifyRegC :: u32 where "kVerifyRegC \<equiv> 0x200"
abbreviation (input) kVerifyRegCField :: u32 where "kVerifyRegCField \<equiv> 0x400"
abbreviation (input) kVerifyRegCNewArray :: u32 where "kVerifyRegCNewArray \<equiv> 0x800"
abbreviation (input) kVerifyRegCType :: u32 where "kVerifyRegCType \<equiv> 0x1000"
abbreviation (input) kVerifyRegCWide :: u32 where "kVerifyRegCWide \<equiv> 0x2000"
abbreviation (input) kVerifyArrayData :: u32 where "kVerifyArrayData \<equiv> 0x4000"
abbreviation (input) kVerifyBranchTarget :: u32 where "kVerifyBranchTarget \<equiv> 0x8000"
abbreviation (input) kVerifySwitchTargets :: u32 where "kVerifySwitchTargets \<equiv> 0x10000"
abbreviation (input) kVerifyVarArg :: u32 where "kVerifyVarArg \<equiv> 0x20000"
abbreviation (input) kVerifyVarArgNonZero :: u32 where "kVerifyVarArgNonZero \<equiv> 0x40000"
abbreviation (input) kVerifyVarArgRange :: u32 where "kVerifyVarArgRange \<equiv> 0x80000"
abbreviation (input) kVerifyVarArgRangeNonZero :: u32 where "kVerifyVarArgRangeNonZero \<equiv> 0x100000"
abbreviation (input) kVerifyRuntimeOnly :: u32 where "kVerifyRuntimeOnly \<equiv> 0x200000"
abbreviation (input) kVerifyError :: u32 where "kVerifyError \<equiv> 0x400000"

section \<open>Opcodes\<close>

text \<open>The enumeration Code; CONST is named after its format here.\<close>

abbreviation (input) NOP :: u8 where "NOP \<equiv> 0x00"
abbreviation (input) MOVE :: u8 where "MOVE \<equiv> 0x01"
abbreviation (input) MOVE_FROM16 :: u8 where "MOVE_FROM16 \<equiv> 0x02"
abbreviation (input) MOVE_16 :: u8 where "MOVE_16 \<equiv> 0x03"
abbreviation (input) MOVE_WIDE :: u8 where "MOVE_WIDE \<equiv> 0x04"
abbreviation (input) MOVE_WIDE_FROM16 :: u8 where "MOVE_WIDE_FROM16 \<equiv> 0x05"
abbreviation (input) MOVE_WIDE_16 :: u8 where "MOVE_WIDE_16 \<equiv> 0x06"
abbreviation (input) MOVE_OBJECT :: u8 where "MOVE_OBJECT \<equiv> 0x07"
abbreviation (input) MOVE_OBJECT_FROM16 :: u8 where "MOVE_OBJECT_FROM16 \<equiv> 0x08"
abbreviation (input) MOVE_OBJECT_16 :: u8 where "MOVE_OBJECT_16 \<equiv> 0x09"
abbreviation (input) MOVE_RESULT :: u8 where "MOVE_RESULT \<equiv> 0x0a"
abbreviation (input) MOVE_RESULT_WIDE :: u8 where "MOVE_RESULT_WIDE \<equiv> 0x0b"
abbreviation (input) MOVE_RESULT_OBJECT :: u8 where "MOVE_RESULT_OBJECT \<equiv> 0x0c"
abbreviation (input) MOVE_EXCEPTION :: u8 where "MOVE_EXCEPTION \<equiv> 0x0d"
abbreviation (input) RETURN_VOID :: u8 where "RETURN_VOID \<equiv> 0x0e"
abbreviation (input) RETURN :: u8 where "RETURN \<equiv> 0x0f"
abbreviation (input) RETURN_WIDE :: u8 where "RETURN_WIDE \<equiv> 0x10"
abbreviation (input) RETURN_OBJECT :: u8 where "RETURN_OBJECT \<equiv> 0x11"
abbreviation (input) CONST_4 :: u8 where "CONST_4 \<equiv> 0x12"
abbreviation (input) CONST_16 :: u8 where "CONST_16 \<equiv> 0x13"
abbreviation (input) CONST_31 :: u8 where "CONST_31 \<equiv> 0x14"
abbreviation (input) CONST_HIGH16 :: u8 where "CONST_HIGH16 \<equiv> 0x15"
abbreviation (input) CONST_WIDE_16 :: u8 where "CONST_WIDE_16 \<equiv> 0x16"
abbreviation (input) CONST_WIDE_32 :: u8 where "CONST_WIDE_32 \<equiv> 0x17"
abbreviation (input) CONST_WIDE :: u8 where "CONST_WIDE \<equiv> 0x18"
abbreviation (input) CONST_WIDE_HIGH16 :: u8 where "CONST_WIDE_HIGH16 \<equiv> 0x19"
abbreviation (input) CONST_STRING :: u8 where "CONST_STRING \<equiv> 0x1a"
abbreviation (input) CONST_STRING_JUMBO :: u8 where "CONST_STRING_JUMBO \<equiv> 0x1b"
abbreviation (input) CONST_CLASS :: u8 where "CONST_CLASS \<equiv> 0x1c"
abbreviation (input) MONITOR_ENTER :: u8 where "MONITOR_ENTER \<equiv> 0x1d"
abbreviation (input) MONITOR_EXIT :: u8 where "MONITOR_EXIT \<equiv> 0x1e"
abbreviation (input) CHECK_CAST :: u8 where "CHECK_CAST \<equiv> 0x1f"
abbreviation (input) INSTANCE_OF :: u8 where "INSTANCE_OF \<equiv> 0x20"
abbreviation (input) ARRAY_LENGTH :: u8 where "ARRAY_LENGTH \<equiv> 0x21"
abbreviation (input) NEW_INSTANCE :: u8 where "NEW_INSTANCE \<equiv> 0x22"
abbreviation (input) NEW_ARRAY :: u8 where "NEW_ARRAY \<equiv> 0x23"
abbreviation (input) FILLED_NEW_ARRAY :: u8 where "FILLED_NEW_ARRAY \<equiv> 0x24"
abbreviation (input) FILLED_NEW_ARRAY_RANGE :: u8 where "FILLED_NEW_ARRAY_RANGE \<equiv> 0x25"
abbreviation (input) FILL_ARRAY_DATA :: u8 where "FILL_ARRAY_DATA \<equiv> 0x26"
abbreviation (input) THROW :: u8 where "THROW \<equiv> 0x27"
abbreviation (input) GOTO :: u8 where "GOTO \<equiv> 0x28"
abbreviation (input) GOTO_16 :: u8 where "GOTO_16 \<equiv> 0x29"
abbreviation (input) GOTO_32 :: u8 where "GOTO_32 \<equiv> 0x2a"
abbreviation (input) PACKED_SWITCH :: u8 where "PACKED_SWITCH \<equiv> 0x2b"
abbreviation (input) SPARSE_SWITCH :: u8 where "SPARSE_SWITCH \<equiv> 0x2c"
abbreviation (input) CMPL_FLOAT :: u8 where "CMPL_FLOAT \<equiv> 0x2d"
abbreviation (input) CMPG_FLOAT :: u8 where "CMPG_FLOAT \<equiv> 0x2e"
abbreviation (input) CMPL_DOUBLE :: u8 where "CMPL_DOUBLE \<equiv> 0x2f"
abbreviation (input) CMPG_DOUBLE :: u8 where "CMPG_DOUBLE \<equiv> 0x30"
abbreviation (input) CMP_LONG :: u8 where "CMP_LONG \<equiv> 0x31"
abbreviation (input) IF_EQ :: u8 where "IF_EQ \<equiv> 0x32"
abbreviation (input) IF_NE :: u8 where "IF_NE \<equiv> 0x33"
abbreviation (input) IF_LT :: u8 where "IF_LT \<equiv> 0x34"
abbreviation (input) IF_GE :: u8 where "IF_GE \<equiv> 0x35"
abbreviation (input) IF_GT :: u8 where "IF_GT \<equiv> 0x36"
abbreviation (input) IF_LE :: u8 where "IF_LE \<equiv> 0x37"
abbreviation (input) IF_EQZ :: u8 where "IF_EQZ \<equiv> 0x38"
abbreviation (input) IF_NEZ :: u8 where "IF_NEZ \<equiv> 0x39"
abbreviation (input) IF_LTZ :: u8 where "IF_LTZ \<equiv> 0x3a"
abbreviation (input) IF_GEZ :: u8 where "IF_GEZ \<equiv> 0x3b"
abbreviation (input) IF_GTZ :: u8 where "IF_GTZ \<equiv> 0x3c"
abbreviation (input) IF_LEZ :: u8 where "IF_LEZ \<equiv> 0x3d"
abbreviation (input) UNUSED_3E :: u8 where "UNUSED_3E \<equiv> 0x3e"
abbreviation (input) UNUSED_3F :: u8 where "UNUSED_3F \<equiv> 0x3f"
abbreviation (input) UNUSED_40 :: u8 where "UNUSED_40 \<equiv> 0x40"
abbreviation (input) UNUSED_41 :: u8 where "UNUSED_41 \<equiv> 0x41"
abbreviation (input) UNUSED_42 :: u8 where "UNUSED_42 \<equiv> 0x42"
abbreviation (input) UNUSED_43 :: u8 where "UNUSED_43 \<equiv> 0x43"
abbreviation (input) AGET :: u8 where "AGET \<equiv> 0x44"
abbreviation (input) AGET_WIDE :: u8 where "AGET_WIDE \<equiv> 0x45"
abbreviation (input) AGET_OBJECT :: u8 where "AGET_OBJECT \<equiv> 0x46"
abbreviation (input) AGET_BOOLEAN :: u8 where "AGET_BOOLEAN \<equiv> 0x47"
abbreviation (input) AGET_BYTE :: u8 where "AGET_BYTE \<equiv> 0x48"
abbreviation (input) AGET_CHAR :: u8 where "AGET_CHAR \<equiv> 0x49"
abbreviation (input) AGET_SHORT :: u8 where "AGET_SHORT \<equiv> 0x4a"
abbreviation (input) APUT :: u8 where "APUT \<equiv> 0x4b"
abbreviation (input) APUT_WIDE :: u8 where "APUT_WIDE \<equiv> 0x4c"
abbreviation (input) APUT_OBJECT :: u8 where "APUT_OBJECT \<equiv> 0x4d"
abbreviation (input) APUT_BOOLEAN :: u8 where "APUT_BOOLEAN \<equiv> 0x4e"
abbreviation (input) APUT_BYTE :: u8 where "APUT_BYTE \<equiv> 0x4f"
abbreviation (input) APUT_CHAR :: u8 where "APUT_CHAR \<equiv> 0x50"
abbreviation (input) APUT_SHORT :: u8 where "APUT_SHORT \<equiv> 0x51"
abbreviation (input) IGET :: u8 where "IGET \<equiv> 0x52"
abbreviation (input) IGET_WIDE :: u8 where "IGET_WIDE \<equiv> 0x53"
abbreviation (input) IGET_OBJECT :: u8 where "IGET_OBJECT \<equiv> 0x54"
abbreviation (input) IGET_BOOLEAN :: u8 where "IGET_BOOLEAN \<equiv> 0x55"
abbreviation (input) IGET_BYTE :: u8 where "IGET_BYTE \<equiv> 0x56"
abbreviation (input) IGET_CHAR :: u8 where "IGET_CHAR \<equiv> 0x57"
abbreviation (input) IGET_SHORT :: u8 where "IGET_SHORT \<equiv> 0x58"
abbreviation (input) IPUT :: u8 where "IPUT \<equiv> 0x59"
abbreviation (input) IPUT_WIDE :: u8 where "IPUT_WIDE \<equiv> 0x5a"
abbreviation (input) IPUT_OBJECT :: u8 where "IPUT_OBJECT \<equiv> 0x5b"
abbreviation (input) IPUT_BOOLEAN :: u8 where "IPUT_BOOLEAN \<equiv> 0x5c"
abbreviation (input) IPUT_BYTE :: u8 where "IPUT_BYTE \<equiv> 0x5d"
abbreviation (input) IPUT_CHAR :: u8 where "IPUT_CHAR \<equiv> 0x5e"
abbreviation (input) IPUT_SHORT :: u8 where "IPUT_SHORT \<equiv> 0x5f"
abbreviation (input) SGET :: u8 where "SGET \<equiv> 0x60"
abbreviation (input) SGET_WIDE :: u8 where "SGET_WIDE \<equiv> 0x61"
abbreviation (input) SGET_OBJECT :: u8 where "SGET_OBJECT \<equiv> 0x62"
abbreviation (input) SGET_BOOLEAN :: u8 where "SGET_BOOLEAN \<equiv> 0x63"
abbreviation (input) SGET_BYTE :: u8 where "SGET_BYTE \<equiv> 0x64"
abbreviation (input) SGET_CHAR :: u8 where "SGET_CHAR \<equiv> 0x65"
abbreviation (input) SGET_SHORT :: u8 where "SGET_SHORT \<equiv> 0x66"
abbreviation (input) SPUT :: u8 where "SPUT \<equiv> 0x67"
abbreviation (input) SPUT_WIDE :: u8 where "SPUT_WIDE \<equiv> 0x68"
abbreviation (input) SPUT_OBJECT :: u8 where "SPUT_OBJECT \<equiv> 0x69"
abbreviation (input) SPUT_BOOLEAN :: u8 where "SPUT_BOOLEAN \<equiv> 0x6a"
abbreviation (input) SPUT_BYTE :: u8 where "SPUT_BYTE \<equiv> 0x6b"
abbreviation (input) SPUT_CHAR :: u8 where "SPUT_CHAR \<equiv> 0x6c"
abbreviation (input) SPUT_SHORT :: u8 where "SPUT_SHORT \<equiv> 0x6d"
abbreviation (input) INVOKE_VIRTUAL :: u8 where "INVOKE_VIRTUAL \<equiv> 0x6e"
abbreviation (input) INVOKE_SUPER :: u8 where "INVOKE_SUPER \<equiv> 0x6f"
abbreviation (input) INVOKE_DIRECT :: u8 where "INVOKE_DIRECT \<equiv> 0x70"
abbreviation (input) INVOKE_STATIC :: u8 where "INVOKE_STATIC \<equiv> 0x71"
abbreviation (input) INVOKE_INTERFACE :: u8 where "INVOKE_INTERFACE \<equiv> 0x72"
abbreviation (input) RETURN_VOID_NO_BARRIER :: u8 where "RETURN_VOID_NO_BARRIER \<equiv> 0x73"
abbreviation (input) INVOKE_VIRTUAL_RANGE :: u8 where "INVOKE_VIRTUAL_RANGE \<equiv> 0x74"
abbreviation (input) INVOKE_SUPER_RANGE :: u8 where "INVOKE_SUPER_RANGE \<equiv> 0x75"
abbreviation (input) INVOKE_DIRECT_RANGE :: u8 where "INVOKE_DIRECT_RANGE \<equiv> 0x76"
abbreviation (input) INVOKE_STATIC_RANGE :: u8 where "INVOKE_STATIC_RANGE \<equiv> 0x77"
abbreviation (input) INVOKE_INTERFACE_RANGE :: u8 where "INVOKE_INTERFACE_RANGE \<equiv> 0x78"
abbreviation (input) UNUSED_79 :: u8 where "UNUSED_79 \<equiv> 0x79"
abbreviation (input) UNUSED_7A :: u8 where "UNUSED_7A \<equiv> 0x7a"
abbreviation (input) NEG_INT :: u8 where "NEG_INT \<equiv> 0x7b"
abbreviation (input) NOT_INT :: u8 where "NOT_INT \<equiv> 0x7c"
abbreviation (input) NEG_LONG :: u8 where "NEG_LONG \<equiv> 0x7d"
abbreviation (input) NOT_LONG :: u8 where "NOT_LONG \<equiv> 0x7e"
abbreviation (input) NEG_FLOAT :: u8 where "NEG_FLOAT \<equiv> 0x7f"
abbreviation (input) NEG_DOUBLE :: u8 where "NEG_DOUBLE \<equiv> 0x80"
abbreviation (input) INT_TO_LONG :: u8 where "INT_TO_LONG \<equiv> 0x81"
abbreviation (input) INT_TO_FLOAT :: u8 where "INT_TO_FLOAT \<equiv> 0x82"
abbreviation (input) INT_TO_DOUBLE :: u8 where "INT_TO_DOUBLE \<equiv> 0x83"
abbreviation (input) LONG_TO_INT :: u8 where "LONG_TO_INT \<equiv> 0x84"
abbreviation (input) LONG_TO_FLOAT :: u8 where "LONG_TO_FLOAT \<equiv> 0x85"
abbreviation (input) LONG_TO_DOUBLE :: u8 where "LONG_TO_DOUBLE \<equiv> 0x86"
abbreviation (input) FLOAT_TO_INT :: u8 where "FLOAT_TO_INT \<equiv> 0x87"
abbreviation (input) FLOAT_TO_LONG :: u8 where "FLOAT_TO_LONG \<equiv> 0x88"
abbreviation (input) FLOAT_TO_DOUBLE :: u8 where "FLOAT_TO_DOUBLE \<equiv> 0x89"
abbreviation (input) DOUBLE_TO_INT :: u8 where "DOUBLE_TO_INT \<equiv> 0x8a"
abbreviation (input) DOUBLE_TO_LONG :: u8 where "DOUBLE_TO_LONG \<equiv> 0x8b"
abbreviation (input) DOUBLE_TO_FLOAT :: u8 where "DOUBLE_TO_FLOAT \<equiv> 0x8c"
abbreviation (input) INT_TO_BYTE :: u8 where "INT_TO_BYTE \<equiv> 0x8d"
abbreviation (input) INT_TO_CHAR :: u8 where "INT_TO_CHAR \<equiv> 0x8e"
abbreviation (input) INT_TO_SHORT :: u8 where "INT_TO_SHORT \<equiv> 0x8f"
abbreviation (input) ADD_INT :: u8 where "ADD_INT \<equiv> 0x90"
abbreviation (input) SUB_INT :: u8 where "SUB_INT \<equiv> 0x91"
abbreviation (input) MUL_INT :: u8 where "MUL_INT \<equiv> 0x92"
abbreviation (input) DIV_INT :: u8 where "DIV_INT \<equiv> 0x93"
abbreviation (input) REM_INT :: u8 where "REM_INT \<equiv> 0x94"
abbreviation (input) AND_INT :: u8 where "AND_INT \<equiv> 0x95"
abbreviation (input) OR_INT :: u8 where "OR_INT \<equiv> 0x96"
abbreviation (input) XOR_INT :: u8 where "XOR_INT \<equiv> 0x97"
abbreviation (input) SHL_INT :: u8 where "SHL_INT \<equiv> 0x98"
abbreviation (input) SHR_INT :: u8 where "SHR_INT \<equiv> 0x99"
abbreviation (input) USHR_INT :: u8 where "USHR_INT \<equiv> 0x9a"
abbreviation (input) ADD_LONG :: u8 where "ADD_LONG \<equiv> 0x9b"
abbreviation (input) SUB_LONG :: u8 where "SUB_LONG \<equiv> 0x9c"
abbreviation (input) MUL_LONG :: u8 where "MUL_LONG \<equiv> 0x9d"
abbreviation (input) DIV_LONG :: u8 where "DIV_LONG \<equiv> 0x9e"
abbreviation (input) REM_LONG :: u8 where "REM_LONG \<equiv> 0x9f"
abbreviation (input) AND_LONG :: u8 where "AND_LONG \<equiv> 0xa0"
abbreviation (input) OR_LONG :: u8 where "OR_LONG \<equiv> 0xa1"
abbreviation (input) XOR_LONG :: u8 where "XOR_LONG \<equiv> 0xa2"
abbreviation (input) SHL_LONG :: u8 where "SHL_LONG \<equiv> 0xa3"
abbreviation (input) SHR_LONG :: u8 where "SHR_LONG \<equiv> 0xa4"
abbreviation (input) USHR_LONG :: u8 where "USHR_LONG \<equiv> 0xa5"
abbreviation (input) ADD_FLOAT :: u8 where "ADD_FLOAT \<equiv> 0xa6"
abbreviation (input) SUB_FLOAT :: u8 where "SUB_FLOAT \<equiv> 0xa7"
abbreviation (input) MUL_FLOAT :: u8 where "MUL_FLOAT \<equiv> 0xa8"
abbreviation (input) DIV_FLOAT :: u8 where "DIV_FLOAT \<equiv> 0xa9"
abbreviation (input) REM_FLOAT :: u8 where "REM_FLOAT \<equiv> 0xaa"
abbreviation (input) ADD_DOUBLE :: u8 where "ADD_DOUBLE \<equiv> 0xab"
abbreviation (input) SUB_DOUBLE :: u8 where "SUB_DOUBLE \<equiv> 0xac"
abbreviation (input) MUL_DOUBLE :: u8 where "MUL_DOUBLE \<equiv> 0xad"
abbreviation (input) DIV_DOUBLE :: u8 where "DIV_DOUBLE \<equiv> 0xae"
abbreviation (input) REM_DOUBLE :: u8 where "REM_DOUBLE \<equiv> 0xaf"
abbreviation (input) ADD_INT_2ADDR :: u8 where "ADD_INT_2ADDR \<equiv> 0xb0"
abbreviation (input) SUB_INT_2ADDR :: u8 where "SUB_INT_2ADDR \<equiv> 0xb1"
abbreviation (input) MUL_INT_2ADDR :: u8 where "MUL_INT_2ADDR \<equiv> 0xb2"
abbreviation (input) DIV_INT_2ADDR :: u8 where "DIV_INT_2ADDR \<equiv> 0xb3"
abbreviation (input) REM_INT_2ADDR :: u8 where "REM_INT_2ADDR \<equiv> 0xb4"
abbreviation (input) AND_INT_2ADDR :: u8 where "AND_INT_2ADDR \<equiv> 0xb5"
abbreviation (input) OR_INT_2ADDR :: u8 where "OR_INT_2ADDR \<equiv> 0xb6"
abbreviation (input) XOR_INT_2ADDR :: u8 where "XOR_INT_2ADDR \<equiv> 0xb7"
abbreviation (input) SHL_INT_2ADDR :: u8 where "SHL_INT_2ADDR \<equiv> 0xb8"
abbreviation (input) SHR_INT_2ADDR :: u8 where "SHR_INT_2ADDR \<equiv> 0xb9"
abbreviation (input) USHR_INT_2ADDR :: u8 where "USHR_INT_2ADDR \<equiv> 0xba"
abbreviation (input) ADD_LONG_2ADDR :: u8 where "ADD_LONG_2ADDR \<equiv> 0xbb"
abbreviation (input) SUB_LONG_2ADDR :: u8 where "SUB_LONG_2ADDR \<equiv> 0xbc"
abbreviation (input) MUL_LONG_2ADDR :: u8 where "MUL_LONG_2ADDR \<equiv> 0xbd"
abbreviation (input) DIV_LONG_2ADDR :: u8 where "DIV_LONG_2ADDR \<equiv> 0xbe"
abbreviation (input) REM_LONG_2ADDR :: u8 where "REM_LONG_2ADDR \<equiv> 0xbf"
abbreviation (input) AND_LONG_2ADDR :: u8 where "AND_LONG_2ADDR \<equiv> 0xc0"
abbreviation (input) OR_LONG_2ADDR :: u8 where "OR_LONG_2ADDR \<equiv> 0xc1"
abbreviation (input) XOR_LONG_2ADDR :: u8 where "XOR_LONG_2ADDR \<equiv> 0xc2"
abbreviation (input) SHL_LONG_2ADDR :: u8 where "SHL_LONG_2ADDR \<equiv> 0xc3"
abbreviation (input) SHR_LONG_2ADDR :: u8 where "SHR_LONG_2ADDR \<equiv> 0xc4"
abbreviation (input) USHR_LONG_2ADDR :: u8 where "USHR_LONG_2ADDR \<equiv> 0xc5"
abbreviation (input) ADD_FLOAT_2ADDR :: u8 where "ADD_FLOAT_2ADDR \<equiv> 0xc6"
abbreviation (input) SUB_FLOAT_2ADDR :: u8 where "SUB_FLOAT_2ADDR \<equiv> 0xc7"
abbreviation (input) MUL_FLOAT_2ADDR :: u8 where "MUL_FLOAT_2ADDR \<equiv> 0xc8"
abbreviation (input) DIV_FLOAT_2ADDR :: u8 where "DIV_FLOAT_2ADDR \<equiv> 0xc9"
abbreviation (input) REM_FLOAT_2ADDR :: u8 where "REM_FLOAT_2ADDR \<equiv> 0xca"
abbreviation (input) ADD_DOUBLE_2ADDR :: u8 where "ADD_DOUBLE_2ADDR \<equiv> 0xcb"
abbreviation (input) SUB_DOUBLE_2ADDR :: u8 where "SUB_DOUBLE_2ADDR \<equiv> 0xcc"
abbreviation (input) MUL_DOUBLE_2ADDR :: u8 where "MUL_DOUBLE_2ADDR \<equiv> 0xcd"
abbreviation (input) DIV_DOUBLE_2ADDR :: u8 where "DIV_DOUBLE_2ADDR \<equiv> 0xce"
abbreviation (input) REM_DOUBLE_2ADDR :: u8 where "REM_DOUBLE_2ADDR \<equiv> 0xcf"
abbreviation (input) ADD_INT_LIT16 :: u8 where "ADD_INT_LIT16 \<equiv> 0xd0"
abbreviation (input) RSUB_INT :: u8 where "RSUB_INT \<equiv> 0xd1"
abbreviation (input) MUL_INT_LIT16 :: u8 where "MUL_INT_LIT16 \<equiv> 0xd2"
abbreviation (input) DIV_INT_LIT16 :: u8 where "DIV_INT_LIT16 \<equiv> 0xd3"
abbreviation (input) REM_INT_LIT16 :: u8 where "REM_INT_LIT16 \<equiv> 0xd4"
abbreviation (input) AND_INT_LIT16 :: u8 where "AND_INT_LIT16 \<equiv> 0xd5"
abbreviation (input) OR_INT_LIT16 :: u8 where "OR_INT_LIT16 \<equiv> 0xd6"
abbreviation (input) XOR_INT_LIT16 :: u8 where "XOR_INT_LIT16 \<equiv> 0xd7"
abbreviation (input) ADD_INT_LIT8 :: u8 where "ADD_INT_LIT8 \<equiv> 0xd8"
abbreviation (input) RSUB_INT_LIT8 :: u8 where "RSUB_INT_LIT8 \<equiv> 0xd9"
abbreviation (input) MUL_INT_LIT8 :: u8 where "MUL_INT_LIT8 \<equiv> 0xda"
abbreviation (input) DIV_INT_LIT8 :: u8 where "DIV_INT_LIT8 \<equiv> 0xdb"
abbreviation (input) REM_INT_LIT8 :: u8 where "REM_INT_LIT8 \<equiv> 0xdc"
abbreviation (input) AND_INT_LIT8 :: u8 where "AND_INT_LIT8 \<equiv> 0xdd"
abbreviation (input) OR_INT_LIT8 :: u8 where "OR_INT_LIT8 \<equiv> 0xde"
abbreviation (input) XOR_INT_LIT8 :: u8 where "XOR_INT_LIT8 \<equiv> 0xdf"
abbreviation (input) SHL_INT_LIT8 :: u8 where "SHL_INT_LIT8 \<equiv> 0xe0"
abbreviation (input) SHR_INT_LIT8 :: u8 where "SHR_INT_LIT8 \<equiv> 0xe1"
abbreviation (input) USHR_INT_LIT8 :: u8 where "USHR_INT_LIT8 \<equiv> 0xe2"
abbreviation (input) IGET_QUICK :: u8 where "IGET_QUICK \<equiv> 0xe3"
abbreviation (input) IGET_WIDE_QUICK :: u8 where "IGET_WIDE_QUICK \<equiv> 0xe4"
abbreviation (input) IGET_OBJECT_QUICK :: u8 where "IGET_OBJECT_QUICK \<equiv> 0xe5"
abbreviation (input) IPUT_QUICK :: u8 where "IPUT_QUICK \<equiv> 0xe6"
abbreviation (input) IPUT_WIDE_QUICK :: u8 where "IPUT_WIDE_QUICK \<equiv> 0xe7"
abbreviation (input) IPUT_OBJECT_QUICK :: u8 where "IPUT_OBJECT_QUICK \<equiv> 0xe8"
abbreviation (input) INVOKE_VIRTUAL_QUICK :: u8 where "INVOKE_VIRTUAL_QUICK \<equiv> 0xe9"
abbreviation (input) INVOKE_VIRTUAL_RANGE_QUICK :: u8 where "INVOKE_VIRTUAL_RANGE_QUICK \<equiv> 0xea"
abbreviation (input) IPUT_BOOLEAN_QUICK :: u8 where "IPUT_BOOLEAN_QUICK \<equiv> 0xeb"
abbreviation (input) IPUT_BYTE_QUICK :: u8 where "IPUT_BYTE_QUICK \<equiv> 0xec"
abbreviation (input) IPUT_CHAR_QUICK :: u8 where "IPUT_CHAR_QUICK \<equiv> 0xed"
abbreviation (input) IPUT_SHORT_QUICK :: u8 where "IPUT_SHORT_QUICK \<equiv> 0xee"
abbreviation (input) IGET_BOOLEAN_QUICK :: u8 where "IGET_BOOLEAN_QUICK \<equiv> 0xef"
abbreviation (input) IGET_BYTE_QUICK :: u8 where "IGET_BYTE_QUICK \<equiv> 0xf0"
abbreviation (input) IGET_CHAR_QUICK :: u8 where "IGET_CHAR_QUICK \<equiv> 0xf1"
abbreviation (input) IGET_SHORT_QUICK :: u8 where "IGET_SHORT_QUICK \<equiv> 0xf2"
abbreviation (input) UNUSED_F3 :: u8 where "UNUSED_F3 \<equiv> 0xf3"
abbreviation (input) UNUSED_F4 :: u8 where "UNUSED_F4 \<equiv> 0xf4"
abbreviation (input) UNUSED_F5 :: u8 where "UNUSED_F5 \<equiv> 0xf5"
abbreviation (input) UNUSED_F6 :: u8 where "UNUSED_F6 \<equiv> 0xf6"
abbreviation (input) UNUSED_F7 :: u8 where "UNUSED_F7 \<equiv> 0xf7"
abbreviation (input) UNUSED_F8 :: u8 where "UNUSED_F8 \<equiv> 0xf8"
abbreviation (input) UNUSED_F9 :: u8 where "UNUSED_F9 \<equiv> 0xf9"
abbreviation (input) UNUSED_FA :: u8 where "UNUSED_FA \<equiv> 0xfa"
abbreviation (input) UNUSED_FB :: u8 where "UNUSED_FB \<equiv> 0xfb"
abbreviation (input) UNUSED_FC :: u8 where "UNUSED_FC \<equiv> 0xfc"
abbreviation (input) UNUSED_FD :: u8 where "UNUSED_FD \<equiv> 0xfd"
abbreviation (input) UNUSED_FE :: u8 where "UNUSED_FE \<equiv> 0xfe"
abbreviation (input) UNUSED_FF :: u8 where "UNUSED_FF \<equiv> 0xff"

section \<open>The tables\<close>

type_synonym opcode_row = "string \<times> Format \<times> u32 \<times> u32"

definition DEX_INSTRUCTION_LIST_low :: "opcode_row list" where
  "DEX_INSTRUCTION_LIST_low = [
     (''nop'', k10x, kContinue, kVerifyNone),
     (''move'', k12x, kContinue, kVerifyRegA OR kVerifyRegB),
     (''move/from16'', k22x, kContinue, kVerifyRegA OR kVerifyRegB),
     (''move/16'', k32x, kContinue, kVerifyRegA OR kVerifyRegB),
     (''move-wide'', k12x, kContinue, kVerifyRegAWide OR kVerifyRegBWide),
     (''move-wide/from16'', k22x, kContinue, kVerifyRegAWide OR kVerifyRegBWide),
     (''move-wide/16'', k32x, kContinue, kVerifyRegAWide OR kVerifyRegBWide),
     (''move-object'', k12x, kContinue, kVerifyRegA OR kVerifyRegB),
     (''move-object/from16'', k22x, kContinue, kVerifyRegA OR kVerifyRegB),
     (''move-object/16'', k32x, kContinue, kVerifyRegA OR kVerifyRegB),
     (''move-result'', k11x, kContinue, kVerifyRegA),
     (''move-result-wide'', k11x, kContinue, kVerifyRegAWide),
     (''move-result-object'', k11x, kContinue, kVerifyRegA),
     (''move-exception'', k11x, kContinue, kVerifyRegA),
     (''return-void'', k10x, kReturn, kVerifyNone),
     (''return'', k11x, kReturn, kVerifyRegA),
     (''return-wide'', k11x, kReturn, kVerifyRegAWide),
     (''return-object'', k11x, kReturn, kVerifyRegA),
     (''const/4'', k11n, kContinue OR kRegBFieldOrConstant, kVerifyRegA),
     (''const/16'', k21s, kContinue OR kRegBFieldOrConstant, kVerifyRegA),
     (''const'', k31i, kContinue OR kRegBFieldOrConstant, kVerifyRegA),
     (''const/high16'', k21h, kContinue OR kRegBFieldOrConstant, kVerifyRegA),
     (''const-wide/16'', k21s, kContinue OR kRegBFieldOrConstant, kVerifyRegAWide),
     (''const-wide/32'', k31i, kContinue OR kRegBFieldOrConstant, kVerifyRegAWide),
     (''const-wide'', k51l, kContinue OR kRegBFieldOrConstant, kVerifyRegAWide),
     (''const-wide/high16'', k21h, kContinue OR kRegBFieldOrConstant, kVerifyRegAWide),
     (''const-string'', k21c, kContinue OR kThrow, kVerifyRegA OR kVerifyRegBString),
     (''const-string/jumbo'', k31c, kContinue OR kThrow, kVerifyRegA OR kVerifyRegBString),
     (''const-class'', k21c, kContinue OR kThrow, kVerifyRegA OR kVerifyRegBType),
     (''monitor-enter'', k11x, kContinue OR kThrow OR kClobber, kVerifyRegA),
     (''monitor-exit'', k11x, kContinue OR kThrow OR kClobber, kVerifyRegA),
     (''check-cast'', k21c, kContinue OR kThrow, kVerifyRegA OR kVerifyRegBType),
     (''instance-of'', k22c, kContinue OR kThrow, kVerifyRegA OR kVerifyRegB OR kVerifyRegCType),
     (''array-length'', k12x, kContinue OR kThrow, kVerifyRegA OR kVerifyRegB),
     (''new-instance'', k21c, kContinue OR kThrow OR kClobber, kVerifyRegA OR kVerifyRegBNewInstance),
     (''new-array'', k22c, kContinue OR kThrow OR kClobber, kVerifyRegA OR kVerifyRegB OR kVerifyRegCNewArray),
     (''filled-new-array'', k35c, kContinue OR kThrow OR kClobber, kVerifyRegBType OR kVerifyVarArg),
     (''filled-new-array/range'', k3rc, kContinue OR kThrow OR kClobber, kVerifyRegBType OR kVerifyVarArgRange),
     (''fill-array-data'', k31t, kContinue OR kThrow OR kClobber, kVerifyRegA OR kVerifyArrayData),
     (''throw'', k11x, kThrow, kVerifyRegA),
     (''goto'', k10t, kBranch OR kUnconditional, kVerifyBranchTarget),
     (''goto/16'', k20t, kBranch OR kUnconditional, kVerifyBranchTarget),
     (''goto/32'', k30t, kBranch OR kUnconditional, kVerifyBranchTarget),
     (''packed-switch'', k31t, kContinue OR kSwitch, kVerifyRegA OR kVerifySwitchTargets),
     (''sparse-switch'', k31t, kContinue OR kSwitch, kVerifyRegA OR kVerifySwitchTargets),
     (''cmpl-float'', k23x, kContinue, kVerifyRegA OR kVerifyRegB OR kVerifyRegC),
     (''cmpg-float'', k23x, kContinue, kVerifyRegA OR kVerifyRegB OR kVerifyRegC),
     (''cmpl-double'', k23x, kContinue, kVerifyRegA OR kVerifyRegBWide OR kVerifyRegCWide),
     (''cmpg-double'', k23x, kContinue, kVerifyRegA OR kVerifyRegBWide OR kVerifyRegCWide),
     (''cmp-long'', k23x, kContinue, kVerifyRegA OR kVerifyRegBWide OR kVerifyRegCWide),
     (''if-eq'', k22t, kContinue OR kBranch, kVerifyRegA OR kVerifyRegB OR kVerifyBranchTarget),
     (''if-ne'', k22t, kContinue OR kBranch, kVerifyRegA OR kVerifyRegB OR kVerifyBranchTarget),
     (''if-lt'', k22t, kContinue OR kBranch, kVerifyRegA OR kVerifyRegB OR kVerifyBranchTarget),
     (''if-ge'', k22t, kContinue OR kBranch, kVerifyRegA OR kVerifyRegB OR kVerifyBranchTarget),
     (''if-gt'', k22t, kContinue OR kBranch, kVerifyRegA OR kVerifyRegB OR kVerifyBranchTarget),
     (''if-le'', k22t, kContinue OR kBranch, kVerifyRegA OR kVerifyRegB OR kVerifyBranchTarget),
     (''if-eqz'', k21t, kContinue OR kBranch, kVerifyRegA OR kVerifyBranchTarget),
     (''if-nez'', k21t, kContinue OR kBranch, kVerifyRegA OR kVerifyBranchTarget),
     (''if-ltz'', k21t, kContinue OR kBranch, kVerifyRegA OR kVerifyBranchTarget),
     (''if-gez'', k21t, kContinue OR kBranch, kVerifyRegA OR kVerifyBranchTarget),
     (''if-gtz'', k21t, kContinue OR kBranch, kVerifyRegA OR kVerifyBranchTarget),
     (''if-lez'', k21t, kContinue OR kBranch, kVerifyRegA OR kVerifyBranchTarget),
     (''unused-3e'', k10x, 0, kVerifyError),
     (''unused-3f'', k10x, 0, kVerifyError),
     (''unused-40'', k10x, 0, kVerifyError),
     (''unused-41'', k10x, 0, kVerifyError),
     (''unused-42'', k10x, 0, kVerifyError),
     (''unused-43'', k10x, 0, kVerifyError),
     (''aget'', k23x, kContinue OR kThrow OR kLoad, kVerifyRegA OR kVerifyRegB OR kVerifyRegC),
     (''aget-wide'', k23x, kContinue OR kThrow OR kLoad, kVerifyRegAWide OR kVerifyRegB OR kVerifyRegC),
     (''aget-object'', k23x, kContinue OR kThrow OR kLoad, kVerifyRegA OR kVerifyRegB OR kVerifyRegC),
     (''aget-boolean'', k23x, kContinue OR kThrow OR kLoad, kVerifyRegA OR kVerifyRegB OR kVerifyRegC),
     (''aget-byte'', k23x, kContinue OR kThrow OR kLoad, kVerifyRegA OR kVerifyRegB OR kVerifyRegC),
     (''aget-char'', k23x, kContinue OR kThrow OR kLoad, kVerifyRegA OR kVerifyRegB OR kVerifyRegC),
     (''aget-short'', k23x, kContinue OR kThrow OR kLoad, kVerifyRegA OR kVerifyRegB OR kVerifyRegC),
     (''aput'', k23x, kContinue OR kThrow OR kStore, kVerifyRegA OR kVerifyRegB OR kVerifyRegC),
     (''aput-wide'', k23x, kContinue OR kThrow OR kStore, kVerifyRegAWide OR kVerifyRegB OR kVerifyRegC),
     (''aput-object'', k23x, kContinue OR kThrow OR kStore, kVerifyRegA OR kVerifyRegB OR kVerifyRegC),
     (''aput-boolean'', k23x, kContinue OR kThrow OR kStore, kVerifyRegA OR kVerifyRegB OR kVerifyRegC),
     (''aput-byte'', k23x, kContinue OR kThrow OR kStore, kVerifyRegA OR kVerifyRegB OR kVerifyRegC),
     (''aput-char'', k23x, kContinue OR kThrow OR kStore, kVerifyRegA OR kVerifyRegB OR kVerifyRegC),
     (''aput-short'', k23x, kContinue OR kThrow OR kStore, kVerifyRegA OR kVerifyRegB OR kVerifyRegC),
     (''iget'', k22c, kContinue OR kThrow OR kLoad OR kRegCFieldOrConstant, kVerifyRegA OR kVerifyRegB OR kVerifyRegCField),
     (''iget-wide'', k22c, kContinue OR kThrow OR kLoad OR kRegCFieldOrConstant, kVerifyRegAWide OR kVerifyRegB OR kVerifyRegCField),
     (''iget-object'', k22c, kContinue OR kThrow OR kLoad OR kRegCFieldOrConstant, kVerifyRegA OR kVerifyRegB OR kVerifyRegCField),
     (''iget-boolean'', k22c, kContinue OR kThrow OR kLoad OR kRegCFieldOrConstant, kVerifyRegA OR kVerifyRegB OR kVerifyRegCField),
     (''iget-byte'', k22c, kContinue OR kThrow OR kLoad OR kRegCFieldOrConstant, kVerifyRegA OR kVerifyRegB OR kVerifyRegCField),
     (''iget-char'', k22c, kContinue OR kThrow OR kLoad OR kRegCFieldOrConstant, kVerifyRegA OR kVerifyRegB OR kVerifyRegCField),
     (''iget-short'', k22c, kContinue OR kThrow OR kLoad OR kRegCFieldOrConstant, kVerifyRegA OR kVerifyRegB OR kVerifyRegCField),
     (''iput'', k22c, kContinue OR kThrow OR kStore OR kRegCFieldOrConstant, kVerifyRegA OR kVerifyRegB OR kVerifyRegCField),
     (''iput-wide'', k22c, kContinue OR kThrow OR kStore OR kRegCFieldOrConstant, kVerifyRegAWide OR kVerifyRegB OR kVerifyRegCField),
     (''iput-object'', k22c, kContinue OR kThrow OR kStore OR kRegCFieldOrConstant, kVerifyRegA OR kVerifyRegB OR kVerifyRegCField),
     (''iput-boolean'', k22c, kContinue OR kThrow OR kStore OR kRegCFieldOrConstant, kVerifyRegA OR kVerifyRegB OR kVerifyRegCField),
     (''iput-byte'', k22c, kContinue OR kThrow OR kStore OR kRegCFieldOrConstant, kVerifyRegA OR kVerifyRegB OR kVerifyRegCField),
     (''iput-char'', k22c, kContinue OR kThrow OR kStore OR kRegCFieldOrConstant, kVerifyRegA OR kVerifyRegB OR kVerifyRegCField),
     (''iput-short'', k22c, kContinue OR kThrow OR kStore OR kRegCFieldOrConstant, kVerifyRegA OR kVerifyRegB OR kVerifyRegCField),
     (''sget'', k21c, kContinue OR kThrow OR kLoad OR kRegBFieldOrConstant, kVerifyRegA OR kVerifyRegBField),
     (''sget-wide'', k21c, kContinue OR kThrow OR kLoad OR kRegBFieldOrConstant, kVerifyRegAWide OR kVerifyRegBField),
     (''sget-object'', k21c, kContinue OR kThrow OR kLoad OR kRegBFieldOrConstant, kVerifyRegA OR kVerifyRegBField),
     (''sget-boolean'', k21c, kContinue OR kThrow OR kLoad OR kRegBFieldOrConstant, kVerifyRegA OR kVerifyRegBField),
     (''sget-byte'', k21c, kContinue OR kThrow OR kLoad OR kRegBFieldOrConstant, kVerifyRegA OR kVerifyRegBField),
     (''sget-char'', k21c, kContinue OR kThrow OR kLoad OR kRegBFieldOrConstant, kVerifyRegA OR kVerifyRegBField),
     (''sget-short'', k21c, kContinue OR kThrow OR kLoad OR kRegBFieldOrConstant, kVerifyRegA OR kVerifyRegBField),
     (''sput'', k21c, kContinue OR kThrow OR kStore OR kRegBFieldOrConstant, kVerifyRegA OR kVerifyRegBField),
     (''sput-wide'', k21c, kContinue OR kThrow OR kStore OR kRegBFieldOrConstant, kVerifyRegAWide OR kVerifyRegBField),
     (''sput-object'', k21c, kContinue OR kThrow OR kStore OR kRegBFieldOrConstant, kVerifyRegA OR kVerifyRegBField),
     (''sput-boolean'', k21c, kContinue OR kThrow OR kStore OR kRegBFieldOrConstant, kVerifyRegA OR kVerifyRegBField),
     (''sput-byte'', k21c, kContinue OR kThrow OR kStore OR kRegBFieldOrConstant, kVerifyRegA OR kVerifyRegBField),
     (''sput-char'', k21c, kContinue OR kThrow OR kStore OR kRegBFieldOrConstant, kVerifyRegA OR kVerifyRegBField),
     (''sput-short'', k21c, kContinue OR kThrow OR kStore OR kRegBFieldOrConstant, kVerifyRegA OR kVerifyRegBField),
     (''invoke-virtual'', k35c, kContinue OR kThrow OR kInvoke, kVerifyRegBMethod OR kVerifyVarArgNonZero),
     (''invoke-super'', k35c, kContinue OR kThrow OR kInvoke, kVerifyRegBMethod OR kVerifyVarArgNonZero),
     (''invoke-direct'', k35c, kContinue OR kThrow OR kInvoke, kVerifyRegBMethod OR kVerifyVarArgNonZero),
     (''invoke-static'', k35c, kContinue OR kThrow OR kInvoke, kVerifyRegBMethod OR kVerifyVarArg),
     (''invoke-interface'', k35c, kContinue OR kThrow OR kInvoke, kVerifyRegBMethod OR kVerifyVarArgNonZero),
     (''return-void-no-barrier'', k10x, kReturn, kVerifyNone),
     (''invoke-virtual/range'', k3rc, kContinue OR kThrow OR kInvoke, kVerifyRegBMethod OR kVerifyVarArgRangeNonZero),
     (''invoke-super/range'', k3rc, kContinue OR kThrow OR kInvoke, kVerifyRegBMethod OR kVerifyVarArgRangeNonZero),
     (''invoke-direct/range'', k3rc, kContinue OR kThrow OR kInvoke, kVerifyRegBMethod OR kVerifyVarArgRangeNonZero),
     (''invoke-static/range'', k3rc, kContinue OR kThrow OR kInvoke, kVerifyRegBMethod OR kVerifyVarArgRange),
     (''invoke-interface/range'', k3rc, kContinue OR kThrow OR kInvoke, kVerifyRegBMethod OR kVerifyVarArgRangeNonZero),
     (''unused-79'', k10x, 0, kVerifyError),
     (''unused-7a'', k10x, 0, kVerifyError),
     (''neg-int'', k12x, kContinue, kVerifyRegA OR kVerifyRegB),
     (''not-int'', k12x, kContinue, kVerifyRegA OR kVerifyRegB),
     (''neg-long'', k12x, kContinue, kVerifyRegAWide OR kVerifyRegBWide),
     (''not-long'', k12x, kContinue, kVerifyRegAWide OR kVerifyRegBWide),
     (''neg-float'', k12x, kContinue, kVerifyRegA OR kVerifyRegB)]"

definition DEX_INSTRUCTION_LIST_high :: "opcode_row list" where
  "DEX_INSTRUCTION_LIST_high = [
     (''neg-double'', k12x, kContinue, kVerifyRegAWide OR kVerifyRegBWide),
     (''int-to-long'', k12x, kContinue OR kCast, kVerifyRegAWide OR kVerifyRegB),
     (''int-to-float'', k12x, kContinue OR kCast, kVerifyRegA OR kVerifyRegB),
     (''int-to-double'', k12x, kContinue OR kCast, kVerifyRegAWide OR kVerifyRegB),
     (''long-to-int'', k12x, kContinue OR kCast, kVerifyRegA OR kVerifyRegBWide),
     (''long-to-float'', k12x, kContinue OR kCast, kVerifyRegA OR kVerifyRegBWide),
     (''long-to-double'', k12x, kContinue OR kCast, kVerifyRegAWide OR kVerifyRegBWide),
     (''float-to-int'', k12x, kContinue OR kCast, kVerifyRegA OR kVerifyRegB),
     (''float-to-long'', k12x, kContinue OR kCast, kVerifyRegAWide OR kVerifyRegB),
     (''float-to-double'', k12x, kContinue OR kCast, kVerifyRegAWide OR kVerifyRegB),
     (''double-to-int'', k12x, kContinue OR kCast, kVerifyRegA OR kVerifyRegBWide),
     (''double-to-long'', k12x, kContinue OR kCast, kVerifyRegAWide OR kVerifyRegBWide),
     (''double-to-float'', k12x, kContinue OR kCast, kVerifyRegA OR kVerifyRegBWide),
     (''int-to-byte'', k12x, kContinue OR kCast, kVerifyRegA OR kVerifyRegB),
     (''int-to-char'', k12x, kContinue OR kCast, kVerifyRegA OR kVerifyRegB),
     (''int-to-short'', k12x, kContinue OR kCast, kVerifyRegA OR kVerifyRegB),
     (''add-int'', k23x, kContinue OR kAdd, kVerifyRegA OR kVerifyRegB OR kVerifyRegC),
     (''sub-int'', k23x, kContinue OR kSubtract, kVerifyRegA OR kVerifyRegB OR kVerifyRegC),
     (''mul-int'', k23x, kContinue OR kMultiply, kVerifyRegA OR kVerifyRegB OR kVerifyRegC),
     (''div-int'', k23x, kContinue OR kThrow OR kDivide, kVerifyRegA OR kVerifyRegB OR kVerifyRegC),
     (''rem-int'', k23x, kContinue OR kThrow OR kRemainder, kVerifyRegA OR kVerifyRegB OR kVerifyRegC),
     (''and-int'', k23x, kContinue OR kAnd, kVerifyRegA OR kVerifyRegB OR kVerifyRegC),
     (''or-int'', k23x, kContinue OR kOr, kVerifyRegA OR kVerifyRegB OR kVerifyRegC),
     (''xor-int'', k23x, kContinue OR kXor, kVerifyRegA OR kVerifyRegB OR kVerifyRegC),
     (''shl-int'', k23x, kContinue OR kShl, kVerifyRegA OR kVerifyRegB OR kVerifyRegC),
     (''shr-int'', k23x, kContinue OR kShr, kVerifyRegA OR kVerifyRegB OR kVerifyRegC),
     (''ushr-int'', k23x, kContinue OR kUshr, kVerifyRegA OR kVerifyRegB OR kVerifyRegC),
     (''add-long'', k23x, kContinue OR kAdd, kVerifyRegAWide OR kVerifyRegBWide OR kVerifyRegCWide),
     (''sub-long'', k23x, kContinue OR kSubtract, kVerifyRegAWide OR kVerifyRegBWide OR kVerifyRegCWide),
     (''mul-long'', k23x, kContinue OR kMultiply, kVerifyRegAWide OR kVerifyRegBWide OR kVerifyRegCWide),
     (''div-long'', k23x, kContinue OR kThrow OR kDivide, kVerifyRegAWide OR kVerifyRegBWide OR kVerifyRegCWide),
     (''rem-long'', k23x, kContinue OR kThrow OR kRemainder, kVerifyRegAWide OR kVerifyRegBWide OR kVerifyRegCWide),
     (''and-long'', k23x, kContinue OR kAnd, kVerifyRegAWide OR kVerifyRegBWide OR kVerifyRegCWide),
     (''or-long'', k23x, kContinue OR kOr, kVerifyRegAWide OR kVerifyRegBWide OR kVerifyRegCWide),
     (''xor-long'', k23x, kContinue OR kXor, kVerifyRegAWide OR kVerifyRegBWide OR kVerifyRegCWide),
     (''shl-long'', k23x, kContinue OR kShl, kVerifyRegAWide OR kVerifyRegBWide OR kVerifyRegC),
     (''shr-long'', k23x, kContinue OR kShr, kVerifyRegAWide OR kVerifyRegBWide OR kVerifyRegC),
     (''ushr-long'', k23x, kContinue OR kUshr, kVerifyRegAWide OR kVerifyRegBWide OR kVerifyRegC),
     (''add-float'', k23x, kContinue OR kAdd, kVerifyRegA OR kVerifyRegB OR kVerifyRegC),
     (''sub-float'', k23x, kContinue OR kSubtract, kVerifyRegA OR kVerifyRegB OR kVerifyRegC),
     (''mul-float'', k23x, kContinue OR kMultiply, kVerifyRegA OR kVerifyRegB OR kVerifyRegC),
     (''div-float'', k23x, kContinue OR kDivide, kVerifyRegA OR kVerifyRegB OR kVerifyRegC),
     (''rem-float'', k23x, kContinue OR kRemainder, kVerifyRegA OR kVerifyRegB OR kVerifyRegC),
     (''add-double'', k23x, kContinue OR kAdd, kVerifyRegAWide OR kVerifyRegBWide OR kVerifyRegCWide),
     (''sub-double'', k23x, kContinue OR kSubtract, kVerifyRegAWide OR kVerifyRegBWide OR kVerifyRegCWide),
     (''mul-double'', k23x, kContinue OR kMultiply, kVerifyRegAWide OR kVerifyRegBWide OR kVerifyRegCWide),
     (''div-double'', k23x, kContinue OR kDivide, kVerifyRegAWide OR kVerifyRegBWide OR kVerifyRegCWide),
     (''rem-double'', k23x, kContinue OR kRemainder, kVerifyRegAWide OR kVerifyRegBWide OR kVerifyRegCWide),
     (''add-int/2addr'', k12x, kContinue OR kAdd, kVerifyRegA OR kVerifyRegB),
     (''sub-int/2addr'', k12x, kContinue OR kSubtract, kVerifyRegA OR kVerifyRegB),
     (''mul-int/2addr'', k12x, kContinue OR kMultiply, kVerifyRegA OR kVerifyRegB),
     (''div-int/2addr'', k12x, kContinue OR kThrow OR kDivide, kVerifyRegA OR kVerifyRegB),
     (''rem-int/2addr'', k12x, kContinue OR kThrow OR kRemainder, kVerifyRegA OR kVerifyRegB),
     (''and-int/2addr'', k12x, kContinue OR kAnd, kVerifyRegA OR kVerifyRegB),
     (''or-int/2addr'', k12x, kContinue OR kOr, kVerifyRegA OR kVerifyRegB),
     (''xor-int/2addr'', k12x, kContinue OR kXor, kVerifyRegA OR kVerifyRegB),
     (''shl-int/2addr'', k12x, kContinue OR kShl, kVerifyRegA OR kVerifyRegB),
     (''shr-int/2addr'', k12x, kContinue OR kShr, kVerifyRegA OR kVerifyRegB),
     (''ushr-int/2addr'', k12x, kContinue OR kUshr, kVerifyRegA OR kVerifyRegB),
     (''add-long/2addr'', k12x, kContinue OR kAdd, kVerifyRegAWide OR kVerifyRegBWide),
     (''sub-long/2addr'', k12x, kContinue OR kSubtract, kVerifyRegAWide OR kVerifyRegBWide),
     (''mul-long/2addr'', k12x, kContinue OR kMultiply, kVerifyRegAWide OR kVerifyRegBWide),
     (''div-long/2addr'', k12x, kContinue OR kThrow OR kDivide, kVerifyRegAWide OR kVerifyRegBWide),
     (''rem-long/2addr'', k12x, kContinue OR kThrow OR kRemainder, kVerifyRegAWide OR kVerifyRegBWide),
     (''and-long/2addr'', k12x, kContinue OR kAnd, kVerifyRegAWide OR kVerifyRegBWide),
     (''or-long/2addr'', k12x, kContinue OR kOr, kVerifyRegAWide OR kVerifyRegBWide),
     (''xor-long/2addr'', k12x, kContinue OR kXor, kVerifyRegAWide OR kVerifyRegBWide),
     (''shl-long/2addr'', k12x, kContinue OR kShl, kVerifyRegAWide OR kVerifyRegB),
     (''shr-long/2addr'', k12x, kContinue OR kShr, kVerifyRegAWide OR kVerifyRegB),
     (''ushr-long/2addr'', k12x, kContinue OR kUshr, kVerifyRegAWide OR kVerifyRegB),
     (''add-float/2addr'', k12x, kContinue OR kAdd, kVerifyRegA OR kVerifyRegB),
     (''sub-float/2addr'', k12x, kContinue OR kSubtract, kVerifyRegA OR kVerifyRegB),
     (''mul-float/2addr'', k12x, kContinue OR kMultiply, kVerifyRegA OR kVerifyRegB),
     (''div-float/2addr'', k12x, kContinue OR kDivide, kVerifyRegA OR kVerifyRegB),
     (''rem-float/2addr'', k12x, kContinue OR kRemainder, kVerifyRegA OR kVerifyRegB),
     (''add-double/2addr'', k12x, kContinue OR kAdd, kVerifyRegAWide OR kVerifyRegBWide),
     (''sub-double/2addr'', k12x, kContinue OR kSubtract, kVerifyRegAWide OR kVerifyRegBWide),
     (''mul-double/2addr'', k12x, kContinue OR kMultiply, kVerifyRegAWide OR kVerifyRegBWide),
     (''div-double/2addr'', k12x, kContinue OR kDivide, kVerifyRegAWide OR kVerifyRegBWide),
     (''rem-double/2addr'', k12x, kContinue OR kRemainder, kVerifyRegAWide OR kVerifyRegBWide),
     (''add-int/lit16'', k22s, kContinue OR kAdd OR kRegCFieldOrConstant, kVerifyRegA OR kVerifyRegB),
     (''rsub-int'', k22s, kContinue OR kSubtract OR kRegCFieldOrConstant, kVerifyRegA OR kVerifyRegB),
     (''mul-int/lit16'', k22s, kContinue OR kMultiply OR kRegCFieldOrConstant, kVerifyRegA OR kVerifyRegB),
     (''div-int/lit16'', k22s, kContinue OR kThrow OR kDivide OR kRegCFieldOrConstant, kVerifyRegA OR kVerifyRegB),
     (''rem-int/lit16'', k22s, kContinue OR kThrow OR kRemainder OR kRegCFieldOrConstant, kVerifyRegA OR kVerifyRegB),
     (''and-int/lit16'', k22s, kContinue OR kAnd OR kRegCFieldOrConstant, kVerifyRegA OR kVerifyRegB),
     (''or-int/lit16'', k22s, kContinue OR kOr OR kRegCFieldOrConstant, kVerifyRegA OR kVerifyRegB),
     (''xor-int/lit16'', k22s, kContinue OR kXor OR kRegCFieldOrConstant, kVerifyRegA OR kVerifyRegB),
     (''add-int/lit8'', k22b, kContinue OR kAdd OR kRegCFieldOrConstant, kVerifyRegA OR kVerifyRegB),
     (''rsub-int/lit8'', k22b, kContinue OR kSubtract OR kRegCFieldOrConstant, kVerifyRegA OR kVerifyRegB),
     (''mul-int/lit8'', k22b, kContinue OR kMultiply OR kRegCFieldOrConstant, kVerifyRegA OR kVerifyRegB),
     (''div-int/lit8'', k22b, kContinue OR kThrow OR kDivide OR kRegCFieldOrConstant, kVerifyRegA OR kVerifyRegB),
     (''rem-int/lit8'', k22b, kContinue OR kThrow OR kRemainder OR kRegCFieldOrConstant, kVerifyRegA OR kVerifyRegB),
     (''and-int/lit8'', k22b, kContinue OR kAnd OR kRegCFieldOrConstant, kVerifyRegA OR kVerifyRegB),
     (''or-int/lit8'', k22b, kContinue OR kOr OR kRegCFieldOrConstant, kVerifyRegA OR kVerifyRegB),
     (''xor-int/lit8'', k22b, kContinue OR kXor OR kRegCFieldOrConstant, kVerifyRegA OR kVerifyRegB),
     (''shl-int/lit8'', k22b, kContinue OR kShl OR kRegCFieldOrConstant, kVerifyRegA OR kVerifyRegB),
     (''shr-int/lit8'', k22b, kContinue OR kShr OR kRegCFieldOrConstant, kVerifyRegA OR kVerifyRegB),
     (''ushr-int/lit8'', k22b, kContinue OR kUshr OR kRegCFieldOrConstant, kVerifyRegA OR kVerifyRegB),
     (''iget-quick'', k22c, kContinue OR kThrow OR kLoad OR kRegCFieldOrConstant, kVerifyRegA OR kVerifyRegB OR kVerifyRuntimeOnly),
     (''iget-wide-quick'', k22c, kContinue OR kThrow OR kLoad OR kRegCFieldOrConstant, kVerifyRegAWide OR kVerifyRegB OR kVerifyRuntimeOnly),
     (''iget-object-quick'', k22c, kContinue OR kThrow OR kLoad OR kRegCFieldOrConstant, kVerifyRegA OR kVerifyRegB OR kVerifyRuntimeOnly),
     (''iput-quick'', k22c, kContinue OR kThrow OR kStore OR kRegCFieldOrConstant, kVerifyRegA OR kVerifyRegB OR kVerifyRuntimeOnly),
     (''iput-wide-quick'', k22c, kContinue OR kThrow OR kStore OR kRegCFieldOrConstant, kVerifyRegAWide OR kVerifyRegB OR kVerifyRuntimeOnly),
     (''iput-object-quick'', k22c, kContinue OR kThrow OR kStore OR kRegCFieldOrConstant, kVerifyRegA OR kVerifyRegB OR kVerifyRuntimeOnly),
     (''invoke-virtual-quick'', k35c, kContinue OR kThrow OR kInvoke, kVerifyVarArgNonZero OR kVerifyRuntimeOnly),
     (''invoke-virtual/range-quick'', k3rc, kContinue OR kThrow OR kInvoke, kVerifyVarArgRangeNonZero OR kVerifyRuntimeOnly),
     (''iput-boolean-quick'', k22c, kContinue OR kThrow OR kStore OR kRegCFieldOrConstant, kVerifyRegA OR kVerifyRegB OR kVerifyRuntimeOnly),
     (''iput-byte-quick'', k22c, kContinue OR kThrow OR kStore OR kRegCFieldOrConstant, kVerifyRegA OR kVerifyRegB OR kVerifyRuntimeOnly),
     (''iput-char-quick'', k22c, kContinue OR kThrow OR kStore OR kRegCFieldOrConstant, kVerifyRegA OR kVerifyRegB OR kVerifyRuntimeOnly),
     (''iput-short-quick'', k22c, kContinue OR kThrow OR kStore OR kRegCFieldOrConstant, kVerifyRegA OR kVerifyRegB OR kVerifyRuntimeOnly),
     (''iget-boolean-quick'', k22c, kContinue OR kThrow OR kLoad OR kRegCFieldOrConstant, kVerifyRegA OR kVerifyRegB OR kVerifyRuntimeOnly),
     (''iget-byte-quick'', k22c, kContinue OR kThrow OR kLoad OR kRegCFieldOrConstant, kVerifyRegA OR kVerifyRegB OR kVerifyRuntimeOnly),
     (''iget-char-quick'', k22c, kContinue OR kThrow OR kLoad OR kRegCFieldOrConstant, kVerifyRegA OR kVerifyRegB OR kVerifyRuntimeOnly),
     (''iget-short-quick'', k22c, kContinue OR kThrow OR kLoad OR kRegCFieldOrConstant, kVerifyRegA OR kVerifyRegB OR kVerifyRuntimeOnly),
     (''unused-f3'', k10x, 0, kVerifyError),
     (''unused-f4'', k10x, 0, kVerifyError),
     (''unused-f5'', k10x, 0, kVerifyError),
     (''unused-f6'', k10x, 0, kVerifyError),
     (''unused-f7'', k10x, 0, kVerifyError),
     (''unused-f8'', k10x, 0, kVerifyError),
     (''unused-f9'', k10x, 0, kVerifyError),
     (''unused-fa'', k10x, 0, kVerifyError),
     (''unused-fb'', k10x, 0, kVerifyError),
     (''unused-fc'', k10x, 0, kVerifyError),
     (''unused-fd'', k10x, 0, kVerifyError),
     (''unused-fe'', k10x, 0, kVerifyError),
     (''unused-ff'', k10x, 0, kVerifyError)]"

definition DEX_INSTRUCTION_LIST :: "opcode_row list" where
  "DEX_INSTRUCTION_LIST = DEX_INSTRUCTION_LIST_low @ DEX_INSTRUCTION_LIST_high"

definition kInstructionNames :: "u8 \<Rightarrow> string" where
  "kInstructionNames opcode = (case DEX_INSTRUCTION_LIST ! unat opcode of (pname, f, a, v) \<Rightarrow> pname)"

definition kInstructionFormats :: "u8 \<Rightarrow> Format" where
  "kInstructionFormats opcode = (case DEX_INSTRUCTION_LIST ! unat opcode of (pname, f, a, v) \<Rightarrow> f)"

definition kInstructionFlags :: "u8 \<Rightarrow> u32" where
  "kInstructionFlags opcode = (case DEX_INSTRUCTION_LIST ! unat opcode of (pname, f, a, v) \<Rightarrow> a)"

definition kInstructionVerifyFlags :: "u8 \<Rightarrow> u32" where
  "kInstructionVerifyFlags opcode = (case DEX_INSTRUCTION_LIST ! unat opcode of (pname, f, a, v) \<Rightarrow> v)"

definition kInstructionSizeInCodeUnits :: "u8 \<Rightarrow> int" where
  "kInstructionSizeInCodeUnits opcode =
     (let format = kInstructionFormats opcode in
      if opcode = NOP then -1
      else if k10x \<le> format \<and> format \<le> k10t then 1
      else if k20t \<le> format \<and> format \<le> k22c then 2
      else if k32x \<le> format \<and> format \<le> k3rc then 3
      else if format = k51l then 5 else -1)"

lemma length_list: "length DEX_INSTRUCTION_LIST = 256"
  by (simp add: DEX_INSTRUCTION_LIST_def DEX_INSTRUCTION_LIST_low_def DEX_INSTRUCTION_LIST_high_def)

end
