(* ===== verification/Dex_Instruction.thy ===== *)
theory Dex_Instruction
  imports Dex_Opcodes Utf
begin

text \<open>
  Decoding of dex instructions (runtime/dex\_instruction.h, dex\_instruction-inl.h and
  dex\_instruction.cc). An instruction is the list of code units from its first one to the end
  of the method's code, so reading past the end of the code is a read out of bounds. Signed
  operands are the words of their two's complement.
\<close>

type_synonym insn = "u16 list"

section \<open>Fields of an instruction\<close>

definition Fetch16 :: "nat \<Rightarrow> insn \<Rightarrow> u16 res" where
  "Fetch16 n inst = (if n < length inst then Inr (inst ! n) else Inl OutOfBounds)"

definition Fetch32 :: "nat \<Rightarrow> insn \<Rightarrow> u32 res" where
  "Fetch32 n inst =
     rbind (Fetch16 n inst) (\<lambda>lo. rbind (Fetch16 (n + 1) inst) (\<lambda>hi. Inr (ucast lo OR push_bit 16 (ucast hi))))"

definition InstA :: "u16 \<Rightarrow> u8" where
  "InstA inst_data = ucast (drop_bit 8 inst_data AND 0x0f)"

definition InstB :: "u16 \<Rightarrow> u8" where
  "InstB inst_data = ucast (drop_bit 12 inst_data)"

definition InstAA :: "u16 \<Rightarrow> u8" where
  "InstAA inst_data = ucast (drop_bit 8 inst_data)"

definition OpcodeOf :: "u16 \<Rightarrow> u8" where
  "OpcodeOf inst_data = ucast (inst_data AND 0xff)"

definition Opcode :: "insn \<Rightarrow> u8 res" where
  "Opcode inst = rmap OpcodeOf (Fetch16 0 inst)"

definition FormatOf :: "u8 \<Rightarrow> Format" where
  "FormatOf opcode = kInstructionFormats opcode"

section \<open>Operands\<close>

subsection \<open>A\<close>

definition VRegA_10t :: "u16 \<Rightarrow> u8" where
  "VRegA_10t inst_data = InstAA inst_data"

definition VRegA_10x :: "u16 \<Rightarrow> u8" where
  "VRegA_10x inst_data = InstAA inst_data"

definition VRegA_11n :: "u16 \<Rightarrow> u8" where
  "VRegA_11n inst_data = InstA inst_data"

definition VRegA_11x :: "u16 \<Rightarrow> u8" where
  "VRegA_11x inst_data = InstAA inst_data"

definition VRegA_12x :: "u16 \<Rightarrow> u8" where
  "VRegA_12x inst_data = InstA inst_data"

definition VRegA_20t :: "insn \<Rightarrow> u16 res" where
  "VRegA_20t inst = Fetch16 1 inst"

definition VRegA_21c :: "u16 \<Rightarrow> u8" where
  "VRegA_21c inst_data = InstAA inst_data"

definition VRegA_21h :: "u16 \<Rightarrow> u8" where
  "VRegA_21h inst_data = InstAA inst_data"

definition VRegA_21s :: "u16 \<Rightarrow> u8" where
  "VRegA_21s inst_data = InstAA inst_data"

definition VRegA_21t :: "u16 \<Rightarrow> u8" where
  "VRegA_21t inst_data = InstAA inst_data"

definition VRegA_22b :: "u16 \<Rightarrow> u8" where
  "VRegA_22b inst_data = InstAA inst_data"

definition VRegA_22c :: "u16 \<Rightarrow> u8" where
  "VRegA_22c inst_data = InstA inst_data"

definition VRegA_22s :: "u16 \<Rightarrow> u8" where
  "VRegA_22s inst_data = InstA inst_data"

definition VRegA_22t :: "u16 \<Rightarrow> u8" where
  "VRegA_22t inst_data = InstA inst_data"

definition VRegA_22x :: "u16 \<Rightarrow> u8" where
  "VRegA_22x inst_data = InstAA inst_data"

definition VRegA_23x :: "u16 \<Rightarrow> u8" where
  "VRegA_23x inst_data = InstAA inst_data"

definition VRegA_30t :: "insn \<Rightarrow> u32 res" where
  "VRegA_30t inst = Fetch32 1 inst"

definition VRegA_31c :: "u16 \<Rightarrow> u8" where
  "VRegA_31c inst_data = InstAA inst_data"

definition VRegA_31i :: "u16 \<Rightarrow> u8" where
  "VRegA_31i inst_data = InstAA inst_data"

definition VRegA_31t :: "u16 \<Rightarrow> u8" where
  "VRegA_31t inst_data = InstAA inst_data"

definition VRegA_32x :: "insn \<Rightarrow> u16 res" where
  "VRegA_32x inst = Fetch16 1 inst"

definition VRegA_35c :: "u16 \<Rightarrow> u8" where
  "VRegA_35c inst_data = InstB inst_data"

definition VRegA_3rc :: "u16 \<Rightarrow> u8" where
  "VRegA_3rc inst_data = InstAA inst_data"

definition VRegA_51l :: "u16 \<Rightarrow> u8" where
  "VRegA_51l inst_data = InstAA inst_data"

definition HasVRegA :: "u8 \<Rightarrow> bool" where
  "HasVRegA opcode \<longleftrightarrow> FormatOf opcode \<in>
     {k10t, k10x, k11n, k11x, k12x, k20t, k21c, k21h, k21s, k21t, k22b, k22c, k22s, k22t, k22x,
      k23x, k30t, k31c, k31i, k31t, k32x, k35c, k3rc, k51l}"

definition VRegA :: "insn \<Rightarrow> u32 res" where
  "VRegA inst =
     rbind (Opcode inst) (\<lambda>opcode. case FormatOf opcode of
       k10t \<Rightarrow> rmap (\<lambda>d. scast (VRegA_10t d)) (Fetch16 0 inst)
     | k10x \<Rightarrow> rmap (\<lambda>d. ucast (VRegA_10x d)) (Fetch16 0 inst)
     | k11n \<Rightarrow> rmap (\<lambda>d. ucast (VRegA_11n d)) (Fetch16 0 inst)
     | k11x \<Rightarrow> rmap (\<lambda>d. ucast (VRegA_11x d)) (Fetch16 0 inst)
     | k12x \<Rightarrow> rmap (\<lambda>d. ucast (VRegA_12x d)) (Fetch16 0 inst)
     | k20t \<Rightarrow> rmap scast (VRegA_20t inst)
     | k21c \<Rightarrow> rmap (\<lambda>d. ucast (VRegA_21c d)) (Fetch16 0 inst)
     | k21h \<Rightarrow> rmap (\<lambda>d. ucast (VRegA_21h d)) (Fetch16 0 inst)
     | k21s \<Rightarrow> rmap (\<lambda>d. ucast (VRegA_21s d)) (Fetch16 0 inst)
     | k21t \<Rightarrow> rmap (\<lambda>d. ucast (VRegA_21t d)) (Fetch16 0 inst)
     | k22b \<Rightarrow> rmap (\<lambda>d. ucast (VRegA_22b d)) (Fetch16 0 inst)
     | k22c \<Rightarrow> rmap (\<lambda>d. ucast (VRegA_22c d)) (Fetch16 0 inst)
     | k22s \<Rightarrow> rmap (\<lambda>d. ucast (VRegA_22s d)) (Fetch16 0 inst)
     | k22t \<Rightarrow> rmap (\<lambda>d. ucast (VRegA_22t d)) (Fetch16 0 inst)
     | k22x \<Rightarrow> rmap (\<lambda>d. ucast (VRegA_22x d)) (Fetch16 0 inst)
     | k23x \<Rightarrow> rmap (\<lambda>d. ucast (VRegA_23x d)) (Fetch16 0 inst)
     | k30t \<Rightarrow> rmap scast (VRegA_30t inst)
     | k31c \<Rightarrow> rmap (\<lambda>d. ucast (VRegA_31c d)) (Fetch16 0 inst)
     | k31i \<Rightarrow> rmap (\<lambda>d. ucast (VRegA_31i d)) (Fetch16 0 inst)
     | k31t \<Rightarrow> rmap (\<lambda>d. ucast (VRegA_31t d)) (Fetch16 0 inst)
     | k32x \<Rightarrow> rmap ucast (VRegA_32x inst)
     | k35c \<Rightarrow> rmap (\<lambda>d. ucast (VRegA_35c d)) (Fetch16 0 inst)
     | k3rc \<Rightarrow> rmap (\<lambda>d. ucast (VRegA_3rc d)) (Fetch16 0 inst)
     | k51l \<Rightarrow> rmap (\<lambda>d. ucast (VRegA_51l d)) (Fetch16 0 inst))"

subsection \<open>B\<close>

definition VRegB_11n :: "u16 \<Rightarrow> u8" where
  "VRegB_11n inst_data = ucast (signed_drop_bit 28 (push_bit 28 (ucast (InstB inst_data) :: u32)))"

definition VRegB_12x :: "u16 \<Rightarrow> u8" where
  "VRegB_12x inst_data = InstB inst_data"

definition VRegB_21c :: "insn \<Rightarrow> u16 res" where
  "VRegB_21c inst = Fetch16 1 inst"

definition VRegB_21h :: "insn \<Rightarrow> u16 res" where
  "VRegB_21h inst = Fetch16 1 inst"

definition VRegB_21s :: "insn \<Rightarrow> u16 res" where
  "VRegB_21s inst = Fetch16 1 inst"

definition VRegB_21t :: "insn \<Rightarrow> u16 res" where
  "VRegB_21t inst = Fetch16 1 inst"

definition VRegB_22b :: "insn \<Rightarrow> u8 res" where
  "VRegB_22b inst = rmap (\<lambda>u. ucast (u AND 0xff)) (Fetch16 1 inst)"

definition VRegB_22c :: "u16 \<Rightarrow> u8" where
  "VRegB_22c inst_data = InstB inst_data"

definition VRegB_22s :: "u16 \<Rightarrow> u8" where
  "VRegB_22s inst_data = InstB inst_data"

definition VRegB_22t :: "u16 \<Rightarrow> u8" where
  "VRegB_22t inst_data = InstB inst_data"

definition VRegB_22x :: "insn \<Rightarrow> u16 res" where
  "VRegB_22x inst = Fetch16 1 inst"

definition VRegB_23x :: "insn \<Rightarrow> u8 res" where
  "VRegB_23x inst = rmap (\<lambda>u. ucast (u AND 0xff)) (Fetch16 1 inst)"

definition VRegB_31c :: "insn \<Rightarrow> u32 res" where
  "VRegB_31c inst = Fetch32 1 inst"

definition VRegB_31i :: "insn \<Rightarrow> u32 res" where
  "VRegB_31i inst = Fetch32 1 inst"

definition VRegB_31t :: "insn \<Rightarrow> u32 res" where
  "VRegB_31t inst = Fetch32 1 inst"

definition VRegB_32x :: "insn \<Rightarrow> u16 res" where
  "VRegB_32x inst = Fetch16 2 inst"

definition VRegB_35c :: "insn \<Rightarrow> u16 res" where
  "VRegB_35c inst = Fetch16 1 inst"

definition VRegB_3rc :: "insn \<Rightarrow> u16 res" where
  "VRegB_3rc inst = Fetch16 1 inst"

definition VRegB_51l :: "insn \<Rightarrow> u64 res" where
  "VRegB_51l inst = rbind (Fetch32 1 inst) (\<lambda>lo. rbind (Fetch32 3 inst) (\<lambda>hi. Inr (ucast lo OR push_bit 32 (ucast hi))))"

definition HasVRegB :: "u8 \<Rightarrow> bool" where
  "HasVRegB opcode \<longleftrightarrow> FormatOf opcode \<in>
     {k11n, k12x, k21c, k21h, k21s, k21t, k22b, k22c, k22s, k22t, k22x,
      k23x, k31c, k31i, k31t, k32x, k35c, k3rc, k51l}"

definition VRegB :: "insn \<Rightarrow> u32 res" where
  "VRegB inst =
     rbind (Opcode inst) (\<lambda>opcode. case FormatOf opcode of
       k11n \<Rightarrow> rmap (\<lambda>d. scast (VRegB_11n d)) (Fetch16 0 inst)
     | k12x \<Rightarrow> rmap (\<lambda>d. ucast (VRegB_12x d)) (Fetch16 0 inst)
     | k21c \<Rightarrow> rmap ucast (VRegB_21c inst)
     | k21h \<Rightarrow> rmap ucast (VRegB_21h inst)
     | k21s \<Rightarrow> rmap scast (VRegB_21s inst)
     | k21t \<Rightarrow> rmap scast (VRegB_21t inst)
     | k22b \<Rightarrow> rmap ucast (VRegB_22b inst)
     | k22c \<Rightarrow> rmap (\<lambda>d. ucast (VRegB_22c d)) (Fetch16 0 inst)
     | k22s \<Rightarrow> rmap (\<lambda>d. ucast (VRegB_22s d)) (Fetch16 0 inst)
     | k22t \<Rightarrow> rmap (\<lambda>d. ucast (VRegB_22t d)) (Fetch16 0 inst)
     | k22x \<Rightarrow> rmap ucast (VRegB_22x inst)
     | k23x \<Rightarrow> rmap ucast (VRegB_23x inst)
     | k31c \<Rightarrow> rmap ucast (VRegB_31c inst)
     | k31i \<Rightarrow> rmap scast (VRegB_31i inst)
     | k31t \<Rightarrow> rmap scast (VRegB_31t inst)
     | k32x \<Rightarrow> rmap ucast (VRegB_32x inst)
     | k35c \<Rightarrow> rmap ucast (VRegB_35c inst)
     | k3rc \<Rightarrow> rmap ucast (VRegB_3rc inst)
     | k51l \<Rightarrow> rmap ucast (VRegB_51l inst)
     | _ \<Rightarrow> Inl FatalLog)"

definition HasWideVRegB :: "u8 \<Rightarrow> bool" where
  "HasWideVRegB opcode \<longleftrightarrow> FormatOf opcode = k51l"

definition WideVRegB :: "insn \<Rightarrow> u64 res" where
  "WideVRegB inst = VRegB_51l inst"

subsection \<open>C\<close>

definition VRegC_22b :: "insn \<Rightarrow> u8 res" where
  "VRegC_22b inst = rmap (\<lambda>u. ucast (drop_bit 8 u)) (Fetch16 1 inst)"

definition VRegC_22c :: "insn \<Rightarrow> u16 res" where
  "VRegC_22c inst = Fetch16 1 inst"

definition VRegC_22s :: "insn \<Rightarrow> u16 res" where
  "VRegC_22s inst = Fetch16 1 inst"

definition VRegC_22t :: "insn \<Rightarrow> u16 res" where
  "VRegC_22t inst = Fetch16 1 inst"

definition VRegC_23x :: "insn \<Rightarrow> u8 res" where
  "VRegC_23x inst = rmap (\<lambda>u. ucast (drop_bit 8 u)) (Fetch16 1 inst)"

definition VRegC_35c :: "insn \<Rightarrow> u8 res" where
  "VRegC_35c inst = rmap (\<lambda>u. ucast (u AND 0x0f)) (Fetch16 2 inst)"

definition VRegC_3rc :: "insn \<Rightarrow> u16 res" where
  "VRegC_3rc inst = Fetch16 2 inst"


definition HasVRegC :: "u8 \<Rightarrow> bool" where
  "HasVRegC opcode \<longleftrightarrow> FormatOf opcode \<in>
     {k22b, k22c, k22s, k22t, k23x, k35c, k3rc}"

definition VRegC :: "insn \<Rightarrow> u32 res" where
  "VRegC inst =
     rbind (Opcode inst) (\<lambda>opcode. case FormatOf opcode of
       k22b \<Rightarrow> rmap scast (VRegC_22b inst)
     | k22c \<Rightarrow> rmap ucast (VRegC_22c inst)
     | k22s \<Rightarrow> rmap scast (VRegC_22s inst)
     | k22t \<Rightarrow> rmap scast (VRegC_22t inst)
     | k23x \<Rightarrow> rmap ucast (VRegC_23x inst)
     | k35c \<Rightarrow> rmap ucast (VRegC_35c inst)
     | k3rc \<Rightarrow> rmap ucast (VRegC_3rc inst)
     | _ \<Rightarrow> Inl FatalLog)"

subsection \<open>Argument lists\<close>

definition HasVarArgs :: "u8 \<Rightarrow> bool" where
  "HasVarArgs opcode \<longleftrightarrow> FormatOf opcode = k35c"

text \<open>The registers of a 35c instruction; \<open>arg\<close> is the array on entry, of length 5.\<close>

definition GetVarArgs :: "u32 list \<Rightarrow> u16 \<Rightarrow> insn \<Rightarrow> u32 list res" where
  "GetVarArgs arg inst_data inst =
     rmap (\<lambda>regList.
       let count = InstB inst_data;
           nibble = \<lambda>k. ucast (drop_bit k regList AND 0x0f) :: u32;
           regs = [nibble 0, nibble 4, nibble 8, nibble 12, ucast (InstA inst_data)];
           n = (if 1 \<le> count \<and> count \<le> 5 then unat count else 0)
       in take n regs @ drop n arg)
     (Fetch16 2 inst)"

section \<open>Sizes and flags\<close>

definition kPackedSwitchSignature :: u16 where "kPackedSwitchSignature = 0x0100"
definition kSparseSwitchSignature :: u16 where "kSparseSwitchSignature = 0x0200"
definition kArrayDataSignature :: u16 where "kArrayDataSignature = 0x0300"

text \<open>The multiplication of the array payload is an unsigned one of 32 bits.\<close>

definition SizeInCodeUnitsComplexOpcode :: "insn \<Rightarrow> nat res" where
  "SizeInCodeUnitsComplexOpcode inst =
     rbind (Fetch16 0 inst) (\<lambda>u0.
     if u0 = kPackedSwitchSignature then rmap (\<lambda>n. 4 + unat n * 2) (Fetch16 1 inst)
     else if u0 = kSparseSwitchSignature then rmap (\<lambda>n. 2 + unat n * 4) (Fetch16 1 inst)
     else if u0 = kArrayDataSignature then
       rbind (Fetch16 1 inst) (\<lambda>element_size.
       rmap (\<lambda>len. unat (4 + (ucast element_size * len + 1) div 2 :: u32)) (Fetch32 2 inst))
     else if u0 AND 0xff = 0 then Inr 1
     else Inl FatalLog)"

definition SizeInCodeUnits :: "insn \<Rightarrow> nat res" where
  "SizeInCodeUnits inst =
     rbind (Opcode inst) (\<lambda>opcode.
     let result = kInstructionSizeInCodeUnits opcode in
     if result < 0 then SizeInCodeUnitsComplexOpcode inst else Inr (nat result))"

definition GetTargetOffset :: "insn \<Rightarrow> u32 res" where
  "GetTargetOffset inst =
     rbind (Opcode inst) (\<lambda>opcode. case FormatOf opcode of
       k22t \<Rightarrow> rmap scast (VRegC_22t inst)
     | k21t \<Rightarrow> rmap scast (VRegB_21t inst)
     | k10t \<Rightarrow> rmap (\<lambda>d. scast (VRegA_10t d)) (Fetch16 0 inst)
     | k20t \<Rightarrow> rmap scast (VRegA_20t inst)
     | k30t \<Rightarrow> VRegA_30t inst
     | _ \<Rightarrow> Inl FatalLog)"

definition FlagsOf :: "u8 \<Rightarrow> u32" where
  "FlagsOf opcode = kInstructionFlags opcode"

definition VerifyFlagsOf :: "u8 \<Rightarrow> u32" where
  "VerifyFlagsOf opcode = kInstructionVerifyFlags opcode"

definition IsBranch :: "u8 \<Rightarrow> bool" where
  "IsBranch opcode \<longleftrightarrow> kInstructionFlags opcode AND kBranch \<noteq> 0"

definition IsUnconditional :: "u8 \<Rightarrow> bool" where
  "IsUnconditional opcode \<longleftrightarrow> kInstructionFlags opcode AND kUnconditional \<noteq> 0"

definition CanFlowThrough :: "u8 \<Rightarrow> bool" where
  "CanFlowThrough opcode \<longleftrightarrow> FlagsOf opcode AND kContinue \<noteq> 0"

definition IsSwitch :: "u8 \<Rightarrow> bool" where
  "IsSwitch opcode \<longleftrightarrow> kInstructionFlags opcode AND kSwitch \<noteq> 0"

definition IsThrow :: "u8 \<Rightarrow> bool" where
  "IsThrow opcode \<longleftrightarrow> kInstructionFlags opcode AND kThrow \<noteq> 0"

definition IsReturn :: "u8 \<Rightarrow> bool" where
  "IsReturn opcode \<longleftrightarrow> kInstructionFlags opcode AND kReturn \<noteq> 0"

definition IsBasicBlockEnd :: "u8 \<Rightarrow> bool" where
  "IsBasicBlockEnd opcode \<longleftrightarrow> IsBranch opcode \<or> IsReturn opcode \<or> opcode = THROW"

definition IsInvoke :: "u8 \<Rightarrow> bool" where
  "IsInvoke opcode \<longleftrightarrow> kInstructionFlags opcode AND kInvoke \<noteq> 0"

text \<open>The setters write the first two code units in place.\<close>

definition SetOpcode :: "u8 \<Rightarrow> insn \<Rightarrow> insn res" where
  "SetOpcode opcode inst = rmap (\<lambda>u. inst[0 := (u AND 0xff00) OR ucast opcode]) (Fetch16 0 inst)"

definition SetVRegA_10x :: "u8 \<Rightarrow> insn \<Rightarrow> insn res" where
  "SetVRegA_10x v inst = rmap (\<lambda>u. inst[0 := push_bit 8 (ucast v) OR (u AND 0x00ff)]) (Fetch16 0 inst)"

definition SetVRegB_3rc :: "u16 \<Rightarrow> insn \<Rightarrow> insn res" where
  "SetVRegB_3rc v inst = rmap (\<lambda>u. inst[1 := v]) (Fetch16 1 inst)"

definition SetVRegB_35c :: "u16 \<Rightarrow> insn \<Rightarrow> insn res" where
  "SetVRegB_35c v inst = rmap (\<lambda>u. inst[1 := v]) (Fetch16 1 inst)"

definition SetVRegC_22c :: "u16 \<Rightarrow> insn \<Rightarrow> insn res" where
  "SetVRegC_22c v inst = rmap (\<lambda>u. inst[1 := v]) (Fetch16 1 inst)"

section \<open>Encoding\<close>

text \<open>The layout of the formats as the dex format defines it: the code units of an instruction
  with operands a, b and c.\<close>

definition unit_aa :: "u8 \<Rightarrow> u32 \<Rightarrow> u16" where
  "unit_aa opcode a = ucast opcode OR push_bit 8 (ucast a)"

definition unit_ab :: "u8 \<Rightarrow> u32 \<Rightarrow> u64 \<Rightarrow> u16" where
  "unit_ab opcode a b = ucast opcode OR push_bit 8 (take_bit 4 (ucast a)) OR push_bit 12 (ucast b)"

definition unit_at :: "nat \<Rightarrow> 'a::len word \<Rightarrow> u16" where
  "unit_at n v = ucast (drop_bit (16 * n) v)"

definition assemble :: "u8 \<Rightarrow> u32 \<Rightarrow> u64 \<Rightarrow> u32 \<Rightarrow> insn" where
  "assemble opcode a b c =
     (let f = FormatOf opcode in
      if f \<in> {k10x, k11x, k10t} then [unit_aa opcode a]
      else if f \<in> {k12x, k11n} then [unit_ab opcode a b]
      else if f = k20t then [unit_aa opcode 0, unit_at 0 a]
      else if f \<in> {k22x, k21t, k21s, k21h, k21c} then [unit_aa opcode a, unit_at 0 b]
      else if f \<in> {k23x, k22b} then [unit_aa opcode a, ucast (take_bit 8 b) OR push_bit 8 (ucast c)]
      else if f \<in> {k22t, k22s, k22c} then [unit_ab opcode a b, unit_at 0 c]
      else if f = k32x then [unit_aa opcode 0, unit_at 0 a, unit_at 0 b]
      else if f = k30t then [unit_aa opcode 0, unit_at 0 a, unit_at 1 a]
      else if f \<in> {k31t, k31i, k31c} then [unit_aa opcode a, unit_at 0 b, unit_at 1 b]
      else if f = k35c then [unit_ab opcode 0 (ucast a), unit_at 0 b, unit_at 0 c]
      else if f = k3rc then [unit_aa opcode a, unit_at 0 b, unit_at 0 c]
      else [unit_aa opcode a, unit_at 0 b, unit_at 1 b, unit_at 2 b, unit_at 3 b])"

text \<open>Whether operands fit their fields: width and sign of A, B and C.\<close>

definition ufits :: "nat \<Rightarrow> 'a::len word \<Rightarrow> bool" where
  "ufits n v \<longleftrightarrow> take_bit n v = v"

definition sfits :: "nat \<Rightarrow> 'a::len word \<Rightarrow> bool" where
  "sfits n v \<longleftrightarrow> signed_take_bit (n - 1) v = v"

definition fits_a :: "Format \<Rightarrow> u32 \<Rightarrow> bool" where
  "fits_a f a \<longleftrightarrow> (if f \<in> {k12x, k11n, k22t, k22s, k22c, k35c} then ufits 4 a
     else if f = k10t then sfits 8 a else if f = k20t then sfits 16 a
     else if f = k30t then True else if f = k32x then ufits 16 a else ufits 8 a)"

definition fits_b :: "Format \<Rightarrow> u64 \<Rightarrow> bool" where
  "fits_b f b \<longleftrightarrow> (if f \<in> {k12x, k22t, k22s, k22c} then ufits 4 b else if f = k11n then sfits 4 b
     else if f \<in> {k23x, k22b} then ufits 8 b else if f \<in> {k21t, k21s} then sfits 16 b
     else if f \<in> {k31t, k31i, k31c, k51l} then True else ufits 16 b)"

definition fits_c :: "Format \<Rightarrow> u32 \<Rightarrow> bool" where
  "fits_c f c \<longleftrightarrow> (if f = k22b then sfits 8 c else if f = k23x then ufits 8 c
     else if f \<in> {k22t, k22s} then sfits 16 c else if f = k35c then ufits 4 c else ufits 16 c)"

lemma bits_ff: "bit (0xff :: int) n \<longleftrightarrow> n < 8" "bit (0x0f :: int) n \<longleftrightarrow> n < 4" "bit (0xf :: int) n \<longleftrightarrow> n < 4"
proof -
  have "(0xff :: int) = mask 8" "(0x0f :: int) = mask 4" by (simp_all add: mask_numeral)
  then show "bit (0xff :: int) n \<longleftrightarrow> n < 8" "bit (0x0f :: int) n \<longleftrightarrow> n < 4" "bit (0xf :: int) n \<longleftrightarrow> n < 4"
    by (simp_all only: bit_mask_iff) simp_all
qed

lemma unit_opcode [simp]: "OpcodeOf (unit_aa opcode a) = opcode" "OpcodeOf (unit_ab opcode a b) = opcode"
  unfolding OpcodeOf_def unit_aa_def unit_ab_def
  by (rule bit_word_eqI, auto simp: bit_simps bits_ff)+

lemma unit_fields:
  "InstAA (unit_aa opcode a) = ucast a" "InstA (unit_ab opcode a b) = take_bit 4 (ucast a)"
  "InstB (unit_ab opcode a b) = take_bit 4 (ucast b)"
  unfolding InstAA_def InstA_def InstB_def unit_aa_def unit_ab_def
  by (rule bit_word_eqI, auto simp: bit_simps bits_ff dest: bit_imp_le_length)+

lemma assemble_opcode: "Opcode (assemble opcode a b c @ rest) = Inr opcode"
  by (simp add: Opcode_def assemble_def Let_def Fetch16_def)

lemma ufits_bit: "ufits n v \<Longrightarrow> bit v k \<Longrightarrow> k < n"
  by (metis ufits_def bit_take_bit_iff)

lemma sfits_bit:
  fixes v :: "'a::len word"
  assumes "sfits n v" "n - 1 \<le> k" "k < LENGTH('a)"
  shows "bit v k \<longleftrightarrow> bit v (n - 1)"
proof -
  have "bit (signed_take_bit (n - 1) v) k \<longleftrightarrow> bit v (n - 1)"
    using assms(2,3) by (simp add: bit_signed_take_bit_iff min_def)
  then show ?thesis using assms(1) by (simp only: sfits_def)
qed

lemma ufits_ucast:
  fixes v :: "'a::len word"
  assumes "ufits n v" "n \<le> LENGTH('b)"
  shows "ucast (ucast v :: 'b::len word) = (ucast v :: 'c::len word)"
  by (rule bit_word_eqI) (auto simp: bit_simps dest: order.strict_trans2 [OF ufits_bit [OF assms(1)] assms(2)])

lemma ufits_nibble:
  fixes v :: "'a::len word"
  assumes "ufits 4 v"
  shows "ucast (take_bit 4 (ucast v) :: u8) = (ucast v :: u32)"
  by (rule bit_word_eqI) (use ufits_bit [OF assms] in \<open>fastforce simp: bit_simps\<close>)

lemma sfits_scast:
  fixes v :: "'a::len word"
  assumes "sfits n v" "0 < n" "n \<le> LENGTH('b)" "n \<le> 32" "32 \<le> LENGTH('a)"
  shows "scast (ucast v :: 'b::len word) = (ucast v :: u32)"
proof (rule bit_word_eqI)
  fix k
  assume k: "k < LENGTH(32)"
  note b = sfits_bit [OF assms(1)]
  show "bit (scast (ucast v :: 'b word) :: u32) k = bit (ucast v :: u32) k"
    using k assms(2-5) b [of k] b [of "LENGTH('b) - 1"]
    by (auto simp: bit_signed_iff bit_simps min_def)
qed

lemma sfits_nibble:
  assumes "sfits 4 (b :: u64)"
  shows "scast (ucast (signed_drop_bit 28 (push_bit 28 (ucast (take_bit 4 (ucast b) :: u8) :: u32))) :: u8) = (ucast b :: u32)"
proof (rule bit_word_eqI)
  fix k
  assume k: "k < LENGTH(32)"
  note b = sfits_bit [OF assms, simplified]
  show "bit (scast (ucast (signed_drop_bit 28 (push_bit 28 (ucast (take_bit 4 (ucast b) :: u8) :: u32))) :: u8) :: u32) k =
      bit (ucast b :: u32) k"
    using k b [of k] b [of 7] by (cases "k < 4") (auto simp: bit_signed_iff bit_simps min_def not_less)
qed

lemma unit_at_0: "unit_at 0 v = ucast v" by (simp add: unit_at_def)

lemma unit_pair:
  "ucast (unit_at 0 v) OR push_bit 16 (ucast (unit_at 1 v)) = (ucast v :: u32)"
  unfolding unit_at_def by (rule bit_word_eqI) (auto simp: bit_simps not_le le_Suc_ex)

lemma unit_quad:
  "(ucast (ucast (unit_at 0 v) OR push_bit 16 (ucast (unit_at 1 v)) :: u32) :: u64) OR
   push_bit 32 (ucast (ucast (unit_at 2 v) OR push_bit 16 (ucast (unit_at 3 v)) :: u32)) = (v :: u64)"
proof (rule bit_word_eqI)
  fix k
  assume "k < LENGTH(64)"
  then consider "k < 16" | "16 \<le> k" "k < 32" | "32 \<le> k" "k < 48" | "48 \<le> k" "k < 64" by force
  then show "bit ((ucast (ucast (unit_at 0 v) OR push_bit 16 (ucast (unit_at 1 v)) :: u32) :: u64) OR
     push_bit 32 (ucast (ucast (unit_at 2 v) OR push_bit 16 (ucast (unit_at 3 v)) :: u32))) k = bit v k"
    by cases (auto simp: unit_at_def bit_simps)
qed

lemma byte_pair:
  "ucast ((ucast (take_bit 8 b) OR push_bit 8 (ucast c) :: u16) AND 0xff) = (ucast b :: u8)"
  "ucast (drop_bit 8 (ucast (take_bit 8 b) OR push_bit 8 (ucast c) :: u16)) = (ucast c :: u8)"
  by (rule bit_word_eqI, auto simp: bit_simps bits_ff)+

lemma low_nibble: "ucast (unit_at 0 c AND 0x0f) = (take_bit 4 (ucast c) :: u8)"
  unfolding unit_at_def by (rule bit_word_eqI) (auto simp: bit_simps bits_ff)

lemmas fetch_simps = Fetch16_def Fetch32_def Let_def
lemmas VRegA_defs = VRegA_10t_def VRegA_10x_def VRegA_11n_def VRegA_11x_def VRegA_12x_def
  VRegA_20t_def VRegA_21c_def VRegA_21h_def VRegA_21s_def VRegA_21t_def VRegA_22b_def VRegA_22c_def
  VRegA_22s_def VRegA_22t_def VRegA_22x_def VRegA_23x_def VRegA_30t_def VRegA_31c_def VRegA_31i_def
  VRegA_31t_def VRegA_32x_def VRegA_35c_def VRegA_3rc_def VRegA_51l_def
lemmas VRegB_defs = VRegB_11n_def VRegB_12x_def VRegB_21c_def VRegB_21h_def VRegB_21s_def
  VRegB_21t_def VRegB_22b_def VRegB_22c_def VRegB_22s_def VRegB_22t_def VRegB_22x_def VRegB_23x_def
  VRegB_31c_def VRegB_31i_def VRegB_31t_def VRegB_32x_def VRegB_35c_def VRegB_3rc_def VRegB_51l_def
lemmas VRegC_defs = VRegC_22b_def VRegC_22c_def VRegC_22s_def VRegC_22t_def VRegC_23x_def
  VRegC_35c_def VRegC_3rc_def

lemma unsigned_fits:
  "ufits 8 (v :: u32) \<Longrightarrow> ucast (ucast v :: u8) = v" "ufits 16 (v :: u32) \<Longrightarrow> ucast (ucast v :: u16) = v"
  "ufits 8 (w :: u64) \<Longrightarrow> ucast (ucast w :: u8) = (ucast w :: u32)" "ufits 16 w \<Longrightarrow> ucast (ucast w :: u16) = (ucast w :: u32)"
  "ufits 4 v \<Longrightarrow> ucast (take_bit 4 (ucast v :: u8)) = v"
  using ufits_ucast [of 8 v, where ?'b = 8 and ?'c = 32] ufits_ucast [of 16 v, where ?'b = 16 and ?'c = 32]
    ufits_ucast [of 8 w, where ?'b = 8 and ?'c = 32] ufits_ucast [of 16 w, where ?'b = 16 and ?'c = 32] ufits_nibble [of v]
  by simp_all

lemma signed_fits:
  "sfits 8 (v :: u32) \<Longrightarrow> scast (ucast v :: u8) = v" "sfits 16 (v :: u32) \<Longrightarrow> scast (ucast v :: u16) = v"
  "sfits 16 (w :: u64) \<Longrightarrow> scast (ucast w :: u16) = (ucast w :: u32)"
  using sfits_scast [of 8 v, where ?'b = 8] sfits_scast [of 16 v, where ?'b = 16] sfits_scast [of 16 w, where ?'b = 16]
  by simp_all

lemma wide_count: "(ucast (ucast (v :: u32) :: u64) :: u8) = ucast v"
  by (rule bit_word_eqI) (auto simp: bit_simps)

lemmas operand_simps = unit_fields unit_pair [unfolded unit_at_0 One_nat_def] unit_quad [unfolded unit_pair] wide_count
  byte_pair byte_pair(2) [unfolded drop_bit_or] low_nibble
  low_nibble [unfolded unit_at_0] unit_at_0 unsigned_fits signed_fits ufits_nibble sfits_nibble

lemma decode_a:
  assumes "fits_a (FormatOf opcode) a"
  shows "VRegA (assemble opcode a b c @ rest) = Inr a"
proof (cases "FormatOf opcode")
qed (use assms in \<open>simp_all add: VRegA_def assemble_opcode, simp_all add: assemble_def fetch_simps VRegA_defs operand_simps fits_a_def\<close>)

lemma decode_b:
  assumes "fits_b (FormatOf opcode) b" "HasVRegB opcode"
  shows "VRegB (assemble opcode a b c @ rest) = Inr (ucast b)"
proof (cases "FormatOf opcode")
qed (use assms in \<open>simp_all add: VRegB_def assemble_opcode HasVRegB_def,
    simp_all add: assemble_def fetch_simps VRegB_defs operand_simps fits_b_def\<close>)

lemma decode_c:
  assumes "fits_c (FormatOf opcode) c" "HasVRegC opcode"
  shows "VRegC (assemble opcode a b c @ rest) = Inr c"
proof (cases "FormatOf opcode")
qed (use assms in \<open>simp_all add: VRegC_def assemble_opcode HasVRegC_def,
    simp_all add: assemble_def fetch_simps VRegC_defs operand_simps fits_c_def\<close>)

lemma decode_wide:
  assumes "HasWideVRegB opcode"
  shows "WideVRegB (assemble opcode a b c @ rest) = Inr b"
  using assms by (simp add: WideVRegB_def HasWideVRegB_def assemble_def fetch_simps VRegB_51l_def operand_simps)

lemma size_assembled:
  assumes "opcode \<noteq> NOP"
  shows "SizeInCodeUnits (assemble opcode a b c @ rest) = Inr (length (assemble opcode a b c))"
proof -
  have "kInstructionSizeInCodeUnits opcode = int (length (assemble opcode a b c))"
    using assms by (cases "kInstructionFormats opcode")
      (simp_all add: kInstructionSizeInCodeUnits_def assemble_def FormatOf_def less_eq_Format_def format_rank_def)
  then show ?thesis by (simp add: SizeInCodeUnits_def assemble_opcode)
qed

text \<open>C9: an instruction assembled from an opcode and operands that fit the fields of its format
  is decoded to the same opcode, operands and size, whatever code follows it.\<close>

theorem decode_assemble:
  assumes "fits_a (FormatOf opcode) a" "fits_b (FormatOf opcode) b" "fits_c (FormatOf opcode) c"
    and "inst = assemble opcode a b c @ rest"
  shows "Opcode inst = Inr opcode \<and> VRegA inst = Inr a \<and>
     (HasVRegB opcode \<longrightarrow> VRegB inst = Inr (ucast b)) \<and> (HasWideVRegB opcode \<longrightarrow> WideVRegB inst = Inr b) \<and>
     (HasVRegC opcode \<longrightarrow> VRegC inst = Inr c) \<and>
     (opcode \<noteq> NOP \<longrightarrow> SizeInCodeUnits inst = Inr (length (assemble opcode a b c)))"
  unfolding assms(4)
  using decode_a [OF assms(1)] decode_b [OF assms(2)] decode_wide decode_c [OF assms(3)] size_assembled
  by (auto simp: assemble_opcode)

text \<open>The rows of a few opcodes.\<close>

lemma sample_formats: "FormatOf 0x44 = k23x" "FormatOf 0x18 = k51l" "FormatOf 0x32 = k22t"
  by (simp_all add: FormatOf_def kInstructionFormats_def DEX_INSTRUCTION_LIST_def nth_append DEX_INSTRUCTION_LIST_low_def)

theorem decode_assemble_witness:
  "VRegA (assemble IF_EQ 1 2 0xFFFFFFF0 @ []) = Inr 1 \<and> VRegB (assemble IF_EQ 1 2 0xFFFFFFF0 @ []) = Inr 2 \<and>
   VRegC (assemble IF_EQ 1 2 0xFFFFFFF0 @ []) = Inr 0xFFFFFFF0"
proof -
  have "fits_a k22t 1" "fits_b k22t 2" "fits_c k22t 0xFFFFFFF0"
    by code_simp+
  then show ?thesis
    using decode_assemble [of IF_EQ 1 2 "0xFFFFFFF0" "assemble IF_EQ 1 2 0xFFFFFFF0 @ []" "[]"] by (simp add: sample_formats HasVRegB_def HasVRegC_def)
qed

section \<open>The tables\<close>

text \<open>What a row of the table promises: a branch has a format with a branch offset, the code after
  a return or an unconditional branch is not reached from it, an invoke can throw and has a format
  with an argument list, and a switch has an offset to its payload.\<close>

definition row_sane :: "opcode_row \<Rightarrow> bool" where
  "row_sane row =
     (case row of (pname, f, a, v) \<Rightarrow>
     let flag = \<lambda>k. a AND k \<noteq> 0 in
     (flag kBranch \<longleftrightarrow> f \<in> {k22t, k21t, k10t, k20t, k30t}) \<and>
     (flag kReturn \<longrightarrow> \<not> flag kContinue) \<and>
     (flag kBranch \<longrightarrow> (flag kUnconditional \<longleftrightarrow> \<not> flag kContinue)) \<and>
     (flag kUnconditional \<longrightarrow> flag kBranch) \<and>
     (flag kInvoke \<longrightarrow> flag kThrow \<and> flag kContinue \<and> f \<in> {k35c, k3rc}) \<and>
     (flag kSwitch \<longrightarrow> f = k31t \<and> flag kContinue))"

lemma rows_sane: "list_all row_sane DEX_INSTRUCTION_LIST_low" "list_all row_sane DEX_INSTRUCTION_LIST_high"
  by code_simp+

lemma row_of_opcode:
  obtains pname f a v where "DEX_INSTRUCTION_LIST ! unat (opcode :: u8) = (pname, f, a, v)" "row_sane (pname, f, a, v)"
proof -
  have "unat opcode < length DEX_INSTRUCTION_LIST"
    using unsigned_less [of opcode, where ?'a = nat] by (simp add: length_list)
  then have "row_sane (DEX_INSTRUCTION_LIST ! unat opcode)"
    using rows_sane by (metis DEX_INSTRUCTION_LIST_def list_all_append list_all_length)
  with that show thesis by (metis prod_cases4)
qed

text \<open>The offset of a branch can always be read: GetTargetOffset succeeds on every assembled
  branch instruction, and fails only on instructions that are no branches.\<close>

lemma branch_has_target:
  "IsBranch opcode \<longleftrightarrow> (\<exists>offset. GetTargetOffset (assemble opcode a b c @ rest) = Inr offset)"
proof -
  obtain pname f fl v where row: "DEX_INSTRUCTION_LIST ! unat opcode = (pname, f, fl, v)" "row_sane (pname, f, fl, v)"
    by (rule row_of_opcode)
  then have f: "FormatOf opcode = f" "IsBranch opcode \<longleftrightarrow> f \<in> {k22t, k21t, k10t, k20t, k30t}"
    by (simp_all add: FormatOf_def kInstructionFormats_def IsBranch_def kInstructionFlags_def row_sane_def Let_def)
  show ?thesis
    unfolding f(2) by (cases f; simp add: GetTargetOffset_def assemble_opcode f(1))
      (simp_all add: assemble_def f(1) fetch_simps VRegA_defs VRegB_defs VRegC_defs)
qed

end
