(* ===== verification/Shadow_Frame.thy ===== *)
theory Shadow_Frame
  imports Art_Class
begin

text \<open>
  Frames of the interpreter (runtime/stack.h and stack.cc). A frame has one memory block:
  the virtual registers and, right behind them, one reference per register, which is what the
  garbage collector sees. \<open>slots\<close> is that block; an access is checked against the block and not
  against the number of registers, as in a release build.
\<close>

section \<open>Frames\<close>

record ShadowFrame =
  number_of_vregs :: nat
  sf_method :: ptr
  sf_dex_pc :: u32
  slots :: "u32 list"

definition Create :: "nat \<Rightarrow> ptr \<Rightarrow> u32 \<Rightarrow> ShadowFrame" where
  "Create num_vregs mp pc =
     \<lparr>number_of_vregs = num_vregs, sf_method = mp, sf_dex_pc = pc, slots = replicate (num_vregs + num_vregs) 0\<rparr>"

definition load_slot :: "nat \<Rightarrow> ShadowFrame \<Rightarrow> u32 res" where
  "load_slot k f = (if k < length (slots f) then Inr (slots f ! k) else Inl OutOfBounds)"

definition store_slot :: "nat \<Rightarrow> u32 \<Rightarrow> ShadowFrame \<Rightarrow> ShadowFrame res" where
  "store_slot k v f = (if k < length (slots f) then Inr (f\<lparr>slots := (slots f)[k := v]\<rparr>) else Inl OutOfBounds)"

definition SetDexPC :: "u32 \<Rightarrow> ShadowFrame \<Rightarrow> ShadowFrame" where
  "SetDexPC pc f = f\<lparr>sf_dex_pc := pc\<rparr>"

text \<open>References are behind the registers.\<close>

definition ref_slot :: "nat \<Rightarrow> ShadowFrame \<Rightarrow> nat" where
  "ref_slot i f = number_of_vregs f + i"

definition clear_reference :: "nat \<Rightarrow> ShadowFrame \<Rightarrow> ShadowFrame res" where
  "clear_reference i f = store_slot (ref_slot i f) 0 f"

section \<open>Registers\<close>

definition GetVReg :: "nat \<Rightarrow> ShadowFrame \<Rightarrow> u32 res" where
  "GetVReg i f = load_slot i f"

text \<open>A float is the word of its bits, a double the double word of its bits.\<close>

definition GetVRegFloat :: "nat \<Rightarrow> ShadowFrame \<Rightarrow> u32 res" where
  "GetVRegFloat i f = load_slot i f"

definition long_of :: "u32 \<Rightarrow> u32 \<Rightarrow> u64" where
  "long_of lo hi = ucast lo OR push_bit 32 (ucast hi)"

definition GetVRegLong :: "nat \<Rightarrow> ShadowFrame \<Rightarrow> u64 res" where
  "GetVRegLong i f = rbind (load_slot i f) (\<lambda>lo. rmap (long_of lo) (load_slot (i + 1) f))"

definition GetVRegDouble :: "nat \<Rightarrow> ShadowFrame \<Rightarrow> u64 res" where
  "GetVRegDouble i f = rbind (load_slot i f) (\<lambda>lo. rmap (long_of lo) (load_slot (i + 1) f))"

definition GetVRegReference :: "nat \<Rightarrow> ShadowFrame \<Rightarrow> ptr res" where
  "GetVRegReference i f = load_slot (ref_slot i f) f"

definition SetVReg :: "nat \<Rightarrow> u32 \<Rightarrow> ShadowFrame \<Rightarrow> ShadowFrame res" where
  "SetVReg i v f = rbind (store_slot i v f) (clear_reference i)"

definition SetVRegFloat :: "nat \<Rightarrow> u32 \<Rightarrow> ShadowFrame \<Rightarrow> ShadowFrame res" where
  "SetVRegFloat i v f = rbind (store_slot i v f) (clear_reference i)"

definition store_long :: "nat \<Rightarrow> u64 \<Rightarrow> ShadowFrame \<Rightarrow> ShadowFrame res" where
  "store_long i v f = rbind (store_slot i (ucast v) f) (store_slot (i + 1) (ucast (drop_bit 32 v)))"

definition SetVRegLong :: "nat \<Rightarrow> u64 \<Rightarrow> ShadowFrame \<Rightarrow> ShadowFrame res" where
  "SetVRegLong i v f = rbind (store_long i v f) (\<lambda>f. rbind (clear_reference i f) (clear_reference (i + 1)))"

definition SetVRegDouble :: "nat \<Rightarrow> u64 \<Rightarrow> ShadowFrame \<Rightarrow> ShadowFrame res" where
  "SetVRegDouble i v f = rbind (store_long i v f) (\<lambda>f. rbind (clear_reference i f) (clear_reference (i + 1)))"

definition SetVRegReference :: "nat \<Rightarrow> ptr \<Rightarrow> ShadowFrame \<Rightarrow> ShadowFrame res" where
  "SetVRegReference i v f = rbind (store_slot i v f) (store_slot (ref_slot i f) v)"

text \<open>GetThisObject with the number of ins at hand, and the variant that looks at the code item;
  \<open>regs\<close> and \<open>ins\<close> are the sizes in the code item, if the method has one.\<close>

definition GetThisObject :: "ArtMethod \<Rightarrow> u16 \<Rightarrow> ShadowFrame \<Rightarrow> ptr res" where
  "GetThisObject m num_ins f =
     (if IsStatic m then Inr 0
      else GetVRegReference (unat (of_nat (number_of_vregs f) - ucast num_ins :: u32)) f)"

definition GetThisObject_code_item :: "ArtMethod \<Rightarrow> (u16 \<times> u16) option \<Rightarrow> ShadowFrame \<Rightarrow> ptr res" where
  "GetThisObject_code_item m code_item f =
     (if IsStatic m then Inr 0
      else if IsNative m then GetVRegReference 0 f
      else case code_item of
        None \<Rightarrow> Inl CheckFailed
      | Some (registers_size, ins_size) \<Rightarrow> GetVRegReference (unat (registers_size - ins_size)) f)"

section \<open>The stack of frames\<close>

definition PushShadowFrame :: "ShadowFrame \<Rightarrow> ShadowFrame list \<Rightarrow> ShadowFrame list" where
  "PushShadowFrame f fs = f # fs"

definition PopShadowFrame :: "ShadowFrame list \<Rightarrow> (ShadowFrame \<times> ShadowFrame list) res" where
  "PopShadowFrame fs = (case fs of [] \<Rightarrow> Inl CheckFailed | f # fs \<Rightarrow> Inr (f, fs))"

section \<open>What a frame promises\<close>

text \<open>The block has two slots per register, and a reference is null or the value of its register.
  The second half lets a moving collector update a register along with its reference.\<close>

definition vreg_at :: "ShadowFrame \<Rightarrow> nat \<Rightarrow> u32" where
  "vreg_at f i = slots f ! i"

definition ref_at :: "ShadowFrame \<Rightarrow> nat \<Rightarrow> ptr" where
  "ref_at f i = slots f ! ref_slot i f"

definition frame_ok :: "ShadowFrame \<Rightarrow> bool" where
  "frame_ok f \<longleftrightarrow> length (slots f) = 2 * number_of_vregs f \<and>
     (\<forall>i < number_of_vregs f. ref_at f i = 0 \<or> ref_at f i = vreg_at f i)"

definition same_shape :: "ShadowFrame \<Rightarrow> ShadowFrame \<Rightarrow> bool" where
  "same_shape f g \<longleftrightarrow> number_of_vregs g = number_of_vregs f \<and> sf_method g = sf_method f \<and>
     sf_dex_pc g = sf_dex_pc f \<and> length (slots g) = length (slots f)"

lemma same_shape_refl [simp]: "same_shape f f"
  by (simp add: same_shape_def)

lemma same_shape_trans: "same_shape f g \<Longrightarrow> same_shape g h \<Longrightarrow> same_shape f h"
  by (simp add: same_shape_def)

lemma Create_ok: "frame_ok (Create n mp pc)"
  by (auto simp: frame_ok_def Create_def ref_at_def vreg_at_def ref_slot_def)

text \<open>The contract of a kind of register access: \<open>width\<close> consecutive registers are written, the
  value can be read back, all other registers and references are kept, and so is the frame's
  invariant.\<close>

locale register_access =
  fixes get :: "nat \<Rightarrow> ShadowFrame \<Rightarrow> 'v res"
    and put :: "nat \<Rightarrow> 'v \<Rightarrow> ShadowFrame \<Rightarrow> ShadowFrame res"
    and width :: nat
  assumes read_total: "frame_ok f \<Longrightarrow> i + width \<le> number_of_vregs f \<Longrightarrow> \<exists>v. get i f = Inr v"
    and write_total: "frame_ok f \<Longrightarrow> i + width \<le> number_of_vregs f \<Longrightarrow> \<exists>f'. put i v f = Inr f'"
    and read_write: "frame_ok f \<Longrightarrow> i + width \<le> number_of_vregs f \<Longrightarrow> put i v f = Inr f' \<Longrightarrow> get i f' = Inr v"
    and write_other: "frame_ok f \<Longrightarrow> i + width \<le> number_of_vregs f \<Longrightarrow> put i v f = Inr f' \<Longrightarrow>
       j < number_of_vregs f \<Longrightarrow> j < i \<or> i + width \<le> j \<Longrightarrow> vreg_at f' j = vreg_at f j \<and> ref_at f' j = ref_at f j"
    and write_ok: "frame_ok f \<Longrightarrow> i + width \<le> number_of_vregs f \<Longrightarrow> put i v f = Inr f' \<Longrightarrow> frame_ok f'"
    and write_shape: "put i v f = Inr f' \<Longrightarrow> same_shape f f'"
begin

text \<open>A move copies a register of this kind and keeps the frame's invariant.\<close>

lemma move:
  assumes "frame_ok f" "i + width \<le> number_of_vregs f" "j + width \<le> number_of_vregs f"
  shows "\<exists>v f'. get j f = Inr v \<and> put i v f = Inr f' \<and> frame_ok f' \<and> same_shape f f' \<and> get i f' = Inr v"
  using read_total [OF assms(1,3)] write_total [OF assms(1,2)] write_ok [OF assms(1,2)] write_shape
    read_write [OF assms(1,2)] by blast

end

section \<open>The kinds of register\<close>

lemma store_slot_eq:
  "store_slot k v f = Inr f' \<longleftrightarrow> k < length (slots f) \<and> f' = f\<lparr>slots := (slots f)[k := v]\<rparr>"
  by (auto simp: store_slot_def)

lemma load_slot_eq: "load_slot k f = Inr v \<longleftrightarrow> k < length (slots f) \<and> v = slots f ! k"
  by (auto simp: load_slot_def)

lemma long_of_parts [simp]:
  "long_of (ucast v) (ucast (drop_bit 32 v)) = v"
  "ucast (long_of lo hi) = lo" "ucast (drop_bit 32 (long_of lo hi)) = hi"
  unfolding long_of_def by (rule bit_word_eqI, auto simp: bit_simps dest: bit_imp_le_length)+

lemmas frame_defs = frame_ok_def vreg_at_def ref_at_def ref_slot_def same_shape_def
lemmas access_defs = GetVReg_def GetVRegFloat_def GetVRegLong_def GetVRegDouble_def GetVRegReference_def
  SetVReg_def SetVRegFloat_def SetVRegLong_def SetVRegDouble_def SetVRegReference_def
  store_long_def clear_reference_def

interpretation int: register_access GetVReg SetVReg 1
  by unfold_locales (auto simp: access_defs frame_defs rbind_eq_Inr store_slot_eq load_slot_eq nth_list_update)

interpretation float: register_access GetVRegFloat SetVRegFloat 1
  by unfold_locales (auto simp: access_defs frame_defs rbind_eq_Inr store_slot_eq load_slot_eq nth_list_update)

interpretation ref: register_access GetVRegReference SetVRegReference 1
  by unfold_locales (auto simp: access_defs frame_defs rbind_eq_Inr store_slot_eq load_slot_eq nth_list_update)

interpretation long: register_access GetVRegLong SetVRegLong 2
  by unfold_locales (auto simp: access_defs frame_defs rbind_eq_Inr store_slot_eq load_slot_eq nth_list_update)

interpretation double: register_access GetVRegDouble SetVRegDouble 2
  by unfold_locales (auto simp: access_defs frame_defs rbind_eq_Inr store_slot_eq load_slot_eq nth_list_update)

end
