(* ===== verification/Interpreter_Math.thy ===== *)
theory Interpreter_Math
  imports Bisection Dex_Instruction Shadow_Frame "HOL-Library.Signed_Division"
begin

text \<open>
  What the interpreter computes without the rest of the runtime: wrapping arithmetic
  (runtime/interpreter/safe\_math.h), division, and the two switch instructions
  (runtime/interpreter/interpreter\_common.h). Signed integers are words; a division that throws
  answers None.
\<close>

section \<open>Arithmetic\<close>

text \<open>Both operands are converted to the unsigned type of the wider one; the result has that
  width.\<close>

definition SafeMath :: "('c :: len word \<Rightarrow> 'c word \<Rightarrow> 'c word) \<Rightarrow> 'a :: len word \<Rightarrow> 'b :: len word \<Rightarrow> 'c word" where
  "SafeMath f a b = f (scast a) (scast b)"

definition SafeAdd :: "'a :: len word \<Rightarrow> 'b :: len word \<Rightarrow> 'c :: len word" where
  "SafeAdd = SafeMath (+)"

definition SafeSub :: "'a :: len word \<Rightarrow> 'b :: len word \<Rightarrow> 'c :: len word" where
  "SafeSub = SafeMath (-)"

definition SafeMul :: "'a :: len word \<Rightarrow> 'b :: len word \<Rightarrow> 'c :: len word" where
  "SafeMul = SafeMath (*)"

text \<open>The operators / and % of the language, on operands for which they are defined.\<close>

definition c_div :: "'a :: len word \<Rightarrow> 'a word \<Rightarrow> 'a word" where
  "c_div a b = word_of_int (sint a sdiv sint b)"

definition c_mod :: "'a :: len word \<Rightarrow> 'a word \<Rightarrow> 'a word" where
  "c_mod a b = word_of_int (sint a smod sint b)"

definition kMinInt :: u32 where "kMinInt = 0x80000000"
definition kMinLong :: u64 where "kMinLong = 0x8000000000000000"

definition DoIntDivide :: "ShadowFrame \<Rightarrow> nat \<Rightarrow> u32 \<Rightarrow> u32 \<Rightarrow> ShadowFrame option res" where
  "DoIntDivide f result_reg dividend divisor =
     (if divisor = 0 then Inr None
      else if dividend = kMinInt \<and> divisor = - 1 then rmap Some (SetVReg result_reg kMinInt f)
      else rmap Some (SetVReg result_reg (c_div dividend divisor) f))"

definition DoIntRemainder :: "ShadowFrame \<Rightarrow> nat \<Rightarrow> u32 \<Rightarrow> u32 \<Rightarrow> ShadowFrame option res" where
  "DoIntRemainder f result_reg dividend divisor =
     (if divisor = 0 then Inr None
      else if dividend = kMinInt \<and> divisor = - 1 then rmap Some (SetVReg result_reg 0 f)
      else rmap Some (SetVReg result_reg (c_mod dividend divisor) f))"

definition DoLongDivide :: "ShadowFrame \<Rightarrow> nat \<Rightarrow> u64 \<Rightarrow> u64 \<Rightarrow> ShadowFrame option res" where
  "DoLongDivide f result_reg dividend divisor =
     (if divisor = 0 then Inr None
      else if dividend = kMinLong \<and> divisor = - 1 then rmap Some (SetVRegLong result_reg kMinLong f)
      else rmap Some (SetVRegLong result_reg (c_div dividend divisor) f))"

definition DoLongRemainder :: "ShadowFrame \<Rightarrow> nat \<Rightarrow> u64 \<Rightarrow> u64 \<Rightarrow> ShadowFrame option res" where
  "DoLongRemainder f result_reg dividend divisor =
     (if divisor = 0 then Inr None
      else if dividend = kMinLong \<and> divisor = - 1 then rmap Some (SetVRegLong result_reg 0 f)
      else rmap Some (SetVRegLong result_reg (c_mod dividend divisor) f))"

section \<open>Switches\<close>

definition IsBackwardBranch :: "u32 \<Rightarrow> bool" where
  "IsBackwardBranch branch_offset \<longleftrightarrow> branch_offset \<le>s 0"

text \<open>The code unit at an address relative to the instructions of the method.\<close>

definition code_at :: "u16 list \<Rightarrow> int \<Rightarrow> insn" where
  "code_at insns k = (if 0 \<le> k then drop (nat k) insns else [])"

definition switch_data :: "u16 list \<Rightarrow> u32 \<Rightarrow> insn res" where
  "switch_data insns pc = rmap (\<lambda>off. code_at insns (uint pc + sint off)) (VRegB_31t (code_at insns (uint pc)))"

definition DoPackedSwitch :: "u16 list \<Rightarrow> u32 \<Rightarrow> ShadowFrame \<Rightarrow> u16 \<Rightarrow> u32 res" where
  "DoPackedSwitch insns pc f inst_data =
     rbind (switch_data insns pc) (\<lambda>data.
     rbind (GetVReg (unat (VRegA_31t inst_data)) f) (\<lambda>test_val.
     rbind (Fetch16 1 data) (\<lambda>sz.
     if sz = 0 then Inr 3
     else rbind (Fetch32 2 data) (\<lambda>first_key.
       let index = test_val - first_key in
       if 0 \<le>s index \<and> sint index < uint sz then Fetch32 (4 + 2 * nat (sint index)) data
       else Inr 3))))"

function sparse_loop :: "insn \<Rightarrow> u16 \<Rightarrow> u32 \<Rightarrow> int \<Rightarrow> int \<Rightarrow> u32 res" where
  "sparse_loop data sz test_val lo hi =
     (if lo \<le> hi then
        let mid = (lo + hi) div 2 in
        rbind (Fetch32 (2 + 2 * nat mid) data) (\<lambda>foundVal.
        if test_val <s foundVal then sparse_loop data sz test_val lo (mid - 1)
        else if foundVal <s test_val then sparse_loop data sz test_val (mid + 1) hi
        else Fetch32 (2 + 2 * unat sz + 2 * nat mid) data)
      else Inr 3)"
  by pat_completeness auto
termination
  by (relation "measure (\<lambda>(_, _, _, lo, hi). nat (hi - lo + 1))") auto

declare sparse_loop.simps [simp del]

definition DoSparseSwitch :: "u16 list \<Rightarrow> u32 \<Rightarrow> ShadowFrame \<Rightarrow> u16 \<Rightarrow> u32 res" where
  "DoSparseSwitch insns pc f inst_data =
     rbind (switch_data insns pc) (\<lambda>data.
     rbind (GetVReg (unat (VRegA_31t inst_data)) f) (\<lambda>test_val.
     rbind (Fetch16 1 data) (\<lambda>sz.
     if sz = 0 then Inr 3 else sparse_loop data sz test_val 0 (uint sz - 1))))"

section \<open>Division as in the Java language\<close>

text \<open>The quotient is rounded towards zero, the remainder has the sign of the dividend, and the
  only quotient that does not fit wraps around.\<close>

definition java_div :: "'a :: len word \<Rightarrow> 'a word \<Rightarrow> 'a word" where
  "java_div a b = word_of_int (sgn (sint a) * sgn (sint b) * (\<bar>sint a\<bar> div \<bar>sint b\<bar>))"

definition java_rem :: "'a :: len word \<Rightarrow> 'a word \<Rightarrow> 'a word" where
  "java_rem a b = word_of_int (sgn (sint a) * (\<bar>sint a\<bar> mod \<bar>sint b\<bar>))"

lemma c_div_java: "c_div a b = java_div a b"
  by (simp add: c_div_def java_div_def signed_divide_int_def)

lemma c_mod_java: "c_mod a b = java_rem a b"
proof -
  have "sint a smod sint b = sgn (sint a) * (\<bar>sint a\<bar> mod \<bar>sint b\<bar>)"
    by (simp add: signed_modulo_int_def)
  then show ?thesis by (simp add: c_mod_def java_rem_def)
qed

lemma min_by_minus_one:
  "java_div kMinInt (- 1) = kMinInt" "java_rem kMinInt (- 1) = 0"
  "java_div kMinLong (- 1) = kMinLong" "java_rem kMinLong (- 1) = 0"
  by (simp_all add: java_div_def java_rem_def kMinInt_def kMinLong_def)

lemma divide_java:
  "DoIntDivide f r a b = (if b = 0 then Inr None else rmap Some (SetVReg r (java_div a b) f))"
  "DoIntRemainder f r a b = (if b = 0 then Inr None else rmap Some (SetVReg r (java_rem a b) f))"
  "DoLongDivide f r c d = (if d = 0 then Inr None else rmap Some (SetVRegLong r (java_div c d) f))"
  "DoLongRemainder f r c d = (if d = 0 then Inr None else rmap Some (SetVRegLong r (java_rem c d) f))"
  by (simp_all add: DoIntDivide_def DoIntRemainder_def DoLongDivide_def DoLongRemainder_def
      c_div_java c_mod_java min_by_minus_one)

lemma sint_range: "- (2 ^ (LENGTH('a) - 1)) \<le> sint (a :: 'a :: len word)" "sint a < 2 ^ (LENGTH('a) - 1)"
  using sint_ge [of a] sint_lt [of a] by simp_all

lemma sint_java_rem:
  fixes a b :: "'a :: len word"
  assumes "b \<noteq> 0"
  shows "sint (java_rem a b) = sgn (sint a) * (\<bar>sint a\<bar> mod \<bar>sint b\<bar>)"
proof -
  have b: "0 < \<bar>sint b\<bar>" using assms by (simp add: signed_eq_0_iff)
  let ?m = "\<bar>sint a\<bar> mod \<bar>sint b\<bar>"
  have m: "0 \<le> ?m" "?m < \<bar>sint b\<bar>" "?m \<le> \<bar>sint a\<bar>" using b by (simp_all add: zmod_le_nonneg_dividend)
  have "\<bar>sint b\<bar> \<le> 2 ^ (LENGTH('a) - 1)" using sint_range [of b] by linarith
  then have "- (2 ^ (LENGTH('a) - 1)) \<le> sgn (sint a) * ?m" "sgn (sint a) * ?m < 2 ^ (LENGTH('a) - 1)"
    using m by (auto simp: sgn_if)
  then show ?thesis
    unfolding java_rem_def by (simp only: signed_of_int One_nat_def of_int_eq_id id_apply signed_take_bit_int_eq_self)
qed

lemma java_div_rem:
  fixes a b :: "'a :: len word"
  assumes "b \<noteq> 0"
  shows "a = java_div a b * b + java_rem a b" "\<bar>sint (java_rem a b)\<bar> < \<bar>sint b\<bar>"
    "java_rem a b = 0 \<or> sgn (sint (java_rem a b)) = sgn (sint a)"
proof -
  let ?x = "sint a" and ?y = "sint b"
  have "sgn ?x * sgn ?y * (\<bar>?x\<bar> div \<bar>?y\<bar>) * ?y = sgn ?x * ((\<bar>?x\<bar> div \<bar>?y\<bar>) * \<bar>?y\<bar>)"
    by (simp add: abs_sgn mult.assoc mult.left_commute)
  then have "sgn ?x * sgn ?y * (\<bar>?x\<bar> div \<bar>?y\<bar>) * ?y + sgn ?x * (\<bar>?x\<bar> mod \<bar>?y\<bar>) =
      sgn ?x * (\<bar>?x\<bar> div \<bar>?y\<bar> * \<bar>?y\<bar> + \<bar>?x\<bar> mod \<bar>?y\<bar>)"
    by (simp only: distrib_left)
  also have "\<dots> = ?x" by (simp only: div_mult_mod_eq sgn_mult_abs)
  finally have "sgn ?x * sgn ?y * (\<bar>?x\<bar> div \<bar>?y\<bar>) * ?y + sgn ?x * (\<bar>?x\<bar> mod \<bar>?y\<bar>) = ?x" .
  from arg_cong [OF this, of "word_of_int :: int \<Rightarrow> 'a word"] show "a = java_div a b * b + java_rem a b"
    by (simp add: java_div_def java_rem_def)
  have y: "0 < \<bar>?y\<bar>" using assms by (simp add: signed_eq_0_iff)
  then have "0 \<le> \<bar>?x\<bar> mod \<bar>?y\<bar>" "\<bar>?x\<bar> mod \<bar>?y\<bar> < \<bar>?y\<bar>" by simp_all
  then show "\<bar>sint (java_rem a b)\<bar> < \<bar>sint b\<bar>" using y
    unfolding sint_java_rem [OF assms] by (auto simp: sgn_if)
  show "java_rem a b = 0 \<or> sgn (sint (java_rem a b)) = sgn (sint a)"
  proof (cases "?x = 0 \<or> \<bar>?x\<bar> mod \<bar>?y\<bar> = 0")
    case True then show ?thesis by (auto simp: java_rem_def)
  next
    case False
    then have "0 < \<bar>?x\<bar> mod \<bar>?y\<bar>" using \<open>0 \<le> \<bar>?x\<bar> mod \<bar>?y\<bar>\<close> by linarith
    then show ?thesis unfolding sint_java_rem [OF assms] by (simp add: sgn_mult)
  qed
qed



section \<open>What the switches select\<close>

definition units :: "u32 \<Rightarrow> u16 list" where
  "units v = [ucast v, ucast (drop_bit 16 v)]"

lemma length_units [simp]: "length (units v) = 2"
  by (simp add: units_def)

lemma length_concat_units [simp]: "length (concat (map units vs)) = 2 * length vs"
  by (induction vs) simp_all

lemma Fetch32_units: "Fetch32 (length pre) (pre @ units v @ post) = Inr v"
proof -
  have "(ucast (ucast v :: u16) :: u32) OR push_bit 16 (ucast (ucast (drop_bit 16 v) :: u16)) = v"
    by (rule bit_word_eqI) (auto simp: bit_simps)
  then show ?thesis by (simp add: Fetch32_def Fetch16_def units_def nth_append)
qed

lemma Fetch32_nth:
  assumes "i < length vs" "n = length pre"
  shows "Fetch32 (n + 2 * i) (pre @ concat (map units vs) @ post) = Inr (vs ! i)"
proof -
  have "concat (map units vs) = concat (map units (take i vs)) @ units (vs ! i) @ concat (map units (drop (Suc i) vs))"
    using assms(1) by (metis concat.simps(2) concat_append id_take_nth_drop list.simps(9) map_append)
  then show ?thesis
    using Fetch32_units [of "pre @ concat (map units (take i vs))"] assms by simp
qed

text \<open>The payload of a sparse switch: its keys and the targets that belong to them.\<close>

definition sparse_payload :: "u32 list \<Rightarrow> u32 list \<Rightarrow> u16 list" where
  "sparse_payload keys targets =
     [kSparseSwitchSignature, of_nat (length keys)] @ concat (map units keys) @ concat (map units targets)"

definition packed_payload :: "u32 \<Rightarrow> u32 list \<Rightarrow> u16 list" where
  "packed_payload first_key targets =
     [kPackedSwitchSignature, of_nat (length targets)] @ units first_key @ concat (map units targets)"

definition sparse_probe :: "insn \<Rightarrow> u32 \<Rightarrow> int \<Rightarrow> side res" where
  "sparse_probe data v i = rmap (\<lambda>k. if v <s k then Below else if k <s v then side.Above else Hit) (Fetch32 (2 + 2 * nat i) data)"

lemma sparse_loop_bisect:
  "sparse_loop data sz v lo hi = rbind (bisect (sparse_probe data v) lo hi) (\<lambda>r.
     case r of None \<Rightarrow> Inr 3 | Some i \<Rightarrow> Fetch32 (2 + 2 * unat sz + 2 * nat i) data)"
proof (induction data sz v lo hi rule: sparse_loop.induct)
  case (1 data sz v lo hi)
  let ?m = "(lo + hi) div 2"
  show ?case
  proof (cases "lo \<le> hi")
    case False then show ?thesis by (subst sparse_loop.simps, subst bisect.simps) simp
  next
    case True
    show ?thesis
    proof (cases "Fetch32 (2 + 2 * nat ?m) data")
      case (Inl e)
      with True show ?thesis by (subst sparse_loop.simps, subst bisect.simps) (simp add: sparse_probe_def)
    next
      case (Inr k)
      then have "sparse_probe data v ?m = Inr (if v <s k then Below else if k <s v then side.Above else Hit)"
        by (simp add: sparse_probe_def)
      with "1.IH" [OF True refl Inr] True Inr show ?thesis
        by (subst sparse_loop.simps, subst bisect.simps) (simp add: Let_def)
    qed
  qed
qed

lemma sparse_Fetch:
  assumes "data = sparse_payload keys targets @ rest" "length targets = length keys" "i < length keys"
  shows "Fetch32 (2 + 2 * i) data = Inr (keys ! i)" "Fetch32 (2 + 2 * length keys + 2 * i) data = Inr (targets ! i)"
proof -
  let ?pre = "[kSparseSwitchSignature, of_nat (length keys)]"
  show "Fetch32 (2 + 2 * i) data = Inr (keys ! i)"
    using Fetch32_nth [OF assms(3), of 2 ?pre "concat (map units targets) @ rest"] assms(1) by (simp add: sparse_payload_def)
  show "Fetch32 (2 + 2 * length keys + 2 * i) data = Inr (targets ! i)"
    using Fetch32_nth [of i targets "2 + 2 * length keys" "?pre @ concat (map units keys)" rest] assms
    by (simp add: sparse_payload_def)
qed

lemma sparse_probe_nth:
  assumes "data = sparse_payload keys targets @ rest" "length targets = length keys" "0 \<le> i" "i < int (length keys)"
  shows "sparse_probe data v i = Inr (if v <s keys ! nat i then Below else if keys ! nat i <s v then side.Above else Hit)"
  using sparse_Fetch(1) [OF assms(1,2), of "nat i"] assms(3,4) by (simp add: sparse_probe_def)

lemma sparse_ordered:
  assumes "data = sparse_payload keys targets @ rest" "length targets = length keys" "sorted_wrt (<s) keys"
  shows "ordered_probe (sparse_probe data v) 0 (int (length keys) - 1)"
proof -
  have "sint (keys ! nat i) < sint (keys ! nat j)" if "0 \<le> i" "i < j" "j < int (length keys)" for i j
    using assms(3) that by (auto simp: sorted_wrt_iff_nth_less word_sless_alt)
  then show ?thesis
    unfolding ordered_probe_def by (auto simp: sparse_probe_nth [OF assms(1,2)] word_sless_alt; force)
qed

lemma sorted_keys_distinct: "sorted_wrt (<s) (keys :: u32 list) \<Longrightarrow> distinct keys"
  by (auto simp: distinct_conv_nth sorted_wrt_iff_nth_less word_sless_alt) (metis linorder_neqE_nat order_less_irrefl)

lemma sparse_loop_map_of:
  assumes "data = sparse_payload keys targets @ rest" "length targets = length keys" "sorted_wrt (<s) keys" "unat sz = length keys"
  shows "sparse_loop data sz v 0 (int (length keys) - 1) = Inr (case map_of (zip keys targets) v of Some t \<Rightarrow> t | None \<Rightarrow> 3)"
proof (cases "v \<in> set keys")
  case True
  then obtain i where i: "i < length keys" "keys ! i = v" by (auto simp: in_set_conv_nth)
  have "bisect (sparse_probe data v) 0 (int (length keys) - 1) = Inr (Some (int i))"
    by (rule bisect_finds [OF sparse_ordered [OF assms(1-3)]]) (use i in \<open>auto simp: sparse_probe_nth [OF assms(1,2)]\<close>)
  moreover have "map_of (zip keys targets) v = Some (targets ! i)"
    using map_of_zip_nth [OF assms(2) [symmetric] sorted_keys_distinct [OF assms(3)], of i] i assms(2) by simp
  ultimately show ?thesis
    using sparse_Fetch(2) [OF assms(1,2) i(1)] by (simp add: sparse_loop_bisect assms(4))
next
  case False
  have "bisect (sparse_probe data v) 0 (int (length keys) - 1) = Inr None"
  proof (rule bisect_misses [OF sparse_ordered [OF assms(1-3)]])
    fix i assume i: "0 \<le> i" "i \<le> int (length keys) - 1"
    then have "keys ! nat i \<noteq> v" using False by (metis nat_less_iff nth_mem zle_diff1_eq)
    then have "v <s keys ! nat i \<or> keys ! nat i <s v" by (metis linorder_neqE signed_word_eqI word_sless_alt)
    with i show "sparse_probe data v i \<noteq> Inr Hit" by (auto simp: sparse_probe_nth [OF assms(1,2)])
  qed
  moreover have "map_of (zip keys targets) v = None" using False assms(2) by simp
  ultimately show ?thesis by (simp add: sparse_loop_bisect)
qed

text \<open>C37: a sparse switch with ascending keys ends for every value and jumps to the target that
  belongs to the value, or behind the instruction when the value is not among the keys.\<close>

theorem sparse_switch_selects:
  assumes "VRegB_31t (code_at insns (uint pc)) = Inr off"
    and "code_at insns (uint pc + sint off) = sparse_payload keys targets @ rest"
    and "length targets = length keys" "length keys < 2 ^ 16" "sorted_wrt (<s) keys"
    and "GetVReg (unat (VRegA_31t d)) f = Inr v"
  shows "DoSparseSwitch insns pc f d = Inr (case map_of (zip keys targets) v of Some t \<Rightarrow> t | None \<Rightarrow> 3)"
proof -
  let ?data = "sparse_payload keys targets @ rest" and ?sz = "of_nat (length keys) :: u16"
  have sz: "unat ?sz = length keys" using assms(4) by (simp add: unsigned_of_nat take_bit_nat_eq_self)
  have "Fetch16 1 ?data = Inr ?sz" by (simp add: Fetch16_def sparse_payload_def)
  moreover have "uint ?sz = int (length keys)" using sz by (metis uint_nat)
  ultimately have "DoSparseSwitch insns pc f d =
      (if ?sz = 0 then Inr 3 else sparse_loop ?data ?sz v 0 (int (length keys) - 1))"
    using assms(1,2,6) by (simp add: DoSparseSwitch_def switch_data_def)
  moreover have "?sz = 0 \<longleftrightarrow> keys = []" using sz by (metis length_0_conv unsigned_0 unsigned_eq_0_iff)
  ultimately show ?thesis using sparse_loop_map_of [OF refl assms(3,5) sz, of rest v] by simp
qed

lemma mod_near:
  "- m \<le> z \<Longrightarrow> z < 2 * m \<Longrightarrow> z mod m = (if z < 0 then z + m else if z < m then z else z - m)" for z m :: int
  using mod_pos_pos_trivial [of z m] mod_pos_pos_trivial [of "z + m" m] mod_pos_pos_trivial [of "z - m" m]
  by auto

text \<open>A switch on register 0 with the payload behind it and the keys -7 and 300.\<close>

definition sample_switch :: "u16 list" where
  "sample_switch = [0x002c, 4, 0, 0] @ sparse_payload [- 7, 300] [0x10, 0x20]"

theorem sparse_switch_selects_witness:
  "map (\<lambda>v. DoSparseSwitch sample_switch 0 \<lparr>number_of_vregs = 1, sf_method = 0, sf_dex_pc = 0, slots = [v, 0]\<rparr> 0x002c)
     [- 7, 300, 8] = [Inr 0x10, Inr 0x20, Inr 3]"
proof -
  let ?f = "\<lambda>v. \<lparr>number_of_vregs = 1, sf_method = 0, sf_dex_pc = 0, slots = [v, 0]\<rparr>"
  have off: "VRegB_31t (code_at sample_switch (uint (0 :: u32))) = Inr 4"
    by (simp add: sample_switch_def code_at_def VRegB_31t_def Fetch32_def Fetch16_def)
  have data: "code_at sample_switch (uint (0 :: u32) + sint (4 :: u32)) = sparse_payload [- 7, 300] [0x10, 0x20] @ []"
    by (simp add: sample_switch_def code_at_def)
  have len: "length [0x10 :: u32, 0x20] = length [- 7 :: u32, 300]" "length [- 7 :: u32, 300] < 2 ^ 16" by simp_all
  have sorted: "sorted_wrt (<s) [- 7 :: u32, 300]" by (simp add: word_sless_alt)
  have reg: "GetVReg (unat (VRegA_31t 0x002c)) (?f v) = Inr v" for v
    by (simp add: GetVReg_def load_slot_def VRegA_31t_def InstAA_def)
  show ?thesis
    unfolding list.map
    by (simp only: sparse_switch_selects [OF off data len sorted reg]) simp
qed

text \<open>A packed switch selects by the distance to the first key.\<close>

lemma packed_switch_selects:
  assumes "VRegB_31t (code_at insns (uint pc)) = Inr off"
    and "code_at insns (uint pc + sint off) = packed_payload first_key targets @ rest"
    and "sint first_key + int (length targets) \<le> 2 ^ 31" "length targets < 2 ^ 16"
    and "GetVReg (unat (VRegA_31t d)) f = Inr v"
  shows "DoPackedSwitch insns pc f d =
     Inr (let i = sint v - sint first_key in if 0 \<le> i \<and> i < int (length targets) then targets ! nat i else 3)"
proof -
  let ?data = "packed_payload first_key targets @ rest" and ?sz = "of_nat (length targets) :: u16"
  let ?i = "sint v - sint first_key"
  have sz: "uint ?sz = int (length targets)" using assms(4) by (simp add: unsigned_of_nat take_bit_nat_eq_self flip: of_nat_take_bit)
  have "sint (v - first_key) = (?i + 2 ^ 31) mod 2 ^ 32 - 2 ^ 31"
    by (simp add: sint_word_ariths(2) signed_take_bit_eq_take_bit_shift take_bit_eq_mod)
  moreover have "- (2 ^ 31) \<le> sint v" "sint v < 2 ^ 31" "- (2 ^ 31) \<le> sint first_key"
    using sint_range [of v] sint_range [of first_key] by simp_all
  ultimately have hit: "0 \<le> sint (v - first_key) \<and> sint (v - first_key) < int (length targets) \<longleftrightarrow>
      0 \<le> ?i \<and> ?i < int (length targets)" "0 \<le> ?i \<and> ?i < int (length targets) \<Longrightarrow> sint (v - first_key) = ?i"
    using assms(3,4) by (auto simp: mod_near)
  have "Fetch16 1 ?data = Inr ?sz" "Fetch32 2 ?data = Inr first_key"
    using Fetch32_units [of "[kPackedSwitchSignature, ?sz]" first_key]
    by (simp_all add: Fetch16_def packed_payload_def numeral_2_eq_2)
  moreover have "Fetch32 (4 + 2 * nat ?i) ?data = Inr (targets ! nat ?i)" if "0 \<le> ?i" "?i < int (length targets)"
    using Fetch32_nth [of "nat ?i" targets 4 "[kPackedSwitchSignature, ?sz] @ units first_key" rest] that
    by (simp add: packed_payload_def)
  moreover have "?sz = 0 \<longleftrightarrow> targets = []" using sz by (metis length_0_conv of_nat_0_eq_iff uint_0_iff)
  ultimately show ?thesis
    using assms(1,2,5) hit sz by (auto simp: DoPackedSwitch_def switch_data_def Let_def word_sle_eq)
qed

end
