(* ===== verification/Method_Verifier.thy ===== *)
theory Method_Verifier
  imports Dex_File_Verifier Interpreter_Math
begin

text \<open>
  The static checks of the method verifier (runtime/verifier/method\_verifier.cc and
  instruction\_flags.h): the widths of the instructions, the try blocks and handlers, and the
  operands, branch targets and tables of every instruction. The flow of types through the
  registers is not modelled; neither are the messages of failures.
\<close>

section \<open>Instruction flags\<close>

type_synonym InstructionFlags = u8

abbreviation (input) kVisited :: nat where "kVisited \<equiv> 0"
abbreviation (input) kChanged :: nat where "kChanged \<equiv> 1"
abbreviation (input) kOpcode :: nat where "kOpcode \<equiv> 2"
abbreviation (input) kInTry :: nat where "kInTry \<equiv> 3"
abbreviation (input) kBranchTarget :: nat where "kBranchTarget \<equiv> 4"
abbreviation (input) kCompileTimeInfoPoint :: nat where "kCompileTimeInfoPoint \<equiv> 5"
abbreviation (input) kReturn :: nat where "kReturn \<equiv> 6"

definition SetIsOpcode :: "InstructionFlags \<Rightarrow> InstructionFlags" where
  "SetIsOpcode flags = flags OR push_bit kOpcode 1"

definition IsOpcode :: "InstructionFlags \<Rightarrow> bool" where
  "IsOpcode flags \<longleftrightarrow> flags AND push_bit kOpcode 1 \<noteq> 0"

definition SetInTry :: "InstructionFlags \<Rightarrow> InstructionFlags" where
  "SetInTry flags = flags OR push_bit kInTry 1"

definition IsInTry :: "InstructionFlags \<Rightarrow> bool" where
  "IsInTry flags \<longleftrightarrow> flags AND push_bit kInTry 1 \<noteq> 0"

definition SetBranchTarget :: "InstructionFlags \<Rightarrow> InstructionFlags" where
  "SetBranchTarget flags = flags OR push_bit kBranchTarget 1"

definition IsBranchTarget :: "InstructionFlags \<Rightarrow> bool" where
  "IsBranchTarget flags \<longleftrightarrow> flags AND push_bit kBranchTarget 1 \<noteq> 0"

definition SetCompileTimeInfoPoint :: "InstructionFlags \<Rightarrow> InstructionFlags" where
  "SetCompileTimeInfoPoint flags = flags OR push_bit kCompileTimeInfoPoint 1"

definition SetReturn :: "InstructionFlags \<Rightarrow> InstructionFlags" where
  "SetReturn flags = flags OR push_bit kReturn 1"

definition SetCompileTimeInfoPointAndReturn :: "InstructionFlags \<Rightarrow> InstructionFlags" where
  "SetCompileTimeInfoPointAndReturn flags = SetReturn (SetCompileTimeInfoPoint flags)"

section \<open>The verifier\<close>

datatype VerifyError =
    VERIFY_ERROR_BAD_CLASS_HARD | VERIFY_ERROR_BAD_CLASS_SOFT | VERIFY_ERROR_NO_CLASS | VERIFY_ERROR_NO_FIELD
  | VERIFY_ERROR_NO_METHOD | VERIFY_ERROR_ACCESS_CLASS | VERIFY_ERROR_ACCESS_FIELD | VERIFY_ERROR_ACCESS_METHOD
  | VERIFY_ERROR_CLASS_CHANGE | VERIFY_ERROR_INSTANTIATION

text \<open>What the verifier reads: the header and the type names of the dex file, the address of the
  instructions, its options, and the class linker, which works on \<open>'w\<close>.\<close>

record 'w verifier_env =
  dex_header :: Header
  StringByTypeIdx :: "u32 \<Rightarrow> string"
  insns_base :: ptr
  IsAotCompiler :: bool
  can_load_classes :: bool
  allow_soft_failures :: bool
  verify_to_dump :: bool
  ResolveType :: "u16 \<Rightarrow> 'w \<Rightarrow> ptr \<times> 'w"
  ClearException :: "'w \<Rightarrow> 'w"

record 'w MethodVerifier =
  insn_flags :: "InstructionFlags list"
  has_check_casts :: bool
  has_virtual_or_interface_invokes :: bool
  new_instance_count :: nat
  monitor_enter_count :: nat
  failures :: "VerifyError list"
  have_pending_hard_failure :: bool
  have_pending_runtime_throw_failure :: bool
  linker :: 'w

definition new_MethodVerifier :: "'w \<Rightarrow> 'w MethodVerifier" where
  "new_MethodVerifier w = \<lparr>insn_flags = [], has_check_casts = False, has_virtual_or_interface_invokes = False, new_instance_count = 0,
     monitor_enter_count = 0, failures = [], have_pending_hard_failure = False, have_pending_runtime_throw_failure = False, linker = w\<rparr>"

text \<open>Fail, as the static checks call it: the work index is still \<open>kDexNoIndex\<close> there, so no register line
  is saved. The messages and the note to an ahead-of-time compiler that a class was rejected are left out.\<close>

definition Fail :: "'w verifier_env \<Rightarrow> VerifyError \<Rightarrow> 'w MethodVerifier \<Rightarrow> 'w MethodVerifier" where
  "Fail env error v =
     (let note_error = \<lambda>error v. v\<lparr>failures := failures v @ [error]\<rparr> in
      case error of
        VERIFY_ERROR_BAD_CLASS_HARD \<Rightarrow> note_error error (v\<lparr>have_pending_hard_failure := True\<rparr>)
      | VERIFY_ERROR_BAD_CLASS_SOFT \<Rightarrow>
          note_error error (if \<not> allow_soft_failures env then v\<lparr>have_pending_hard_failure := True\<rparr> else v)
      | _ \<Rightarrow>
          if IsAotCompiler env \<or> \<not> can_load_classes env then note_error VERIFY_ERROR_BAD_CLASS_SOFT v
          else note_error error (v\<lparr>have_pending_runtime_throw_failure := True\<rparr>))"

text \<open>A check changes the verifier and tells whether it succeeded; \<open>both\<close> is
  \<open>result = result && ...\<close>.\<close>

type_synonym 'w checker = "'w MethodVerifier \<Rightarrow> (bool \<times> 'w MethodVerifier) res"

definition both :: "'w checker \<Rightarrow> 'w checker \<Rightarrow> 'w checker" where
  "both p q v = rbind (p v) (\<lambda>(result, v). if result then q v else Inr (False, v))"

definition require :: "'w verifier_env \<Rightarrow> bool \<Rightarrow> 'w checker" where
  "require env b v = Inr (if b then (True, v) else (False, Fail env VERIFY_ERROR_BAD_CLASS_HARD v))"

definition passed :: "'w checker" where
  "passed v = Inr (True, v)"

definition with_value :: "'a res \<Rightarrow> ('a \<Rightarrow> 'w checker) \<Rightarrow> 'w checker" where
  "with_value r p v = rbind r (\<lambda>x. p x v)"

definition flags_at :: "nat \<Rightarrow> 'w MethodVerifier \<Rightarrow> InstructionFlags res" where
  "flags_at i v = (if i < length (insn_flags v) then Inr (insn_flags v ! i) else Inl OutOfBounds)"

definition mark :: "(InstructionFlags \<Rightarrow> InstructionFlags) \<Rightarrow> nat \<Rightarrow> 'w MethodVerifier \<Rightarrow> 'w MethodVerifier res" where
  "mark setter i v = rmap (\<lambda>flags. v\<lparr>insn_flags := (insn_flags v)[i := setter flags]\<rparr>) (flags_at i v)"

section \<open>Widths\<close>

definition count_op :: "u8 \<Rightarrow> 'w MethodVerifier \<Rightarrow> 'w MethodVerifier" where
  "count_op opcode v =
     (if opcode = APUT_OBJECT \<or> opcode = CHECK_CAST then v\<lparr>has_check_casts := True\<rparr>
      else if opcode = INVOKE_VIRTUAL \<or> opcode = INVOKE_VIRTUAL_RANGE \<or> opcode = INVOKE_INTERFACE \<or> opcode = INVOKE_INTERFACE_RANGE
      then v\<lparr>has_virtual_or_interface_invokes := True\<rparr>
      else v)"

abbreviation insn_at :: "CodeItem \<Rightarrow> nat \<Rightarrow> insn" where
  "insn_at c dex_pc \<equiv> drop dex_pc (insns c)"

lemma payload_size_pos: "0 < unat (4 + (x :: u32) div 2)"
proof -
  have "unat (x div 2) < 2 ^ 31" using unsigned_less [of x, where 'a = nat] by (simp add: unat_div)
  then show ?thesis by (simp add: unat_word_ariths take_bit_nat_eq_self unat_div)
qed

lemma SizeInCodeUnits_pos: "SizeInCodeUnits inst = Inr n \<Longrightarrow> 0 < n"
  using payload_size_pos
  by (auto simp: SizeInCodeUnits_def SizeInCodeUnitsComplexOpcode_def kInstructionSizeInCodeUnits_def Let_def elim!: rbindE
      split: if_split_asm)

text \<open>The loop gives the end of the last instruction and the two counts.\<close>

function compute_widths :: "CodeItem \<Rightarrow> nat \<Rightarrow> nat \<Rightarrow> nat \<Rightarrow> 'w MethodVerifier \<Rightarrow> ((nat \<times> nat \<times> nat) \<times> 'w MethodVerifier) res" where
  "compute_widths c dex_pc new_instances monitor_enters v =
     (if dex_pc < length (insns c) then
        rbind (Opcode (insn_at c dex_pc)) (\<lambda>opcode.
        let v = count_op opcode v;
            monitor_enters = (if opcode = MONITOR_ENTER then monitor_enters + 1 else monitor_enters);
            new_instances = (if opcode = NEW_INSTANCE then new_instances + 1 else new_instances)
        in rbind (SizeInCodeUnits (insn_at c dex_pc)) (\<lambda>inst_size.
           rbind (mark SetIsOpcode dex_pc v) (\<lambda>v.
           compute_widths c (dex_pc + inst_size) new_instances monitor_enters v)))
      else Inr ((dex_pc, new_instances, monitor_enters), v))"
  by pat_completeness auto
termination
  by (relation "measure (\<lambda>(c, dex_pc, _). length (insns c) - dex_pc)") (auto dest!: SizeInCodeUnits_pos)

declare compute_widths.simps [simp del]

definition ComputeWidthsAndCountOps :: "'w verifier_env \<Rightarrow> CodeItem \<Rightarrow> 'w checker" where
  "ComputeWidthsAndCountOps env c v =
     rbind (compute_widths c 0 0 0 v) (\<lambda>((dex_pc, new_instances, monitor_enters), v).
     if dex_pc \<noteq> length (insns c) then Inr (False, Fail env VERIFY_ERROR_BAD_CLASS_HARD v)
     else Inr (True, v\<lparr>new_instance_count := new_instances, monitor_enter_count := monitor_enters\<rparr>))"

section \<open>Try blocks and handlers\<close>

definition CheckNotMoveException :: "'w verifier_env \<Rightarrow> u16 list \<Rightarrow> nat \<Rightarrow> 'w checker" where
  "CheckNotMoveException env code insn_idx =
     with_value (Fetch16 insn_idx code) (\<lambda>u. require env (u AND 0xff \<noteq> ucast MOVE_EXCEPTION))"

definition CheckNotMoveResult :: "'w verifier_env \<Rightarrow> u16 list \<Rightarrow> nat \<Rightarrow> 'w checker" where
  "CheckNotMoveResult env code insn_idx =
     with_value (Fetch16 insn_idx code) (\<lambda>u.
       require env (\<not> (u AND 0xff \<ge> ucast MOVE_RESULT \<and> u AND 0xff \<le> ucast MOVE_RESULT_OBJECT)))"

definition CheckNotMoveExceptionOrMoveResult :: "'w verifier_env \<Rightarrow> u16 list \<Rightarrow> nat \<Rightarrow> 'w checker" where
  "CheckNotMoveExceptionOrMoveResult env code insn_idx =
     both (CheckNotMoveException env code insn_idx) (CheckNotMoveResult env code insn_idx)"

function mark_try :: "CodeItem \<Rightarrow> nat \<Rightarrow> nat \<Rightarrow> 'w MethodVerifier \<Rightarrow> 'w MethodVerifier res" where
  "mark_try c dex_pc end_pc v =
     (if dex_pc < end_pc then
        rbind (mark SetInTry dex_pc v) (\<lambda>v.
        rbind (SizeInCodeUnits (insn_at c dex_pc)) (\<lambda>insn_size.
        mark_try c (dex_pc + insn_size) end_pc v))
      else Inr v)"
  by pat_completeness auto
termination
  by (relation "measure (\<lambda>(c, dex_pc, end_pc, _). end_pc - dex_pc)") (auto dest!: SizeInCodeUnits_pos)

declare mark_try.simps [simp del]

definition scan_try :: "'w verifier_env \<Rightarrow> CodeItem \<Rightarrow> TryItem \<Rightarrow> 'w checker" where
  "scan_try env c ti v =
     (let start = start_addr ti; end_pc = start + ucast (insn_count ti); insns_size = insns_size_in_code_units c
      in if start \<ge> end_pc \<or> start \<ge> insns_size \<or> end_pc > insns_size
         then Inr (False, Fail env VERIFY_ERROR_BAD_CLASS_HARD v)
         else rbind (flags_at (unat start) v) (\<lambda>flags.
           if \<not> IsOpcode flags then Inr (False, Fail env VERIFY_ERROR_BAD_CLASS_HARD v)
           else rmap (\<lambda>v. (True, v)) (mark_try c (unat start) (unat end_pc) v)))"

definition resolve_handler_type :: "'w verifier_env \<Rightarrow> u16 \<Rightarrow> 'w MethodVerifier \<Rightarrow> 'w MethodVerifier" where
  "resolve_handler_type env t v =
     (if t \<noteq> kDexNoIndex16
      then case ResolveType env t (linker v) of (exception_type, w) \<Rightarrow>
             v\<lparr>linker := if exception_type = 0 then ClearException env w else w\<rparr>
      else v)"

definition scan_handler :: "'w verifier_env \<Rightarrow> CodeItem \<Rightarrow> u16 \<Rightarrow> u32 \<Rightarrow> 'w checker" where
  "scan_handler env c t dex_pc v =
     rbind (flags_at (unat dex_pc) v) (\<lambda>flags.
     if \<not> IsOpcode flags then Inr (False, Fail env VERIFY_ERROR_BAD_CLASS_HARD v)
     else
       rbind (CheckNotMoveResult env (insns c) (unat dex_pc) v) (\<lambda>(ok, v).
       if \<not> ok then Inr (False, Fail env VERIFY_ERROR_BAD_CLASS_HARD v)
       else rmap (\<lambda>v. (True, resolve_handler_type env t v)) (mark SetBranchTarget (unat dex_pc) v)))"

text \<open>The loop over the handlers of one list gives the iterator at its end.\<close>

function scan_handlers :: "'w verifier_env \<Rightarrow> CodeItem \<Rightarrow> CatchHandlerIterator \<Rightarrow> 'w MethodVerifier \<Rightarrow>
    ((CatchHandlerIterator option) \<times> 'w MethodVerifier) res" where
  "scan_handlers env c it v =
     (if HasNext it then
        rbind (scan_handler env c (type_idx it) (handler_address it) v) (\<lambda>(ok, v).
        if ok then rbind (Next it) (\<lambda>it. scan_handlers env c it v) else Inr (None, v))
      else Inr (Some it, v))"
  by pat_completeness auto
termination
  by (relation "measure (\<lambda>(_, _, it, _). iterator_measure it)") (auto intro: Next_measure)

declare scan_handlers.simps [simp del]

definition EndDataPointer :: "CatchHandlerIterator \<Rightarrow> u8 list res" where
  "EndDataPointer it = rbind (check (\<not> HasNext it) CheckFailed) (\<lambda>_. Inr (current_data it))"

fun scan_handler_lists :: "'w verifier_env \<Rightarrow> CodeItem \<Rightarrow> nat \<Rightarrow> u8 list \<Rightarrow> 'w checker" where
  "scan_handler_lists env c 0 handlers_ptr v = Inr (True, v)"
| "scan_handler_lists env c (Suc handlers_size) handlers_ptr v =
     rbind (Init_data handlers_ptr) (\<lambda>it.
     rbind (scan_handlers env c it v) (\<lambda>(it, v).
     case it of
       None \<Rightarrow> Inr (False, v)
     | Some it \<Rightarrow> rbind (EndDataPointer it) (\<lambda>handlers_ptr. scan_handler_lists env c handlers_size handlers_ptr v)))"

fun scan_tries :: "'w verifier_env \<Rightarrow> CodeItem \<Rightarrow> TryItem list \<Rightarrow> 'w checker" where
  "scan_tries env c [] v = Inr (True, v)"
| "scan_tries env c (ti # tis) v = both (scan_try env c ti) (scan_tries env c tis) v"

definition ScanTryCatchBlocks :: "'w verifier_env \<Rightarrow> CodeItem \<Rightarrow> 'w checker" where
  "ScanTryCatchBlocks env c v =
     (if try_items c = [] then Inr (True, v)
      else both (scan_tries env c (try_items c)) (\<lambda>v.
           rbind (DecodeUnsignedLeb128 (GetCatchHandlerData c 0)) (\<lambda>(handlers_size, handlers_ptr).
           scan_handler_lists env c (unat handlers_size) handlers_ptr v)) v)"

section \<open>Operands\<close>

definition CheckRegisterIndex :: "'w verifier_env \<Rightarrow> CodeItem \<Rightarrow> u32 \<Rightarrow> 'w checker" where
  "CheckRegisterIndex env c idx = require env (\<not> idx \<ge> ucast (registers_size c))"

definition CheckWideRegisterIndex :: "'w verifier_env \<Rightarrow> CodeItem \<Rightarrow> u32 \<Rightarrow> 'w checker" where
  "CheckWideRegisterIndex env c idx = require env (\<not> idx + 1 \<ge> ucast (registers_size c))"

definition CheckFieldIndex :: "'w verifier_env \<Rightarrow> u32 \<Rightarrow> 'w checker" where
  "CheckFieldIndex env idx = require env (\<not> idx \<ge> field_ids_size (dex_header env))"

definition CheckMethodIndex :: "'w verifier_env \<Rightarrow> u32 \<Rightarrow> 'w checker" where
  "CheckMethodIndex env idx = require env (\<not> idx \<ge> method_ids_size (dex_header env))"

definition CheckStringIndex :: "'w verifier_env \<Rightarrow> u32 \<Rightarrow> 'w checker" where
  "CheckStringIndex env idx = require env (\<not> idx \<ge> string_ids_size (dex_header env))"

definition CheckTypeIndex :: "'w verifier_env \<Rightarrow> u32 \<Rightarrow> 'w checker" where
  "CheckTypeIndex env idx = require env (\<not> idx \<ge> type_ids_size (dex_header env))"

definition CheckNewInstance :: "'w verifier_env \<Rightarrow> u32 \<Rightarrow> 'w checker" where
  "CheckNewInstance env idx =
     both (require env (\<not> idx \<ge> type_ids_size (dex_header env)))
       (\<lambda>v. let descriptor = StringByTypeIdx env idx in require env (descriptor \<noteq> [] \<and> hd descriptor = CHR ''L'') v)"

definition CheckNewArray :: "'w verifier_env \<Rightarrow> u32 \<Rightarrow> 'w checker" where
  "CheckNewArray env idx =
     both (require env (\<not> idx \<ge> type_ids_size (dex_header env)))
       (\<lambda>v. let bracket_count = length (takeWhile (\<lambda>ch. ch = CHR ''['') (StringByTypeIdx env idx))
            in require env (bracket_count \<noteq> 0 \<and> \<not> bracket_count > 255) v)"

section \<open>Tables and targets\<close>

text \<open>A table at a relative offset: its code units, which start inside of the code or trap.\<close>

definition table_at :: "CodeItem \<Rightarrow> u32 \<Rightarrow> u32 \<Rightarrow> insn" where
  "table_at c cur_offset offset = code_at (insns c) (uint cur_offset + sint offset)"

definition table_aligned :: "'w verifier_env \<Rightarrow> u32 \<Rightarrow> u32 \<Rightarrow> bool" where
  "table_aligned env cur_offset offset \<longleftrightarrow> (insns_base env + 2 * (cur_offset + offset)) AND 0x03 = 0"

definition CheckArrayData :: "'w verifier_env \<Rightarrow> CodeItem \<Rightarrow> u32 \<Rightarrow> 'w checker" where
  "CheckArrayData env c cur_offset =
     (let insn_count = insns_size_in_code_units c in
      with_value (Fetch32 1 (insn_at c (unat cur_offset))) (\<lambda>array_data_offset.
      both (require env (\<not> (cur_offset + array_data_offset <s 0 \<or> cur_offset + array_data_offset + 2 \<ge> insn_count)))
     (both (require env (table_aligned env cur_offset array_data_offset))
           (let array_data = table_at c cur_offset array_data_offset in
            with_value (Fetch16 1 array_data) (\<lambda>value_width.
            with_value (Fetch32 2 array_data) (\<lambda>value_count.
            let table_size = 4 + (ucast value_width * value_count + 1) div 2
            in require env (\<not> cur_offset + array_data_offset + table_size > insn_count)))))))"

text \<open>The offset, whether the branch is conditional and whether it may have the offset zero.\<close>

definition GetBranchOffset :: "CodeItem \<Rightarrow> u32 \<Rightarrow> (u32 \<times> bool \<times> bool) option res" where
  "GetBranchOffset c cur_offset =
     (let code = insn_at c (unat cur_offset) in
      rbind (Fetch16 0 code) (\<lambda>u.
      let opcode = OpcodeOf u in
      if opcode = GOTO then Inr (Some (scast (signed_drop_bit 8 u), False, False))
      else if opcode = GOTO_32 then rmap (\<lambda>off. Some (off, False, True)) (Fetch32 1 code)
      else if opcode = GOTO_16 then rmap (\<lambda>off. Some (scast off, False, False)) (Fetch16 1 code)
      else if opcode \<in> set [IF_EQ, IF_NE, IF_LT, IF_GE, IF_GT, IF_LE, IF_EQZ, IF_NEZ, IF_LTZ, IF_GEZ, IF_GTZ, IF_LEZ]
      then rmap (\<lambda>off. Some (scast off, True, False)) (Fetch16 1 code)
      else Inr None))"

definition target_ok :: "'w verifier_env \<Rightarrow> CodeItem \<Rightarrow> u32 \<Rightarrow> 'w checker" where
  "target_ok env c abs_offset v =
     (if abs_offset <s 0 \<or> abs_offset \<ge> insns_size_in_code_units c
      then Inr (False, Fail env VERIFY_ERROR_BAD_CLASS_HARD v)
      else rbind (flags_at (unat abs_offset) v) (\<lambda>flags.
        if \<not> IsOpcode flags then Inr (False, Fail env VERIFY_ERROR_BAD_CLASS_HARD v)
        else rmap (\<lambda>v. (True, v)) (mark SetBranchTarget (unat abs_offset) v)))"

definition CheckBranchTarget :: "'w verifier_env \<Rightarrow> CodeItem \<Rightarrow> u32 \<Rightarrow> 'w checker" where
  "CheckBranchTarget env c cur_offset =
     with_value (GetBranchOffset c cur_offset) (\<lambda>branch.
     case branch of
       None \<Rightarrow> (\<lambda>v. Inr (False, v))
     | Some (offset, isConditional, selfOkay) \<Rightarrow>
         both (require env (\<not> (\<not> selfOkay \<and> offset = 0)))
        (both (require env (uint cur_offset + sint offset = uint (cur_offset + offset)))
              (target_ok env c (cur_offset + offset))))"

fun check_keys :: "'w verifier_env \<Rightarrow> insn \<Rightarrow> u32 \<Rightarrow> nat list \<Rightarrow> 'w checker" where
  "check_keys env switch_insns last_key [] v = Inr (True, v)"
| "check_keys env switch_insns last_key (targ # targs) v =
     rbind (Fetch32 (2 + targ * 2) switch_insns) (\<lambda>key.
     if key \<le>s last_key then Inr (False, Fail env VERIFY_ERROR_BAD_CLASS_HARD v)
     else check_keys env switch_insns key targs v)"

text \<open>The targets of a switch are compared with the size as a signed number.\<close>

definition switch_target_ok :: "'w verifier_env \<Rightarrow> CodeItem \<Rightarrow> u32 \<Rightarrow> 'w checker" where
  "switch_target_ok env c abs_offset v =
     (if abs_offset <s 0 \<or> insns_size_in_code_units c \<le>s abs_offset
      then Inr (False, Fail env VERIFY_ERROR_BAD_CLASS_HARD v)
      else rbind (flags_at (unat abs_offset) v) (\<lambda>flags.
        if \<not> IsOpcode flags then Inr (False, Fail env VERIFY_ERROR_BAD_CLASS_HARD v)
        else rmap (\<lambda>v. (True, v)) (mark SetBranchTarget (unat abs_offset) v)))"

fun check_targets :: "'w verifier_env \<Rightarrow> CodeItem \<Rightarrow> u32 \<Rightarrow> insn \<Rightarrow> nat \<Rightarrow> nat list \<Rightarrow> 'w checker" where
  "check_targets env c cur_offset switch_insns targets_offset [] v = Inr (True, v)"
| "check_targets env c cur_offset switch_insns targets_offset (targ # targs) v =
     rbind (Fetch32 (targets_offset + targ * 2) switch_insns) (\<lambda>offset.
     both (switch_target_ok env c (cur_offset + offset)) (check_targets env c cur_offset switch_insns targets_offset targs) v)"

definition CheckSwitchTargets :: "'w verifier_env \<Rightarrow> CodeItem \<Rightarrow> u32 \<Rightarrow> 'w checker" where
  "CheckSwitchTargets env c cur_offset =
     (let insn_count = insns_size_in_code_units c; code = insn_at c (unat cur_offset) in
      with_value (Fetch16 0 code) (\<lambda>u.
      with_value (Fetch32 1 code) (\<lambda>switch_offset.
      both (require env (\<not> (cur_offset + switch_offset <s 0 \<or> cur_offset + switch_offset + 2 > insn_count)))
     (both (require env (table_aligned env cur_offset switch_offset))
           (let switch_insns = table_at c cur_offset switch_offset; packed = (OpcodeOf u = PACKED_SWITCH) in
            with_value (Fetch16 1 switch_insns) (\<lambda>count.
            with_value (Fetch16 0 switch_insns) (\<lambda>signature.
            let switch_count = unat count;
                targets_offset = (if packed then 4 else 2 + 2 * switch_count);
                expected_signature = (if packed then kPackedSwitchSignature else kSparseSwitchSignature);
                table_size = of_nat (targets_offset + switch_count * 2) :: u32
            in both (require env (signature = expected_signature))
              (both (require env (\<not> cur_offset + switch_offset + table_size > insn_count))
              (both (if \<not> packed \<and> switch_count > 1
                     then with_value (Fetch32 2 switch_insns) (\<lambda>last_key. check_keys env switch_insns last_key [1..<switch_count])
                     else passed)
                    (check_targets env c cur_offset switch_insns targets_offset [0..<switch_count]))))))))))"

section \<open>Arguments\<close>

abbreviation (input) kMaxVarArgRegs :: nat where "kMaxVarArgRegs \<equiv> 5"

definition CheckVarArgRegs :: "'w verifier_env \<Rightarrow> CodeItem \<Rightarrow> nat \<Rightarrow> u32 list \<Rightarrow> 'w checker" where
  "CheckVarArgRegs env c vA arg = require env (\<forall>r \<in> set (take vA arg). \<not> r \<ge> ucast (registers_size c))"

definition CheckVarArgRangeRegs :: "'w verifier_env \<Rightarrow> CodeItem \<Rightarrow> u32 \<Rightarrow> u32 \<Rightarrow> 'w checker" where
  "CheckVarArgRangeRegs env c vA vC = require env (\<not> vA + vC > ucast (registers_size c))"

section \<open>Instructions\<close>

definition GetVerifyTypeArgumentA :: "insn \<Rightarrow> u32 res" where
  "GetVerifyTypeArgumentA inst = rmap (\<lambda>opcode. kInstructionVerifyFlags opcode AND (kVerifyRegA OR kVerifyRegAWide)) (Opcode inst)"

definition GetVerifyTypeArgumentB :: "insn \<Rightarrow> u32 res" where
  "GetVerifyTypeArgumentB inst = rmap (\<lambda>opcode. kInstructionVerifyFlags opcode AND (kVerifyRegB OR kVerifyRegBField OR
     kVerifyRegBMethod OR kVerifyRegBNewInstance OR kVerifyRegBString OR kVerifyRegBType OR kVerifyRegBWide)) (Opcode inst)"

definition GetVerifyTypeArgumentC :: "insn \<Rightarrow> u32 res" where
  "GetVerifyTypeArgumentC inst = rmap (\<lambda>opcode. kInstructionVerifyFlags opcode AND (kVerifyRegC OR kVerifyRegCField OR
     kVerifyRegCNewArray OR kVerifyRegCType OR kVerifyRegCWide)) (Opcode inst)"

definition GetVerifyExtraFlags :: "insn \<Rightarrow> u32 res" where
  "GetVerifyExtraFlags inst = rmap (\<lambda>opcode. kInstructionVerifyFlags opcode AND (kVerifyArrayData OR kVerifyBranchTarget OR
     kVerifySwitchTargets OR kVerifyVarArg OR kVerifyVarArgNonZero OR kVerifyVarArgRange OR kVerifyVarArgRangeNonZero OR
     kVerifyError)) (Opcode inst)"

definition GetVerifyIsRuntimeOnly :: "insn \<Rightarrow> bool res" where
  "GetVerifyIsRuntimeOnly inst = rmap (\<lambda>opcode. kInstructionVerifyFlags opcode AND kVerifyRuntimeOnly \<noteq> 0) (Opcode inst)"

definition when_ok :: "bool \<Rightarrow> 'w checker \<Rightarrow> 'w checker" where
  "when_ok result p v = (if result then p v else Inr (False, v))"

definition verify_a :: "'w verifier_env \<Rightarrow> CodeItem \<Rightarrow> insn \<Rightarrow> 'w checker" where
  "verify_a env c inst = with_value (GetVerifyTypeArgumentA inst) (\<lambda>f.
     if f = kVerifyRegA then with_value (VRegA inst) (CheckRegisterIndex env c)
     else if f = kVerifyRegAWide then with_value (VRegA inst) (CheckWideRegisterIndex env c)
     else passed)"

definition verify_b :: "'w verifier_env \<Rightarrow> CodeItem \<Rightarrow> insn \<Rightarrow> 'w checker" where
  "verify_b env c inst = with_value (GetVerifyTypeArgumentB inst) (\<lambda>f.
     if f = kVerifyRegB then with_value (VRegB inst) (CheckRegisterIndex env c)
     else if f = kVerifyRegBField then with_value (VRegB inst) (CheckFieldIndex env)
     else if f = kVerifyRegBMethod then with_value (VRegB inst) (CheckMethodIndex env)
     else if f = kVerifyRegBNewInstance then with_value (VRegB inst) (CheckNewInstance env)
     else if f = kVerifyRegBString then with_value (VRegB inst) (CheckStringIndex env)
     else if f = kVerifyRegBType then with_value (VRegB inst) (CheckTypeIndex env)
     else if f = kVerifyRegBWide then with_value (VRegB inst) (CheckWideRegisterIndex env c)
     else passed)"

definition verify_c :: "'w verifier_env \<Rightarrow> CodeItem \<Rightarrow> insn \<Rightarrow> 'w checker" where
  "verify_c env c inst = with_value (GetVerifyTypeArgumentC inst) (\<lambda>f.
     if f = kVerifyRegC then with_value (VRegC inst) (CheckRegisterIndex env c)
     else if f = kVerifyRegCField then with_value (VRegC inst) (CheckFieldIndex env)
     else if f = kVerifyRegCNewArray then with_value (VRegC inst) (CheckNewArray env)
     else if f = kVerifyRegCType then with_value (VRegC inst) (CheckTypeIndex env)
     else if f = kVerifyRegCWide then with_value (VRegC inst) (CheckWideRegisterIndex env c)
     else passed)"

text \<open>The extra flags; None is the early return after a bad number of arguments.\<close>

definition verify_var_args :: "'w verifier_env \<Rightarrow> CodeItem \<Rightarrow> insn \<Rightarrow> bool \<Rightarrow> bool \<Rightarrow> 'w MethodVerifier \<Rightarrow> (bool option \<times> 'w MethodVerifier) res" where
  "verify_var_args env c inst non_zero result v =
     rbind (VRegA inst) (\<lambda>v_a.
     if non_zero \<and> v_a = 0 \<or> v_a > of_nat kMaxVarArgRegs then Inr (None, Fail env VERIFY_ERROR_BAD_CLASS_HARD v)
     else rbind (Fetch16 0 inst) (\<lambda>inst_data. rbind (GetVarArgs (replicate kMaxVarArgRegs 0) inst_data inst) (\<lambda>args.
          rmap (\<lambda>(result, v). (Some result, v)) (when_ok result (CheckVarArgRegs env c (unat v_a) args) v))))"

definition verify_range_args :: "'w verifier_env \<Rightarrow> CodeItem \<Rightarrow> insn \<Rightarrow> bool \<Rightarrow> bool \<Rightarrow> 'w MethodVerifier \<Rightarrow> (bool option \<times> 'w MethodVerifier) res" where
  "verify_range_args env c inst non_zero result v =
     rbind (VRegA inst) (\<lambda>v_a.
     if non_zero \<and> v_a \<le>s 0 then Inr (None, Fail env VERIFY_ERROR_BAD_CLASS_HARD v)
     else rmap (\<lambda>(result, v). (Some result, v))
            (when_ok result (with_value (VRegC inst) (CheckVarArgRangeRegs env c v_a)) v))"

definition verify_extra :: "'w verifier_env \<Rightarrow> CodeItem \<Rightarrow> insn \<Rightarrow> u32 \<Rightarrow> bool \<Rightarrow> 'w MethodVerifier \<Rightarrow> (bool option \<times> 'w MethodVerifier) res" where
  "verify_extra env c inst code_offset result v =
     rbind (GetVerifyExtraFlags inst) (\<lambda>f.
     let continue = rmap (\<lambda>(result, v). (Some result, v)) in
     if f = kVerifyArrayData then continue (when_ok result (CheckArrayData env c code_offset) v)
     else if f = kVerifyBranchTarget then continue (when_ok result (CheckBranchTarget env c code_offset) v)
     else if f = kVerifySwitchTargets then continue (when_ok result (CheckSwitchTargets env c code_offset) v)
     else if f = kVerifyVarArgNonZero \<or> f = kVerifyVarArg then verify_var_args env c inst (f = kVerifyVarArgNonZero) result v
     else if f = kVerifyVarArgRangeNonZero \<or> f = kVerifyVarArgRange then verify_range_args env c inst (f = kVerifyVarArgRangeNonZero) result v
     else if f = kVerifyError then Inr (Some False, Fail env VERIFY_ERROR_BAD_CLASS_HARD v)
     else Inr (Some result, v))"

definition VerifyInstruction :: "'w verifier_env \<Rightarrow> CodeItem \<Rightarrow> insn \<Rightarrow> u32 \<Rightarrow> 'w checker" where
  "VerifyInstruction env c inst code_offset v =
     rbind (verify_a env c inst v) (\<lambda>(result, v).
     rbind (when_ok result (verify_b env c inst) v) (\<lambda>(result, v).
     rbind (when_ok result (verify_c env c inst) v) (\<lambda>(result, v).
     rbind (verify_extra env c inst code_offset result v) (\<lambda>(r, v).
     case r of
       None \<Rightarrow> Inr (False, v)
     | Some result \<Rightarrow>
         rbind (GetVerifyIsRuntimeOnly inst) (\<lambda>runtime_only.
         if runtime_only \<and> IsAotCompiler env \<and> \<not> verify_to_dump env
         then Inr (False, Fail env VERIFY_ERROR_BAD_CLASS_HARD v) else Inr (result, v))))))"

text \<open>The points at which the compiler wants to know the types of the registers.\<close>

definition mark_info_points :: "CodeItem \<Rightarrow> insn \<Rightarrow> nat \<Rightarrow> 'w MethodVerifier \<Rightarrow> 'w MethodVerifier res" where
  "mark_info_points c inst dex_pc v =
     rbind (Opcode inst) (\<lambda>opcode.
     if IsBranch opcode then
       rbind (mark SetCompileTimeInfoPoint dex_pc v) (\<lambda>v.
       rbind (GetBranchOffset c (of_nat dex_pc)) (\<lambda>branch.
       mark SetCompileTimeInfoPoint (unat (of_nat dex_pc + (case branch of None \<Rightarrow> 0 | Some (offset, _) \<Rightarrow> offset) :: u32)) v))
     else if IsSwitch opcode \<or> IsThrow opcode then mark SetCompileTimeInfoPoint dex_pc v
     else if IsReturn opcode then mark SetCompileTimeInfoPointAndReturn dex_pc v
     else Inr v)"

function verify_instructions :: "'w verifier_env \<Rightarrow> CodeItem \<Rightarrow> nat \<Rightarrow> 'w checker" where
  "verify_instructions env c dex_pc v =
     (if dex_pc < length (insns c) then
        rbind (VerifyInstruction env c (insn_at c dex_pc) (of_nat dex_pc) v) (\<lambda>(ok, v).
        if \<not> ok then Inr (False, v)
        else rbind (mark_info_points c (insn_at c dex_pc) dex_pc v) (\<lambda>v.
             rbind (SizeInCodeUnits (insn_at c dex_pc)) (\<lambda>inst_size.
             verify_instructions env c (dex_pc + inst_size) v)))
      else Inr (True, v))"
  by pat_completeness auto
termination
  by (relation "measure (\<lambda>(_, c, dex_pc, _). length (insns c) - dex_pc)") (auto dest!: SizeInCodeUnits_pos)

declare verify_instructions.simps [simp del]

definition VerifyInstructions :: "'w verifier_env \<Rightarrow> CodeItem \<Rightarrow> 'w checker" where
  "VerifyInstructions env c v =
     rbind (mark SetBranchTarget 0 v) (\<lambda>v.
     rbind (mark SetCompileTimeInfoPoint 0 v) (\<lambda>v.
     verify_instructions env c 0 v))"

text \<open>Verify: \<open>code\<close> is the code of the method, if it has any, and \<open>code_flow\<close> the check of the
  types; the call back into an ahead-of-time compiler is left out.\<close>

definition Verify :: "'w verifier_env \<Rightarrow> u32 \<Rightarrow> CodeItem option \<Rightarrow> (CodeItem \<Rightarrow> 'w checker) \<Rightarrow> 'w checker" where
  "Verify env method_access_flags code code_flow v = (case code of
     None \<Rightarrow>
       if method_access_flags AND (kAccNative OR kAccAbstract) = 0
       then Inr (False, Fail env VERIFY_ERROR_BAD_CLASS_HARD v) else Inr (True, v)
   | Some c \<Rightarrow>
       if ins_size c > registers_size c then Inr (False, Fail env VERIFY_ERROR_BAD_CLASS_HARD v)
       else
         let v = v\<lparr>insn_flags := replicate (length (insns c)) 0\<rparr> in
         both (ComputeWidthsAndCountOps env c)
        (both (ScanTryCatchBlocks env c)
        (both (VerifyInstructions env c) (code_flow c))) v)"

text \<open>A method whose code has no instructions passes all the checks before \<open>VerifyInstructions\<close>, which then sets
  the flags of an instruction that is not there.\<close>

lemma empty_code_traps:
  assumes "insns c = []" "try_items c = []" "ins_size c \<le> registers_size c"
  shows "Verify env acc (Some c) code_flow v = Inl OutOfBounds"
  using assms by (simp add: Verify_def both_def ComputeWidthsAndCountOps_def compute_widths.simps ScanTryCatchBlocks_def
      VerifyInstructions_def mark_def flags_at_def Let_def not_less)

end
