(* ===== verification/Interpreter_Runtime.thy ===== *)
theory Interpreter_Runtime
  imports Interpreter_Math Dex_Catch Dex_Coverage Instrumentation
begin

text \<open>
  The interpreter's view of the runtime (runtime/interpreter/interpreter\_common.cc and
  runtime/art\_method.cc): the state it works on, the events it posts and the search for the
  handler of an exception. The parts of the runtime it calls (class linker, allocation, monitors,
  the callee of a call) are fields of the record \<open>runtime\<close>; what they work on is the record
  \<open>world\<close>. The model is that of a started runtime outside of a transaction;
  objects do not move.
\<close>

section \<open>The world\<close>

text \<open>An array is the list of its elements, each in the low bits of a double word; the fields of
  an object are cells addressed by the object and the offset.\<close>

record ('o, 's) world =
  exception :: ptr
  arrays :: "ptr \<rightharpoonup> u64 list"
  cells :: "ptr \<Rightarrow> u32 \<Rightarrow> u64"
  art :: art_heap
  dex_files :: dex_store
  instr :: Instrumentation
  listener_state :: 's
  others :: 'o

record ('o, 's) istate =
  frame :: ShadowFrame
  result_register :: u64
  env :: "('o, 's) world"

datatype Throwable =
    NullPointerException | ArithmeticException | ArrayIndexOutOfBoundsException | ClassCastException
  | AbstractMethodError | VirtualMachineError | NegativeArraySizeException | RuntimeException | InternalError
  | StackOverflowError

datatype InvokeType = kStatic | kDirect | kVirtual | kSuper | kInterface

datatype FindFieldType =
    InstanceObjectRead | InstanceObjectWrite | InstancePrimitiveRead | InstancePrimitiveWrite
  | StaticObjectRead | StaticObjectWrite | StaticPrimitiveRead | StaticPrimitiveWrite

datatype Primitive =
    kPrimNot | kPrimBoolean | kPrimByte | kPrimChar | kPrimShort | kPrimInt | kPrimLong | kPrimFloat | kPrimDouble | kPrimVoid

fun ComponentSize :: "Primitive \<Rightarrow> nat" where
  "ComponentSize kPrimVoid = 0"
| "ComponentSize kPrimBoolean = 1"
| "ComponentSize kPrimByte = 1"
| "ComponentSize kPrimChar = 2"
| "ComponentSize kPrimShort = 2"
| "ComponentSize kPrimInt = 4"
| "ComponentSize kPrimFloat = 4"
| "ComponentSize kPrimLong = 8"
| "ComponentSize kPrimDouble = 8"
| "ComponentSize kPrimNot = 4"

text \<open>Floating-point arithmetic of the processor, on bit patterns.\<close>

record fp_ops =
  f_add :: "u32 \<Rightarrow> u32 \<Rightarrow> u32"
  f_sub :: "u32 \<Rightarrow> u32 \<Rightarrow> u32"
  f_mul :: "u32 \<Rightarrow> u32 \<Rightarrow> u32"
  f_div :: "u32 \<Rightarrow> u32 \<Rightarrow> u32"
  fmodf :: "u32 \<Rightarrow> u32 \<Rightarrow> u32"
  d_add :: "u64 \<Rightarrow> u64 \<Rightarrow> u64"
  d_sub :: "u64 \<Rightarrow> u64 \<Rightarrow> u64"
  d_mul :: "u64 \<Rightarrow> u64 \<Rightarrow> u64"
  d_div :: "u64 \<Rightarrow> u64 \<Rightarrow> u64"
  fmod :: "u64 \<Rightarrow> u64 \<Rightarrow> u64"
  int_to_float :: "u32 \<Rightarrow> u32"
  int_to_double :: "u32 \<Rightarrow> u64"
  long_to_float :: "u64 \<Rightarrow> u32"
  long_to_double :: "u64 \<Rightarrow> u64"
  float_to_double :: "u32 \<Rightarrow> u64"
  double_to_float :: "u64 \<Rightarrow> u32"
  f_trunc_int :: "u32 \<Rightarrow> u32"
  f_trunc_long :: "u32 \<Rightarrow> u64"
  d_trunc_int :: "u64 \<Rightarrow> u32"
  d_trunc_long :: "u64 \<Rightarrow> u64"

text \<open>What the interpreter calls. A pointer result of 0 is null; a service that gives null has
  thrown. \<open>entry\<close> stands for the callee behind EntryPointFromInterpreter.\<close>

record ('o, 's) runtime =
  self_tid :: u32
  do_access_check :: bool
  fp :: fp_ops
  code_of :: "ptr \<rightharpoonup> CodeItem"
  method_enter_cb :: "listener \<Rightarrow> u32 \<Rightarrow> ptr \<Rightarrow> ptr \<Rightarrow> u32 \<Rightarrow> 's \<Rightarrow> 's res"
  method_exit_cb :: "listener \<Rightarrow> u32 \<Rightarrow> ptr \<Rightarrow> ptr \<Rightarrow> u32 \<Rightarrow> u64 \<Rightarrow> 's \<Rightarrow> 's res"
  method_unwind_cb :: "listener \<Rightarrow> u32 \<Rightarrow> ptr \<Rightarrow> ptr \<Rightarrow> u32 \<Rightarrow> 's \<Rightarrow> 's res"
  dex_pc_cb :: "listener \<Rightarrow> u32 \<Rightarrow> ptr \<Rightarrow> ptr \<Rightarrow> u32 \<Rightarrow> 's \<Rightarrow> 's res"
  field_read_cb :: "listener \<Rightarrow> u32 \<Rightarrow> ptr \<Rightarrow> ptr \<Rightarrow> u32 \<Rightarrow> ptr \<Rightarrow> 's \<Rightarrow> 's res"
  field_write_cb :: "listener \<Rightarrow> u32 \<Rightarrow> ptr \<Rightarrow> ptr \<Rightarrow> u32 \<Rightarrow> ptr \<Rightarrow> u64 \<Rightarrow> 's \<Rightarrow> 's res"
  exception_cb :: "listener \<Rightarrow> u32 \<Rightarrow> ptr \<Rightarrow> ptr option \<times> 's \<Rightarrow> (ptr option \<times> 's) res"
  AllowThreadSuspension :: "('o, 's) world \<Rightarrow> ('o, 's) world"
  throw_new :: "Throwable \<Rightarrow> ('o, 's) world \<Rightarrow> ('o, 's) world"
  GetClass :: "('o, 's) world \<Rightarrow> ptr \<Rightarrow> ptr"
  InstanceOf :: "('o, 's) world \<Rightarrow> ptr \<Rightarrow> ptr \<Rightarrow> bool"
  IsAssignableFrom :: "('o, 's) world \<Rightarrow> ptr \<Rightarrow> ptr \<Rightarrow> bool"
  IsThrowableClass :: "('o, 's) world \<Rightarrow> ptr \<Rightarrow> bool"
  IsStringClass :: "('o, 's) world \<Rightarrow> ptr \<Rightarrow> bool"
  IsThrownByCurrentMethod :: "('o, 's) world \<Rightarrow> ptr \<Rightarrow> bool"
  GetClassFromTypeIndex :: "ptr \<Rightarrow> u16 \<Rightarrow> ('o, 's) world \<Rightarrow> ptr \<times> ('o, 's) world"
  GetReturnType :: "ptr \<Rightarrow> ('o, 's) world \<Rightarrow> ptr \<times> ('o, 's) world"
  ParameterType :: "ptr \<Rightarrow> nat \<Rightarrow> u16"
  ResolveString :: "ptr \<Rightarrow> u32 \<Rightarrow> ('o, 's) world \<Rightarrow> (ptr \<times> ('o, 's) world) res"
  ResolveVerifyAndClinit :: "u32 \<Rightarrow> ptr \<Rightarrow> ('o, 's) world \<Rightarrow> (ptr \<times> ('o, 's) world) res"
  AllocString :: "('o, 's) world \<Rightarrow> ptr \<times> ('o, 's) world"
  AllocObjectFromCode :: "u32 \<Rightarrow> ptr \<Rightarrow> ('o, 's) world \<Rightarrow> ptr \<times> ('o, 's) world"
  AllocArrayFromCode :: "u32 \<Rightarrow> u32 \<Rightarrow> ptr \<Rightarrow> ('o, 's) world \<Rightarrow> ptr \<times> ('o, 's) world"
  AllocArray :: "ptr \<Rightarrow> nat \<Rightarrow> ('o, 's) world \<Rightarrow> ptr \<times> ('o, 's) world"
  FillArrayData :: "insn \<Rightarrow> ptr \<Rightarrow> ('o, 's) world \<Rightarrow> (bool \<times> ('o, 's) world) res"
  CheckAssignable :: "ptr \<Rightarrow> ptr \<Rightarrow> ('o, 's) world \<Rightarrow> bool \<times> ('o, 's) world"
  MonitorEnter :: "ptr \<Rightarrow> ('o, 's) world \<Rightarrow> ('o, 's) world res"
  MonitorExit :: "ptr \<Rightarrow> ('o, 's) world \<Rightarrow> ('o, 's) world res"
  FindFieldFromCode :: "FindFieldType \<Rightarrow> u32 \<Rightarrow> ptr \<Rightarrow> nat \<Rightarrow> ('o, 's) world \<Rightarrow> (ptr \<times> ('o, 's) world) res"
  FieldOffset :: "ptr \<Rightarrow> u32"
  FieldType :: "ptr \<Rightarrow> ('o, 's) world \<Rightarrow> ptr \<times> ('o, 's) world"
  FindInstanceFieldWithOffset :: "('o, 's) world \<Rightarrow> ptr \<Rightarrow> u32 \<Rightarrow> ptr"
  FindMethodFromCode :: "InvokeType \<Rightarrow> u32 \<Rightarrow> ptr \<Rightarrow> ptr \<Rightarrow> ('o, 's) world \<Rightarrow> (ptr \<times> ('o, 's) world) res"
  GetEmbeddedVTableEntry :: "('o, 's) world \<Rightarrow> ptr \<Rightarrow> u32 \<Rightarrow> ptr res"
  StringFactory :: "ptr \<Rightarrow> ptr"
  string_init_registers :: "ptr \<Rightarrow> u32 \<Rightarrow> nat list"
  entry :: "ShadowFrame \<Rightarrow> ('o, 's) world \<Rightarrow> u64 \<Rightarrow> (u64 \<times> ('o, 's) world) res"

abbreviation IsExceptionPending :: "('o, 's) world \<Rightarrow> bool" where
  "IsExceptionPending w \<equiv> exception w \<noteq> 0"

section \<open>Events\<close>

definition frame_method :: "('o, 's) world \<Rightarrow> ShadowFrame \<Rightarrow> ArtMethod res" where
  "frame_method w f = deref (methods (art w)) (sf_method f)"

definition this_object_of :: "('o, 's) runtime \<Rightarrow> CodeItem \<Rightarrow> ('o, 's) istate \<Rightarrow> ptr res" where
  "this_object_of rt c st = rbind (frame_method (env st) (frame st)) (\<lambda>m. GetThisObject m (ins_size c) (frame st))"

definition set_listener_state :: "('o, 's) istate \<Rightarrow> 's \<Rightarrow> ('o, 's) istate" where
  "set_listener_state st s = st\<lparr>env := (env st)\<lparr>listener_state := s\<rparr>\<rparr>"

text \<open>The guarded calls \<open>if (HasMethodEntryListeners()) MethodEnterEvent(...)\<close> and their likes.\<close>

definition post_enter :: "('o, 's) runtime \<Rightarrow> CodeItem \<Rightarrow> ('o, 's) istate \<Rightarrow> ('o, 's) istate res" where
  "post_enter rt c st =
     (if have_method_entry_listeners (instr (env st))
      then rbind (this_object_of rt c st) (\<lambda>this.
           rmap (set_listener_state st)
             (MethodEnterEvent (method_enter_cb rt) (instr (env st)) (self_tid rt) this (sf_method (frame st)) 0
               (listener_state (env st))))
      else Inr st)"

definition post_exit :: "('o, 's) runtime \<Rightarrow> CodeItem \<Rightarrow> u32 \<Rightarrow> u64 \<Rightarrow> ('o, 's) istate \<Rightarrow> ('o, 's) istate res" where
  "post_exit rt c pc result st =
     (if have_method_exit_listeners (instr (env st))
      then rbind (this_object_of rt c st) (\<lambda>this.
           rmap (set_listener_state st)
             (MethodExitEvent (method_exit_cb rt) (instr (env st)) (self_tid rt) this (sf_method (frame st)) pc result
               (listener_state (env st))))
      else Inr st)"

definition post_dex_pc :: "('o, 's) runtime \<Rightarrow> CodeItem \<Rightarrow> u32 \<Rightarrow> ('o, 's) istate \<Rightarrow> ('o, 's) istate res" where
  "post_dex_pc rt c pc st =
     (if have_dex_pc_listeners (instr (env st))
      then rbind (this_object_of rt c st) (\<lambda>this.
           rmap (set_listener_state st)
             (DexPcMovedEvent (dex_pc_cb rt) (instr (env st)) (self_tid rt) this (sf_method (frame st)) pc
               (listener_state (env st))))
      else Inr st)"

section \<open>Exceptions\<close>

definition ThrowNew :: "('o, 's) runtime \<Rightarrow> Throwable \<Rightarrow> ('o, 's) istate \<Rightarrow> ('o, 's) istate" where
  "ThrowNew rt e st = st\<lparr>env := throw_new rt e (env st)\<rparr>"

definition catch_resolve :: "('o, 's) runtime \<Rightarrow> ptr \<Rightarrow> u16 \<Rightarrow> ('o, 's) world \<Rightarrow> ptr \<times> ('o, 's) world" where
  "catch_resolve rt mp t w =
     (case GetClassFromTypeIndex rt mp t w of (k, w) \<Rightarrow> (k, if k = 0 then w\<lparr>exception := 0\<rparr> else w))"

text \<open>The answer is the address of the handler and whether the exception is to be cleared.\<close>

definition FindCatchBlock ::
    "('o, 's) runtime \<Rightarrow> ptr \<Rightarrow> ptr \<Rightarrow> u32 \<Rightarrow> ('o, 's) world \<Rightarrow> ((u32 \<times> bool) \<times> ('o, 's) world) res" where
  "FindCatchBlock rt mp exception_type dex_pc w =
     rbind (deref (code_of rt) mp) (\<lambda>code_item.
     rbind (new_CatchHandlerIterator code_item dex_pc) (\<lambda>it.
     rbind (find_catch (catch_resolve rt mp) (IsAssignableFrom rt) exception_type it (w\<lparr>exception := 0\<rparr>)) (\<lambda>(found_dex_pc, w').
     rbind (if found_dex_pc = kDexNoIndex then Inr False
            else rmap (\<lambda>opcode. opcode \<noteq> MOVE_EXCEPTION) (Opcode (code_at (insns code_item) (uint found_dex_pc))))
       (\<lambda>has_no_move_exception.
     Inr ((found_dex_pc, has_no_move_exception), if exception w \<noteq> 0 then w'\<lparr>exception := exception w\<rparr> else w')))))"

definition FindNextInstructionFollowingException ::
    "('o, 's) runtime \<Rightarrow> u32 \<Rightarrow> ('o, 's) istate \<Rightarrow> (u32 \<times> ('o, 's) istate) res" where
  "FindNextInstructionFollowingException rt dex_pc st =
     (let w = env st; e = exception w in
      if e = 0 then Inl NullPointer
      else
        rbind (if have_exception_caught_listeners (instr w) \<and> IsThrownByCurrentMethod rt w e
               then rmap (\<lambda>(_, s). w\<lparr>listener_state := s\<rparr>)
                      (ExceptionCaughtEvent (exception_cb rt) (instr w) (self_tid rt) e (Some e, listener_state w))
               else Inr w) (\<lambda>w.
        rbind (FindCatchBlock rt (sf_method (frame st)) (GetClass rt w e) dex_pc w) (\<lambda>((found_dex_pc, clear_exception), w).
        if found_dex_pc = kDexNoIndex
        then rbind (frame_method w (frame st)) (\<lambda>m.
             rbind (GetThisObject_code_item m
                      (map_option (\<lambda>c. (registers_size c, ins_size c)) (code_of rt (sf_method (frame st)))) (frame st)) (\<lambda>this.
             rmap (\<lambda>s. (found_dex_pc, st\<lparr>env := w\<lparr>listener_state := s\<rparr>\<rparr>))
               (MethodUnwindEvent (method_unwind_cb rt) (instr w) (self_tid rt) this (sf_method (frame st)) dex_pc
                 (listener_state w))))
        else Inr (found_dex_pc, st\<lparr>env := if clear_exception then w\<lparr>exception := 0\<rparr> else w\<rparr>))))"

end
