(* ===== verification/Interpreter_Common.thy ===== *)
theory Interpreter_Common
  imports Interpreter_Runtime
begin

text \<open>
  The operations of the interpreter that several instructions share
  (runtime/interpreter/interpreter\_common.h and interpreter\_common.cc): reading and writing
  fields with the events they post, calls with the passing of arguments, and filled arrays.
  The result False means that an exception is pending.
\<close>

section \<open>Fields\<close>

definition field_IsStatic :: "ArtField \<Rightarrow> bool" where
  "field_IsStatic f \<longleftrightarrow> has_flag kAccStatic (f_access_flags f)"

definition VerifierInstanceOf :: "('o, 's) runtime \<Rightarrow> ('o, 's) world \<Rightarrow> ptr \<Rightarrow> ptr \<Rightarrow> bool res" where
  "VerifierInstanceOf rt w obj klass =
     rbind (deref (classes (art w)) klass) (\<lambda>k. Inr (IsInterface k \<or> InstanceOf rt w obj klass))"

text \<open>The value of a field of the given type in a register.\<close>

definition set_by_type :: "Primitive \<Rightarrow> nat \<Rightarrow> u64 \<Rightarrow> ShadowFrame \<Rightarrow> ShadowFrame res" where
  "set_by_type field_type vregA v f = (case field_type of
     kPrimBoolean \<Rightarrow> SetVReg vregA (ucast (ucast v :: u8)) f
   | kPrimByte \<Rightarrow> SetVReg vregA (scast (ucast v :: u8)) f
   | kPrimChar \<Rightarrow> SetVReg vregA (ucast (ucast v :: u16)) f
   | kPrimShort \<Rightarrow> SetVReg vregA (scast (ucast v :: u16)) f
   | kPrimInt \<Rightarrow> SetVReg vregA (ucast v) f
   | kPrimLong \<Rightarrow> SetVRegLong vregA v f
   | kPrimNot \<Rightarrow> SetVRegReference vregA (ucast v) f
   | _ \<Rightarrow> Inl FatalLog)"

text \<open>The value of a register as it is stored in a field of the given type.\<close>

definition get_by_type :: "Primitive \<Rightarrow> nat \<Rightarrow> ShadowFrame \<Rightarrow> u64 res" where
  "get_by_type field_type vregA f = (case field_type of
     kPrimBoolean \<Rightarrow> rmap (\<lambda>v. ucast (ucast v :: u8)) (GetVReg vregA f)
   | kPrimByte \<Rightarrow> rmap (\<lambda>v. ucast (ucast v :: u8)) (GetVReg vregA f)
   | kPrimChar \<Rightarrow> rmap (\<lambda>v. ucast (ucast v :: u16)) (GetVReg vregA f)
   | kPrimShort \<Rightarrow> rmap (\<lambda>v. ucast (ucast v :: u16)) (GetVReg vregA f)
   | kPrimInt \<Rightarrow> rmap ucast (GetVReg vregA f)
   | kPrimLong \<Rightarrow> GetVRegLong vregA f
   | kPrimNot \<Rightarrow> rmap ucast (GetVRegReference vregA f)
   | _ \<Rightarrow> Inl FatalLog)"

text \<open>The JValue that is passed to listeners: bytes and shorts are extended to an int.\<close>

definition GetFieldValue :: "Primitive \<Rightarrow> nat \<Rightarrow> ShadowFrame \<Rightarrow> u64 res" where
  "GetFieldValue field_type vreg f = (case field_type of
     kPrimBoolean \<Rightarrow> rmap (\<lambda>v. ucast (ucast v :: u8)) (GetVReg vreg f)
   | kPrimByte \<Rightarrow> rmap (\<lambda>v. ucast (scast (ucast v :: u8) :: u32)) (GetVReg vreg f)
   | kPrimChar \<Rightarrow> rmap (\<lambda>v. ucast (ucast v :: u16)) (GetVReg vreg f)
   | kPrimShort \<Rightarrow> rmap (\<lambda>v. ucast (scast (ucast v :: u16) :: u32)) (GetVReg vreg f)
   | kPrimInt \<Rightarrow> rmap ucast (GetVReg vreg f)
   | kPrimLong \<Rightarrow> GetVRegLong vreg f
   | kPrimNot \<Rightarrow> rmap ucast (GetVRegReference vreg f)
   | _ \<Rightarrow> Inl FatalLog)"

definition post_field_read :: "('o, 's) runtime \<Rightarrow> ptr \<Rightarrow> ptr \<Rightarrow> ('o, 's) istate \<Rightarrow> ('o, 's) istate res" where
  "post_field_read rt this field st =
     rmap (set_listener_state st)
       (FieldReadEvent (field_read_cb rt) (instr (env st)) (self_tid rt) this (sf_method (frame st))
         (sf_dex_pc (frame st)) field (listener_state (env st)))"

definition post_field_write :: "('o, 's) runtime \<Rightarrow> ptr \<Rightarrow> ptr \<Rightarrow> u64 \<Rightarrow> ('o, 's) istate \<Rightarrow> ('o, 's) istate res" where
  "post_field_write rt this field v st =
     rmap (set_listener_state st)
       (FieldWriteEvent (field_write_cb rt) (instr (env st)) (self_tid rt) this (sf_method (frame st))
         (sf_dex_pc (frame st)) field v (listener_state (env st)))"

definition set_cell :: "ptr \<Rightarrow> u32 \<Rightarrow> u64 \<Rightarrow> ('o, 's) istate \<Rightarrow> ('o, 's) istate" where
  "set_cell obj off v st =
     st\<lparr>env := (env st)\<lparr>cells := (cells (env st))(obj := (cells (env st) obj)(off := v))\<rparr>\<rparr>"

definition DoFieldGet ::
    "('o, 's) runtime \<Rightarrow> FindFieldType \<Rightarrow> Primitive \<Rightarrow> insn \<Rightarrow> u16 \<Rightarrow> ('o, 's) istate \<Rightarrow> (bool \<times> ('o, 's) istate) res" where
  "DoFieldGet rt find_type field_type inst inst_data st =
     (let is_static = (find_type = StaticObjectRead \<or> find_type = StaticPrimitiveRead) in
      rbind (if is_static then VRegB_21c inst else VRegC_22c inst) (\<lambda>field_idx.
      rbind (FindFieldFromCode rt find_type (ucast field_idx) (sf_method (frame st)) (ComponentSize field_type) (env st)) (\<lambda>(f, w).
      let st = st\<lparr>env := w\<rparr> in
      if f = 0 then rbind (check (IsExceptionPending w) CheckFailed) (\<lambda>_. Inr (False, st))
      else
        rbind (deref (art_fields (art w)) f) (\<lambda>field.
        rbind (if is_static then Inr (f_declaring_class field)
               else GetVRegReference (unat (VRegB_22c inst_data)) (frame st)) (\<lambda>obj.
        if \<not> is_static \<and> obj = 0 then Inr (False, ThrowNew rt NullPointerException st)
        else
          rbind (if have_field_read_listeners (instr w)
                 then post_field_read rt (if field_IsStatic field then 0 else obj) f st else Inr st) (\<lambda>st.
          let vregA = unat (if is_static then VRegA_21c inst_data else VRegA_22c inst_data) in
          rbind (set_by_type field_type vregA (cells (env st) obj (FieldOffset rt f)) (frame st)) (\<lambda>fr.
          Inr (True, st\<lparr>frame := fr\<rparr>))))))))"

definition DoIGetQuick ::
    "('o, 's) runtime \<Rightarrow> Primitive \<Rightarrow> insn \<Rightarrow> u16 \<Rightarrow> ('o, 's) istate \<Rightarrow> (bool \<times> ('o, 's) istate) res" where
  "DoIGetQuick rt field_type inst inst_data st =
     rbind (GetVRegReference (unat (VRegB_22c inst_data)) (frame st)) (\<lambda>obj.
     if obj = 0 then Inr (False, ThrowNew rt NullPointerException st)
     else
       rbind (VRegC_22c inst) (\<lambda>field_offset.
       rbind (if have_field_read_listeners (instr (env st))
              then post_field_read rt obj (FindInstanceFieldWithOffset rt (env st) (GetClass rt (env st) obj) (ucast field_offset)) st
              else Inr st) (\<lambda>st.
       rbind (set_by_type field_type (unat (VRegA_22c inst_data)) (cells (env st) obj (ucast field_offset)) (frame st)) (\<lambda>fr.
       Inr (True, st\<lparr>frame := fr\<rparr>)))))"

definition DoFieldPut ::
    "('o, 's) runtime \<Rightarrow> FindFieldType \<Rightarrow> Primitive \<Rightarrow> insn \<Rightarrow> u16 \<Rightarrow> ('o, 's) istate \<Rightarrow> (bool \<times> ('o, 's) istate) res" where
  "DoFieldPut rt find_type field_type inst inst_data st =
     (let is_static = (find_type = StaticObjectWrite \<or> find_type = StaticPrimitiveWrite) in
      rbind (if is_static then VRegB_21c inst else VRegC_22c inst) (\<lambda>field_idx.
      rbind (FindFieldFromCode rt find_type (ucast field_idx) (sf_method (frame st)) (ComponentSize field_type) (env st)) (\<lambda>(f, w).
      let st = st\<lparr>env := w\<rparr> in
      if f = 0 then rbind (check (IsExceptionPending w) CheckFailed) (\<lambda>_. Inr (False, st))
      else
        rbind (deref (art_fields (art w)) f) (\<lambda>field.
        rbind (if is_static then Inr (f_declaring_class field)
               else GetVRegReference (unat (VRegB_22c inst_data)) (frame st)) (\<lambda>obj.
        if \<not> is_static \<and> obj = 0 then Inr (False, ThrowNew rt NullPointerException st)
        else
          let vregA = unat (if is_static then VRegA_21c inst_data else VRegA_22c inst_data) in
          rbind (if have_field_write_listeners (instr w)
                 then rbind (GetFieldValue field_type vregA (frame st)) (\<lambda>field_value.
                      post_field_write rt (if field_IsStatic field then 0 else obj) f field_value st)
                 else Inr st) (\<lambda>st.
          rbind (get_by_type field_type vregA (frame st)) (\<lambda>v.
          rbind (if field_type = kPrimNot \<and> do_access_check rt \<and> v \<noteq> 0
                 then (case FieldType rt f (env st) of (fclass, w) \<Rightarrow>
                        rmap (\<lambda>ok. (ok, st\<lparr>env := w\<rparr>)) (VerifierInstanceOf rt w (ucast v) fclass))
                 else Inr (True, st)) (\<lambda>(assignable, st).
          if \<not> assignable then Inr (False, ThrowNew rt VirtualMachineError st)
          else Inr (True, set_cell obj (FieldOffset rt f) v st)))))))))"

definition DoIPutQuick ::
    "('o, 's) runtime \<Rightarrow> Primitive \<Rightarrow> insn \<Rightarrow> u16 \<Rightarrow> ('o, 's) istate \<Rightarrow> (bool \<times> ('o, 's) istate) res" where
  "DoIPutQuick rt field_type inst inst_data st =
     rbind (GetVRegReference (unat (VRegB_22c inst_data)) (frame st)) (\<lambda>obj.
     if obj = 0 then Inr (False, ThrowNew rt NullPointerException st)
     else
       rbind (VRegC_22c inst) (\<lambda>field_offset.
       let vregA = unat (VRegA_22c inst_data) in
       rbind (if have_field_write_listeners (instr (env st))
              then rbind (GetFieldValue field_type vregA (frame st)) (\<lambda>field_value.
                   post_field_write rt obj (FindInstanceFieldWithOffset rt (env st) (GetClass rt (env st) obj) (ucast field_offset))
                     field_value st)
              else Inr st) (\<lambda>st.
       rbind (get_by_type field_type vregA (frame st)) (\<lambda>v.
       Inr (True, set_cell obj (ucast field_offset) v st)))))"

section \<open>Calls\<close>

definition AssignRegister :: "ShadowFrame \<Rightarrow> nat \<Rightarrow> nat \<Rightarrow> ShadowFrame \<Rightarrow> ShadowFrame res" where
  "AssignRegister shadow_frame dest_reg src_reg new_shadow_frame =
     rbind (GetVReg src_reg shadow_frame) (\<lambda>src_value.
     rbind (GetVRegReference src_reg shadow_frame) (\<lambda>ref.
     if src_value = ref then SetVRegReference dest_reg ref new_shadow_frame
     else SetVReg dest_reg src_value new_shadow_frame))"

text \<open>The fast path of DoCall: the arguments are copied register by register.  Register numbers
  of the new frame wrap around like size\_t; a call of StringFactory skips the receiver.\<close>

definition range_args ::
    "bool \<Rightarrow> insn \<Rightarrow> u16 \<Rightarrow> u32 \<Rightarrow> ShadowFrame \<Rightarrow> ShadowFrame \<Rightarrow> ShadowFrame res" where
  "range_args string_init inst num_regs first_dest_reg f new =
     rbind (VRegC_3rc inst) (\<lambda>first_src_reg.
     let src = unat (if string_init then first_src_reg + 1 else first_src_reg);
         dest = unat (if string_init then first_dest_reg + 1 else first_dest_reg)
     in rfold (\<lambda>k. AssignRegister f (dest + k) (src + k)) [0..<unat num_regs - dest] new)"

definition var_args ::
    "bool \<Rightarrow> insn \<Rightarrow> u16 \<Rightarrow> u16 \<Rightarrow> u32 \<Rightarrow> ShadowFrame \<Rightarrow> ShadowFrame \<Rightarrow> ShadowFrame res" where
  "var_args string_init inst inst_data num_ins first_dest_reg f new =
     rbind (Fetch16 2 inst) (\<lambda>regList.
     rbind (if num_ins = 5
            then AssignRegister f (unat (first_dest_reg + 4)) (unat (drop_bit 8 inst_data AND 0x0f)) new
            else Inr new) (\<lambda>new.
     let count = (if num_ins = 5 then num_ins - 1 else num_ins);
         count = (if string_init then count - 1 else count);
         regList = (if string_init then drop_bit 4 regList else regList);
         first_dest_reg = (if string_init then first_dest_reg + 1 else first_dest_reg)
     in rfold (\<lambda>k. AssignRegister f (unat (first_dest_reg + of_nat k)) (unat (drop_bit (4 * k) regList AND 0x0f)))
          [0..<unat count] new))"

text \<open>The slow path checks every reference against the type of its parameter. \<open>arg\<close> gives the
  register of an argument; None is a pending exception.\<close>

function checked_args ::
    "('o, 's) runtime \<Rightarrow> (nat \<Rightarrow> nat res) \<Rightarrow> string \<Rightarrow> nat \<Rightarrow> ptr \<Rightarrow> ShadowFrame \<Rightarrow>
     nat \<Rightarrow> nat \<Rightarrow> nat \<Rightarrow> ShadowFrame \<Rightarrow> ('o, 's) world \<Rightarrow> (ShadowFrame option \<times> ('o, 's) world) res" where
  "checked_args rt arg shorty num_regs mp f shorty_pos dest_reg arg_offset new w =
     (if dest_reg < num_regs then
        rbind (if shorty_pos + 1 < length shorty then Inr (shorty ! (shorty_pos + 1))
               else if shorty_pos + 1 = length shorty then Inr (CHR 0x00) else Inl OutOfBounds) (\<lambda>c.
        rbind (arg arg_offset) (\<lambda>src_reg.
        if c = CHR ''L'' then
          rbind (GetVRegReference src_reg f) (\<lambda>ref.
          rbind (if ref \<noteq> 0
                 then (case GetClassFromTypeIndex rt mp (ParameterType rt mp shorty_pos) w of (arg_type, w) \<Rightarrow>
                   if arg_type = 0 then rbind (check (IsExceptionPending w) CheckFailed) (\<lambda>_. Inr (False, w))
                   else rbind (VerifierInstanceOf rt w ref arg_type) (\<lambda>ok.
                        Inr (ok, if ok then w else throw_new rt VirtualMachineError w)))
                 else Inr (True, w)) (\<lambda>(ok, w).
          if \<not> ok then Inr (None, w)
          else rbind (SetVRegReference dest_reg ref new) (\<lambda>new.
               checked_args rt arg shorty num_regs mp f (shorty_pos + 1) (dest_reg + 1) (arg_offset + 1) new w)))
        else if c = CHR ''J'' \<or> c = CHR ''D'' then
          rbind (GetVReg (src_reg + 1) f) (\<lambda>hi. rbind (GetVReg src_reg f) (\<lambda>lo.
          rbind (SetVRegLong dest_reg (long_of lo hi) new) (\<lambda>new.
          checked_args rt arg shorty num_regs mp f (shorty_pos + 1) (dest_reg + 2) (arg_offset + 2) new w)))
        else
          rbind (GetVReg src_reg f) (\<lambda>v.
          rbind (SetVReg dest_reg v new) (\<lambda>new.
          checked_args rt arg shorty num_regs mp f (shorty_pos + 1) (dest_reg + 1) (arg_offset + 1) new w))))
      else Inr (Some new, w))"
  by pat_completeness auto
termination
  by (relation "measure (\<lambda>(rt, arg, shorty, num_regs, mp, f, shorty_pos, dest_reg, _). num_regs - dest_reg)") auto

declare checked_args.simps [simp del]

definition slow_args ::
    "('o, 's) runtime \<Rightarrow> bool \<Rightarrow> bool \<Rightarrow> insn \<Rightarrow> u16 \<Rightarrow> u16 \<Rightarrow> u32 \<Rightarrow> ArtMethod \<Rightarrow> ptr \<Rightarrow>
     ShadowFrame \<Rightarrow> ShadowFrame \<Rightarrow> ('o, 's) world \<Rightarrow> (ShadowFrame option \<times> ('o, 's) world) res" where
  "slow_args rt is_range string_init inst inst_data num_regs first_dest_reg m mp f new w =
     rbind (if is_range then rmap (\<lambda>c. \<lambda>k. Inr (unat c + k)) (VRegC_3rc inst)
            else rmap (\<lambda>arg. \<lambda>k. if k < length arg then Inr (unat (arg ! k)) else Inl OutOfBounds)
                   (GetVarArgs (replicate 5 0) inst_data inst)) (\<lambda>arg.
     if \<not> IsStatic m then
       rbind (arg 0) (\<lambda>receiver_reg.
       rbind (GetVRegReference receiver_reg f) (\<lambda>receiver.
       rbind (SetVRegReference (unat first_dest_reg) receiver new) (\<lambda>new.
       checked_args rt arg (m_shorty m) (unat num_regs) mp f 0 (unat (first_dest_reg + 1)) 1 new w)))
     else if string_init then checked_args rt arg (m_shorty m) (unat num_regs) mp f 0 (unat (first_dest_reg + 1)) 1 new w
     else checked_args rt arg (m_shorty m) (unat num_regs) mp f 0 (unat first_dest_reg) 0 new w)"

text \<open>The registers that get the new string after a call of a constructor of String.\<close>

definition set_string_result ::
    "('o, 's) runtime \<Rightarrow> bool \<Rightarrow> insn \<Rightarrow> ('o, 's) istate \<Rightarrow> ('o, 's) istate res" where
  "set_string_result rt is_range inst st =
     rbind (if is_range then rmap unat (VRegC_3rc inst) else rmap unat (VRegC_35c inst)) (\<lambda>vregC.
     rbind (rfold (\<lambda>r. SetVRegReference r (ucast (result_register st)))
              (vregC # string_init_registers rt (sf_method (frame st)) (sf_dex_pc (frame st))) (frame st)) (\<lambda>f.
     Inr (st\<lparr>frame := f\<rparr>)))"

definition DoCall ::
    "('o, 's) runtime \<Rightarrow> bool \<Rightarrow> bool \<Rightarrow> ptr \<Rightarrow> insn \<Rightarrow> u16 \<Rightarrow> ('o, 's) istate \<Rightarrow> (bool \<times> ('o, 's) istate) res" where
  "DoCall rt is_range do_assignability_check called_method inst inst_data st =
     rbind (deref (methods (art (env st))) called_method) (\<lambda>m0.
     let string_init = (IsStringClass rt (env st) (declaring_class m0) \<and> IsConstructor m0);
         mp = (if string_init then StringFactory rt called_method else called_method)
     in rbind (deref (methods (art (env st))) mp) (\<lambda>m.
     let num_ins = ucast (if is_range then VRegA_3rc inst_data else VRegA_35c inst_data) :: u16;
         num_regs = (case code_of rt mp of Some c \<Rightarrow> registers_size c
                     | None \<Rightarrow> if string_init then num_ins - 1 else num_ins);
         new = Create (unat num_regs) mp 0;
         first_dest_reg = ucast num_regs - ucast num_ins
     in rbind (if do_assignability_check
               then slow_args rt is_range string_init inst inst_data num_regs first_dest_reg m mp (frame st) new (env st)
               else rmap (\<lambda>new. (Some new, env st))
                      (if is_range then range_args string_init inst num_regs first_dest_reg (frame st) new
                       else var_args string_init inst inst_data num_ins first_dest_reg (frame st) new)) (\<lambda>(args, w).
     case args of
       None \<Rightarrow> Inr (False, st\<lparr>env := w\<rparr>)
     | Some new \<Rightarrow>
         rbind (entry rt new w (result_register st)) (\<lambda>(result, w).
         let st = st\<lparr>env := w, result_register := result\<rparr> in
         rbind (if string_init \<and> \<not> IsExceptionPending w then set_string_result rt is_range inst st else Inr st) (\<lambda>st.
         Inr (\<not> IsExceptionPending (env st), st))))))"

definition DoInvoke ::
    "('o, 's) runtime \<Rightarrow> InvokeType \<Rightarrow> bool \<Rightarrow> insn \<Rightarrow> u16 \<Rightarrow> ('o, 's) istate \<Rightarrow> (bool \<times> ('o, 's) istate) res" where
  "DoInvoke rt type is_range inst inst_data st =
     rbind (if is_range then VRegB_3rc inst else VRegB_35c inst) (\<lambda>method_idx.
     rbind (if is_range then rmap unat (VRegC_3rc inst) else rmap unat (VRegC_35c inst)) (\<lambda>vregC.
     rbind (if type = kStatic then Inr 0 else GetVRegReference vregC (frame st)) (\<lambda>receiver.
     rbind (FindMethodFromCode rt type (ucast method_idx) receiver (sf_method (frame st)) (env st)) (\<lambda>(called_method, w).
     let st = st\<lparr>env := w\<rparr> in
     if called_method = 0
     then rbind (check (IsExceptionPending w) CheckFailed) (\<lambda>_. Inr (False, st\<lparr>result_register := 0\<rparr>))
     else rbind (deref (methods (art w)) called_method) (\<lambda>m.
       if IsAbstract m then Inr (False, (ThrowNew rt AbstractMethodError st)\<lparr>result_register := 0\<rparr>)
       else DoCall rt is_range (do_access_check rt) called_method inst inst_data st)))))"

text \<open>The CHECK that the class of the receiver has an embedded table is part of
  \<open>GetEmbeddedVTableEntry\<close>.\<close>

definition DoInvokeVirtualQuick ::
    "('o, 's) runtime \<Rightarrow> bool \<Rightarrow> insn \<Rightarrow> u16 \<Rightarrow> ('o, 's) istate \<Rightarrow> (bool \<times> ('o, 's) istate) res" where
  "DoInvokeVirtualQuick rt is_range inst inst_data st =
     rbind (if is_range then rmap unat (VRegC_3rc inst) else rmap unat (VRegC_35c inst)) (\<lambda>vregC.
     rbind (GetVRegReference vregC (frame st)) (\<lambda>receiver.
     if receiver = 0 then Inr (False, ThrowNew rt NullPointerException st)
     else
       rbind (if is_range then VRegB_3rc inst else VRegB_35c inst) (\<lambda>vtable_idx.
       rbind (GetEmbeddedVTableEntry rt (env st) (GetClass rt (env st) receiver) (ucast vtable_idx)) (\<lambda>called_method.
       if called_method = 0
       then rbind (check (IsExceptionPending (env st)) CheckFailed) (\<lambda>_. Inr (False, st\<lparr>result_register := 0\<rparr>))
       else rbind (deref (methods (art (env st))) called_method) (\<lambda>m.
         if IsAbstract m then Inr (False, (ThrowNew rt AbstractMethodError st)\<lparr>result_register := 0\<rparr>)
         else DoCall rt is_range False called_method inst inst_data st)))))"

section \<open>Arrays\<close>

definition array_elements :: "('o, 's) world \<Rightarrow> ptr \<Rightarrow> u64 list res" where
  "array_elements w a = (case arrays w a of None \<Rightarrow> Inl OutOfBounds | Some vs \<Rightarrow> Inr vs)"

text \<open>CheckIsValidIndex compares as unsigned numbers.\<close>

definition CheckIsValidIndex :: "u64 list \<Rightarrow> u32 \<Rightarrow> bool" where
  "CheckIsValidIndex vs index \<longleftrightarrow> unat index < length vs"

definition SetWithoutChecks :: "ptr \<Rightarrow> nat \<Rightarrow> u64 \<Rightarrow> ('o, 's) world \<Rightarrow> ('o, 's) world res" where
  "SetWithoutChecks a i v w =
     rbind (array_elements w a) (\<lambda>vs.
     if i < length vs then Inr (w\<lparr>arrays := (arrays w)(a \<mapsto> vs[i := v])\<rparr>) else Inl OutOfBounds)"

abbreviation primInt :: nat where "primInt \<equiv> 5"
abbreviation primLong :: nat where "primLong \<equiv> 6"
abbreviation primDouble :: nat where "primDouble \<equiv> 8"

definition DoFilledNewArray ::
    "('o, 's) runtime \<Rightarrow> bool \<Rightarrow> insn \<Rightarrow> u16 \<Rightarrow> ('o, 's) istate \<Rightarrow> (bool \<times> ('o, 's) istate) res" where
  "DoFilledNewArray rt is_range inst inst_data st =
     (let len = unat (if is_range then VRegA_3rc inst_data else VRegA_35c inst_data) in
      rbind (check (is_range \<or> len \<le> 5) CheckFailed) (\<lambda>_.
      rbind (if is_range then VRegB_3rc inst else VRegB_35c inst) (\<lambda>type_idx.
      rbind (ResolveVerifyAndClinit rt (ucast type_idx) (sf_method (frame st)) (env st)) (\<lambda>(array_class, w).
      let st = st\<lparr>env := w\<rparr> in
      if array_class = 0 then Inr (False, st)
      else
        rbind (deref (classes (art w)) array_class) (\<lambda>k.
        rbind (check (IsArrayClass k) CheckFailed) (\<lambda>_.
        rbind (deref (classes (art w)) (component_type k)) (\<lambda>component_class.
        let is_primitive_int_component = (primitive_type component_class = primInt) in
        if IsPrimitive component_class \<and> \<not> is_primitive_int_component
        then Inr (False, ThrowNew rt
               (if primitive_type component_class = primLong \<or> primitive_type component_class = primDouble
                then RuntimeException else InternalError) st)
        else (case AllocArray rt array_class len w of (new_array, w) \<Rightarrow>
          if new_array = 0 then Inr (False, st\<lparr>env := w\<rparr>)
          else
            rbind (if is_range then rmap (\<lambda>c. map (\<lambda>i. unat c + i) [0..<len]) (VRegC_3rc inst)
                   else rmap (\<lambda>arg. map unat (take len arg)) (GetVarArgs (replicate 5 0) inst_data inst)) (\<lambda>regs.
            rbind (rfold (\<lambda>(i, src_reg) w.
                     rbind (if is_primitive_int_component then rmap ucast (GetVReg src_reg (frame st))
                            else rmap ucast (GetVRegReference src_reg (frame st))) (\<lambda>v.
                     SetWithoutChecks new_array i v w)) (zip [0..<len] regs) w) (\<lambda>w.
            Inr (True, st\<lparr>env := w, result_register := ucast new_array\<rparr>)))))))))))"

end
