(* ===== verification/Interpreter_Switch.thy ===== *)
theory Interpreter_Switch
  imports Interpreter_Common
begin

text \<open>
  The switch-based interpreter (runtime/interpreter/interpreter\_switch\_impl.cc). The switch is a
  table from opcodes to handlers, given in groups in the order of the source; a handler is a
  constant applied to the accessors and operations that the case in the source uses. The loop
  around the switch takes fuel.
\<close>

section \<open>Handlers\<close>

datatype flow = Go u32 | Return u64

text \<open>What a handler gets from the loop: the code of the method, the pc of the instruction and
  its first code unit.\<close>

record insn_ctx =
  code :: CodeItem
  dex_pc :: u32
  inst_data :: u16

definition inst :: "insn_ctx \<Rightarrow> insn" where
  "inst x = code_at (insns (code x)) (uint (dex_pc x))"

type_synonym ('o, 's) handler = "('o, 's) runtime \<Rightarrow> insn_ctx \<Rightarrow> ('o, 's) istate \<Rightarrow> (flow \<times> ('o, 's) istate) res"

text \<open>Operands: a register number from the first code unit or from a later one, and values read
  from registers, from the instruction and from the result register.\<close>

type_synonym operand = "insn_ctx \<Rightarrow> nat res"
type_synonym ('o, 's, 'v) val = "('o, 's) runtime \<Rightarrow> insn_ctx \<Rightarrow> ('o, 's) istate \<Rightarrow> 'v res"

definition rd :: "(u16 \<Rightarrow> 'a :: len word) \<Rightarrow> operand" where
  "rd vreg x = Inr (unat (vreg (inst_data x)))"

definition ri :: "(insn \<Rightarrow> 'a :: len word res) \<Rightarrow> operand" where
  "ri vreg x = rmap unat (vreg (inst x))"

definition reg :: "(nat \<Rightarrow> ShadowFrame \<Rightarrow> 'v res) \<Rightarrow> operand \<Rightarrow> ('o, 's, 'v) val" where
  "reg getter b rt x st = rbind (b x) (\<lambda>r. getter r (frame st))"

definition imm :: "(insn \<Rightarrow> 'a res) \<Rightarrow> ('a \<Rightarrow> 'v) \<Rightarrow> ('o, 's, 'v) val" where
  "imm vreg cast rt x st = rmap cast (vreg (inst x))"

definition imm_d :: "(u16 \<Rightarrow> 'v) \<Rightarrow> ('o, 's, 'v) val" where
  "imm_d vreg rt x st = Inr (vreg (inst_data x))"

definition un :: "('a \<Rightarrow> 'v) \<Rightarrow> ('o, 's, 'a) val \<Rightarrow> ('o, 's, 'v) val" where
  "un f a rt x st = rmap f (a rt x st)"

definition bin :: "('a \<Rightarrow> 'b \<Rightarrow> 'v) \<Rightarrow> ('o, 's, 'a) val \<Rightarrow> ('o, 's, 'b) val \<Rightarrow> ('o, 's, 'v) val" where
  "bin f a b rt x st = rbind (a rt x st) (\<lambda>u. rmap (f u) (b rt x st))"

definition result_value :: "(u64 \<Rightarrow> 'v) \<Rightarrow> ('o, 's, 'v) val" where
  "result_value f rt x st = Inr (f (result_register st))"

text \<open>Next\_1xx, Next\_2xx, Next\_3xx and Next\_51l.\<close>

definition next_insn :: "nat \<Rightarrow> insn_ctx \<Rightarrow> ('o, 's) istate \<Rightarrow> flow \<times> ('o, 's) istate" where
  "next_insn n x st = (Go (dex_pc x + of_nat n), st)"

definition RelativeAt :: "u32 \<Rightarrow> insn_ctx \<Rightarrow> ('o, 's) istate \<Rightarrow> flow \<times> ('o, 's) istate" where
  "RelativeAt offset x st = (Go (dex_pc x + offset), st)"

definition put :: "(nat \<Rightarrow> 'v \<Rightarrow> ShadowFrame \<Rightarrow> ShadowFrame res) \<Rightarrow> operand \<Rightarrow> ('o, 's, 'v) val \<Rightarrow> nat \<Rightarrow> ('o, 's) handler" where
  "put setter a val n rt x st =
     rbind (val rt x st) (\<lambda>v. rbind (a x) (\<lambda>r. rbind (setter r v (frame st)) (\<lambda>f.
     Inr (next_insn n x (st\<lparr>frame := f\<rparr>)))))"

text \<open>A point at which other threads may stop this one and act on the runtime.\<close>

definition suspend_point :: "('o, 's) runtime \<Rightarrow> ('o, 's) istate \<Rightarrow> ('o, 's) istate" where
  "suspend_point rt st = st\<lparr>env := AllowThreadSuspension rt (env st)\<rparr>"

definition HANDLE_PENDING_EXCEPTION :: "('o, 's) handler" where
  "HANDLE_PENDING_EXCEPTION rt x st =
     rbind (FindNextInstructionFollowingException rt (dex_pc x) (suspend_point rt st)) (\<lambda>(found_dex_pc, st).
     Inr (if found_dex_pc = kDexNoIndex then (Return 0, st) else (Go found_dex_pc, st)))"

definition POSSIBLY_HANDLE_PENDING_EXCEPTION :: "bool \<Rightarrow> nat \<Rightarrow> ('o, 's) handler" where
  "POSSIBLY_HANDLE_PENDING_EXCEPTION is_exception_pending n rt x st =
     (if is_exception_pending then HANDLE_PENDING_EXCEPTION rt x st else Inr (next_insn n x st))"

definition PREAMBLE :: "bool \<Rightarrow> ('o, 's) runtime \<Rightarrow> insn_ctx \<Rightarrow> ('o, 's) istate \<Rightarrow> ('o, 's) istate res" where
  "PREAMBLE mini_trace rt x st =
     rbind (post_dex_pc rt (code x) (dex_pc x) st) (\<lambda>st.
     if mini_trace
     then rmap (\<lambda>ds. st\<lparr>env := (env st)\<lparr>dex_files := ds\<rparr>\<rparr>)
            (method_VisitPc (art (env st)) (sf_method (frame st)) (dex_pc x) (dex_files (env st)))
     else Inr st)"

text \<open>An operation that reports success or a pending exception.\<close>

definition attempt :: "(('o, 's) runtime \<Rightarrow> insn \<Rightarrow> u16 \<Rightarrow> ('o, 's) istate \<Rightarrow> (bool \<times> ('o, 's) istate) res) \<Rightarrow> nat \<Rightarrow> ('o, 's) handler" where
  "attempt operation n rt x st =
     rbind (operation rt (inst x) (inst_data x) st) (\<lambda>(success, st).
     POSSIBLY_HANDLE_PENDING_EXCEPTION (\<not> success) n rt x st)"

definition throw :: "Throwable \<Rightarrow> ('o, 's) handler" where
  "throw e rt x st = HANDLE_PENDING_EXCEPTION rt x (ThrowNew rt e st)"

section \<open>Moves, results and returns\<close>

definition nop :: "('o, 's) handler" where
  "nop rt x st = Inr (next_insn 1 x st)"

definition move_exception :: "('o, 's) handler" where
  "move_exception rt x st =
     rbind (SetVRegReference (unat (VRegA_11x (inst_data x))) (exception (env st)) (frame st)) (\<lambda>f.
     Inr (next_insn 1 x (st\<lparr>frame := f, env := (env st)\<lparr>exception := 0\<rparr>\<rparr>)))"

definition move_table :: "(u8 \<times> ('o, 's) handler) list" where
  "move_table =
     [(NOP, nop),
      (MOVE, put SetVReg (rd VRegA_12x) (reg GetVReg (rd VRegB_12x)) 1),
      (MOVE_FROM16, put SetVReg (rd VRegA_22x) (reg GetVReg (ri VRegB_22x)) 2),
      (MOVE_16, put SetVReg (ri VRegA_32x) (reg GetVReg (ri VRegB_32x)) 3),
      (MOVE_WIDE, put SetVRegLong (rd VRegA_12x) (reg GetVRegLong (rd VRegB_12x)) 1),
      (MOVE_WIDE_FROM16, put SetVRegLong (rd VRegA_22x) (reg GetVRegLong (ri VRegB_22x)) 2),
      (MOVE_WIDE_16, put SetVRegLong (ri VRegA_32x) (reg GetVRegLong (ri VRegB_32x)) 3),
      (MOVE_OBJECT, put SetVRegReference (rd VRegA_12x) (reg GetVRegReference (rd VRegB_12x)) 1),
      (MOVE_OBJECT_FROM16, put SetVRegReference (rd VRegA_22x) (reg GetVRegReference (ri VRegB_22x)) 2),
      (MOVE_OBJECT_16, put SetVRegReference (ri VRegA_32x) (reg GetVRegReference (ri VRegB_32x)) 3),
      (MOVE_RESULT, put SetVReg (rd VRegA_11x) (result_value ucast) 1),
      (MOVE_RESULT_WIDE, put SetVRegLong (rd VRegA_11x) (result_value id) 1),
      (MOVE_RESULT_OBJECT, put SetVRegReference (rd VRegA_11x) (result_value ucast) 1),
      (MOVE_EXCEPTION, move_exception)]"

definition do_return :: "('o, 's, u64) val \<Rightarrow> ('o, 's) handler" where
  "do_return val rt x st =
     rbind (val rt x st) (\<lambda>result.
     rmap (\<lambda>st. (Return result, st)) (post_exit rt (code x) (dex_pc x) result (suspend_point rt st)))"

text \<open>RETURN\_OBJECT does not leave the switch after it has found a handler for an exception of
  its own: it goes on and returns the object, with the address of the handler as its own.\<close>

definition check_return_type :: "ptr \<Rightarrow> ('o, 's) handler" where
  "check_return_type obj_result rt x st =
     (case GetReturnType rt (sf_method (frame st)) (env st) of (return_type, w) \<Rightarrow>
      rbind (if return_type = 0 then HANDLE_PENDING_EXCEPTION rt x (st\<lparr>env := w\<rparr>)
             else Inr (Go (dex_pc x), st\<lparr>env := w\<rparr>)) (\<lambda>(fl, st).
      case fl of
        Return v \<Rightarrow> Inr (Return v, st)
      | Go pc \<Rightarrow>
          rbind (VerifierInstanceOf rt (env st) obj_result return_type) (\<lambda>ok.
          if ok then Inr (Go pc, st)
          else HANDLE_PENDING_EXCEPTION rt x (ThrowNew rt VirtualMachineError st))))"

definition return_object :: "('o, 's) handler" where
  "return_object rt x st =
     (let st = suspend_point rt st in
      rbind (GetVRegReference (unat (VRegA_11x (inst_data x))) (frame st)) (\<lambda>obj_result.
      rbind (if do_access_check rt \<and> obj_result \<noteq> 0 then check_return_type obj_result rt x st
             else Inr (Go (dex_pc x), st)) (\<lambda>(fl, st).
      case fl of
        Return v \<Rightarrow> Inr (Return v, st)
      | Go pc \<Rightarrow> rmap (\<lambda>st. (Return (ucast obj_result), st)) (post_exit rt (code x) pc (ucast obj_result) st))))"

definition return_table :: "(u8 \<times> ('o, 's) handler) list" where
  "return_table =
     [(RETURN_VOID_NO_BARRIER, do_return (imm_d (\<lambda>_. 0))),
      (RETURN_VOID, do_return (imm_d (\<lambda>_. 0))),
      (RETURN, do_return (un ucast (reg GetVReg (rd VRegA_11x)))),
      (RETURN_WIDE, do_return (reg GetVRegLong (rd VRegA_11x))),
      (RETURN_OBJECT, return_object)]"

section \<open>Constants\<close>

text \<open>A constant zero also makes the reference null.\<close>

definition put_const :: "operand \<Rightarrow> ('o, 's, u32) val \<Rightarrow> nat \<Rightarrow> ('o, 's) handler" where
  "put_const a val n rt x st =
     rbind (a x) (\<lambda>dst. rbind (val rt x st) (\<lambda>v.
     rbind (SetVReg dst v (frame st)) (\<lambda>f.
     rbind (if v = 0 then SetVRegReference dst 0 f else Inr f) (\<lambda>f.
     Inr (next_insn n x (st\<lparr>frame := f\<rparr>))))))"

text \<open>A reference the runtime provides, or a pending exception.\<close>

definition put_ref ::
    "operand \<Rightarrow> (('o, 's) runtime \<Rightarrow> insn_ctx \<Rightarrow> ('o, 's) istate \<Rightarrow> (ptr \<times> ('o, 's) world) res) \<Rightarrow> nat \<Rightarrow> ('o, 's) handler" where
  "put_ref a provide n rt x st =
     rbind (provide rt x st) (\<lambda>(obj, w).
     let st = st\<lparr>env := w\<rparr> in
     if obj = 0 then HANDLE_PENDING_EXCEPTION rt x st
     else rbind (a x) (\<lambda>r. rbind (SetVRegReference r obj (frame st)) (\<lambda>f.
          Inr (next_insn n x (st\<lparr>frame := f\<rparr>)))))"

definition provide_string :: "(insn \<Rightarrow> 'a :: len word res) \<Rightarrow> ('o, 's) runtime \<Rightarrow> insn_ctx \<Rightarrow> ('o, 's) istate \<Rightarrow> (ptr \<times> ('o, 's) world) res" where
  "provide_string idx rt x st = rbind (idx (inst x)) (\<lambda>i. ResolveString rt (sf_method (frame st)) (ucast i) (env st))"

definition provide_class :: "(insn \<Rightarrow> u16 res) \<Rightarrow> ('o, 's) runtime \<Rightarrow> insn_ctx \<Rightarrow> ('o, 's) istate \<Rightarrow> (ptr \<times> ('o, 's) world) res" where
  "provide_class idx rt x st =
     rbind (idx (inst x)) (\<lambda>i. ResolveVerifyAndClinit rt (ucast i) (sf_method (frame st)) (env st))"

definition const_table :: "(u8 \<times> ('o, 's) handler) list" where
  "const_table =
     [(CONST_4, put_const (rd VRegA_11n) (imm_d (\<lambda>d. scast (VRegB_11n d))) 1),
      (CONST_16, put_const (rd VRegA_21s) (imm VRegB_21s scast) 2),
      (CONST_31, put_const (rd VRegA_31i) (imm VRegB_31i id) 3),
      (CONST_HIGH16, put_const (rd VRegA_21h) (imm VRegB_21h (\<lambda>v. push_bit 16 (ucast v))) 2),
      (CONST_WIDE_16, put SetVRegLong (rd VRegA_21s) (imm VRegB_21s scast) 2),
      (CONST_WIDE_32, put SetVRegLong (rd VRegA_31i) (imm VRegB_31i scast) 3),
      (CONST_WIDE, put SetVRegLong (rd VRegA_51l) (imm VRegB_51l id) 5),
      (CONST_WIDE_HIGH16, put SetVRegLong (rd VRegA_21h) (imm VRegB_21h (\<lambda>v. push_bit 48 (ucast v))) 2),
      (CONST_STRING, put_ref (rd VRegA_21c) (provide_string VRegB_21c) 2),
      (CONST_STRING_JUMBO, put_ref (rd VRegA_31c) (provide_string VRegB_31c) 3),
      (CONST_CLASS, put_ref (rd VRegA_21c) (provide_class VRegB_21c) 2)]"

section \<open>Objects\<close>

definition monitor :: "(('o, 's) runtime \<Rightarrow> ptr \<Rightarrow> ('o, 's) world \<Rightarrow> ('o, 's) world res) \<Rightarrow> ('o, 's) handler" where
  "monitor operation rt x st =
     rbind (GetVRegReference (unat (VRegA_11x (inst_data x))) (frame st)) (\<lambda>obj.
     if obj = 0 then throw NullPointerException rt x st
     else rbind (operation rt obj (env st)) (\<lambda>w.
          POSSIBLY_HANDLE_PENDING_EXCEPTION (IsExceptionPending w) 1 rt x (st\<lparr>env := w\<rparr>)))"

definition check_cast :: "('o, 's) handler" where
  "check_cast rt x st =
     rbind (provide_class VRegB_21c rt x st) (\<lambda>(c, w).
     let st = st\<lparr>env := w\<rparr> in
     if c = 0 then HANDLE_PENDING_EXCEPTION rt x st
     else rbind (GetVRegReference (unat (VRegA_21c (inst_data x))) (frame st)) (\<lambda>obj.
       if obj \<noteq> 0 \<and> \<not> InstanceOf rt w obj c then throw ClassCastException rt x st
       else Inr (next_insn 2 x st)))"

definition instance_of :: "('o, 's) handler" where
  "instance_of rt x st =
     rbind (provide_class VRegC_22c rt x st) (\<lambda>(c, w).
     let st = st\<lparr>env := w\<rparr> in
     if c = 0 then HANDLE_PENDING_EXCEPTION rt x st
     else rbind (GetVRegReference (unat (VRegB_22c (inst_data x))) (frame st)) (\<lambda>obj.
          rbind (SetVReg (unat (VRegA_22c (inst_data x))) (if obj \<noteq> 0 \<and> InstanceOf rt w obj c then 1 else 0) (frame st)) (\<lambda>f.
          Inr (next_insn 2 x (st\<lparr>frame := f\<rparr>)))))"

definition array_length :: "('o, 's) handler" where
  "array_length rt x st =
     rbind (GetVRegReference (unat (VRegB_12x (inst_data x))) (frame st)) (\<lambda>a.
     if a = 0 then throw NullPointerException rt x st
     else rbind (array_elements (env st) a) (\<lambda>vs.
          rbind (SetVReg (unat (VRegA_12x (inst_data x))) (of_nat (length vs)) (frame st)) (\<lambda>f.
          Inr (next_insn 1 x (st\<lparr>frame := f\<rparr>)))))"

definition provide_instance :: "('o, 's) runtime \<Rightarrow> insn_ctx \<Rightarrow> ('o, 's) istate \<Rightarrow> (ptr \<times> ('o, 's) world) res" where
  "provide_instance rt x st =
     rbind (provide_class VRegB_21c rt x st) (\<lambda>(c, w).
     if c = 0 then Inr (0, w)
     else if IsStringClass rt w c then Inr (AllocString rt w)
     else rmap (\<lambda>i. AllocObjectFromCode rt (ucast i) (sf_method (frame st)) w) (VRegB_21c (inst x)))"

definition provide_array :: "('o, 's) runtime \<Rightarrow> insn_ctx \<Rightarrow> ('o, 's) istate \<Rightarrow> (ptr \<times> ('o, 's) world) res" where
  "provide_array rt x st =
     rbind (GetVReg (unat (VRegB_22c (inst_data x))) (frame st)) (\<lambda>len.
     rmap (\<lambda>i. AllocArrayFromCode rt (ucast i) len (sf_method (frame st)) (env st)) (VRegC_22c (inst x)))"

definition fill_array_data :: "('o, 's) handler" where
  "fill_array_data rt x st =
     rbind (switch_data (insns (code x)) (dex_pc x)) (\<lambda>payload.
     rbind (GetVRegReference (unat (VRegA_31t (inst_data x))) (frame st)) (\<lambda>obj.
     rbind (FillArrayData rt payload obj (env st)) (\<lambda>(success, w).
     POSSIBLY_HANDLE_PENDING_EXCEPTION (\<not> success) 3 rt x (st\<lparr>env := w\<rparr>))))"

definition do_throw :: "('o, 's) handler" where
  "do_throw rt x st =
     rbind (GetVRegReference (unat (VRegA_11x (inst_data x))) (frame st)) (\<lambda>e.
     HANDLE_PENDING_EXCEPTION rt x
       (if e = 0 then ThrowNew rt NullPointerException st
        else if do_access_check rt \<and> \<not> IsThrowableClass rt (env st) (GetClass rt (env st) e)
        then ThrowNew rt VirtualMachineError st
        else st\<lparr>env := (env st)\<lparr>exception := e\<rparr>\<rparr>))"

definition object_table :: "(u8 \<times> ('o, 's) handler) list" where
  "object_table =
     [(MONITOR_ENTER, monitor MonitorEnter),
      (MONITOR_EXIT, monitor MonitorExit),
      (CHECK_CAST, check_cast),
      (INSTANCE_OF, instance_of),
      (ARRAY_LENGTH, array_length),
      (NEW_INSTANCE, put_ref (rd VRegA_21c) provide_instance 2),
      (NEW_ARRAY, put_ref (rd VRegA_22c) provide_array 2),
      (FILLED_NEW_ARRAY, attempt (\<lambda>rt. DoFilledNewArray rt False) 3),
      (FILLED_NEW_ARRAY_RANGE, attempt (\<lambda>rt. DoFilledNewArray rt True) 3),
      (FILL_ARRAY_DATA, fill_array_data),
      (THROW, do_throw)]"

section \<open>Branches and comparisons\<close>

definition branch :: "u32 \<Rightarrow> ('o, 's) handler" where
  "branch offset rt x st = Inr (RelativeAt offset x (if IsBackwardBranch offset then suspend_point rt st else st))"

definition goto :: "('o, 's, u32) val \<Rightarrow> ('o, 's) handler" where
  "goto offset rt x st = rbind (offset rt x st) (\<lambda>off. branch off rt x st)"

definition packed_offset :: "('o, 's, u32) val" where
  "packed_offset rt x st = DoPackedSwitch (insns (code x)) (dex_pc x) (frame st) (inst_data x)"

definition sparse_offset :: "('o, 's, u32) val" where
  "sparse_offset rt x st = DoSparseSwitch (insns (code x)) (dex_pc x) (frame st) (inst_data x)"

text \<open>Comparison of floating-point numbers on their bits: a number that is not NaN is ordered like
  its sign and magnitude.\<close>

definition float_nan :: "u32 \<Rightarrow> bool" where
  "float_nan b \<longleftrightarrow> b AND 0x7fffffff > 0x7f800000"

definition float_key :: "u32 \<Rightarrow> int" where
  "float_key b = (if bit b 31 then - uint (b AND 0x7fffffff) else uint b)"

definition float_lt :: "u32 \<Rightarrow> u32 \<Rightarrow> bool" where
  "float_lt a b \<longleftrightarrow> \<not> float_nan a \<and> \<not> float_nan b \<and> float_key a < float_key b"

definition float_eq :: "u32 \<Rightarrow> u32 \<Rightarrow> bool" where
  "float_eq a b \<longleftrightarrow> \<not> float_nan a \<and> \<not> float_nan b \<and> float_key a = float_key b"

definition double_nan :: "u64 \<Rightarrow> bool" where
  "double_nan b \<longleftrightarrow> b AND 0x7fffffffffffffff > 0x7ff0000000000000"

definition double_key :: "u64 \<Rightarrow> int" where
  "double_key b = (if bit b 63 then - uint (b AND 0x7fffffffffffffff) else uint b)"

definition double_lt :: "u64 \<Rightarrow> u64 \<Rightarrow> bool" where
  "double_lt a b \<longleftrightarrow> \<not> double_nan a \<and> \<not> double_nan b \<and> double_key a < double_key b"

definition double_eq :: "u64 \<Rightarrow> u64 \<Rightarrow> bool" where
  "double_eq a b \<longleftrightarrow> \<not> double_nan a \<and> \<not> double_nan b \<and> double_key a = double_key b"

definition cmpl :: "('a \<Rightarrow> 'a \<Rightarrow> bool) \<Rightarrow> ('a \<Rightarrow> 'a \<Rightarrow> bool) \<Rightarrow> 'a \<Rightarrow> 'a \<Rightarrow> u32" where
  "cmpl lt eq val1 val2 = (if lt val2 val1 then 1 else if eq val1 val2 then 0 else - 1)"

definition cmpg :: "('a \<Rightarrow> 'a \<Rightarrow> bool) \<Rightarrow> ('a \<Rightarrow> 'a \<Rightarrow> bool) \<Rightarrow> 'a \<Rightarrow> 'a \<Rightarrow> u32" where
  "cmpg lt eq val1 val2 = (if lt val1 val2 then - 1 else if eq val1 val2 then 0 else 1)"

definition branch_table :: "(u8 \<times> ('o, 's) handler) list" where
  "branch_table =
     [(GOTO, goto (imm_d (\<lambda>d. scast (VRegA_10t d)))),
      (GOTO_16, goto (imm VRegA_20t scast)),
      (GOTO_32, goto (imm VRegA_30t id)),
      (PACKED_SWITCH, goto packed_offset),
      (SPARSE_SWITCH, goto sparse_offset),
      (CMPL_FLOAT, put SetVReg (rd VRegA_23x) (bin (cmpl float_lt float_eq) (reg GetVRegFloat (ri VRegB_23x)) (reg GetVRegFloat (ri VRegC_23x))) 2),
      (CMPG_FLOAT, put SetVReg (rd VRegA_23x) (bin (cmpg float_lt float_eq) (reg GetVRegFloat (ri VRegB_23x)) (reg GetVRegFloat (ri VRegC_23x))) 2),
      (CMPL_DOUBLE, put SetVReg (rd VRegA_23x) (bin (cmpl double_lt double_eq) (reg GetVRegDouble (ri VRegB_23x)) (reg GetVRegDouble (ri VRegC_23x))) 2),
      (CMPG_DOUBLE, put SetVReg (rd VRegA_23x) (bin (cmpg double_lt double_eq) (reg GetVRegDouble (ri VRegB_23x)) (reg GetVRegDouble (ri VRegC_23x))) 2),
      (CMP_LONG, put SetVReg (rd VRegA_23x) (bin (cmpl (<s) (=)) (reg GetVRegLong (ri VRegB_23x)) (reg GetVRegLong (ri VRegC_23x))) 2)]"

definition if_test :: "(u32 \<Rightarrow> u32 \<Rightarrow> bool) \<Rightarrow> ('o, 's) handler" where
  "if_test test rt x st =
     rbind (GetVReg (unat (VRegA_22t (inst_data x))) (frame st)) (\<lambda>a.
     rbind (GetVReg (unat (VRegB_22t (inst_data x))) (frame st)) (\<lambda>b.
     if test a b then rbind (VRegC_22t (inst x)) (\<lambda>offset. branch (scast offset) rt x st)
     else Inr (next_insn 2 x st)))"

definition if_testz :: "(u32 \<Rightarrow> bool) \<Rightarrow> ('o, 's) handler" where
  "if_testz test rt x st =
     rbind (GetVReg (unat (VRegA_21t (inst_data x))) (frame st)) (\<lambda>a.
     if test a then rbind (VRegB_21t (inst x)) (\<lambda>offset. branch (scast offset) rt x st)
     else Inr (next_insn 2 x st))"

definition if_table :: "(u8 \<times> ('o, 's) handler) list" where
  "if_table =
     [(IF_EQ, if_test (=)),
      (IF_NE, if_test (\<noteq>)),
      (IF_LT, if_test (<s)),
      (IF_GE, if_test (\<lambda>a b. b \<le>s a)),
      (IF_GT, if_test (\<lambda>a b. b <s a)),
      (IF_LE, if_test (\<le>s)),
      (IF_EQZ, if_testz (\<lambda>a. a = 0)),
      (IF_NEZ, if_testz (\<lambda>a. a \<noteq> 0)),
      (IF_LTZ, if_testz (\<lambda>a. a <s 0)),
      (IF_GEZ, if_testz (\<lambda>a. 0 \<le>s a)),
      (IF_GTZ, if_testz (\<lambda>a. 0 <s a)),
      (IF_LEZ, if_testz (\<lambda>a. a \<le>s 0))]"

section \<open>Array elements\<close>

definition aget :: "(nat \<Rightarrow> 'v \<Rightarrow> ShadowFrame \<Rightarrow> ShadowFrame res) \<Rightarrow> (u64 \<Rightarrow> 'v) \<Rightarrow> ('o, 's) handler" where
  "aget setter element rt x st =
     rbind (reg GetVRegReference (ri VRegB_23x) rt x st) (\<lambda>a.
     if a = 0 then throw NullPointerException rt x st
     else rbind (reg GetVReg (ri VRegC_23x) rt x st) (\<lambda>index.
          rbind (array_elements (env st) a) (\<lambda>vs.
          if CheckIsValidIndex vs index
          then rbind (setter (unat (VRegA_23x (inst_data x))) (element (vs ! unat index)) (frame st)) (\<lambda>f.
               Inr (next_insn 2 x (st\<lparr>frame := f\<rparr>)))
          else throw ArrayIndexOutOfBoundsException rt x st)))"

definition aput :: "('o, 's, u64) val \<Rightarrow> ('o, 's) handler" where
  "aput val rt x st =
     rbind (reg GetVRegReference (ri VRegB_23x) rt x st) (\<lambda>a.
     if a = 0 then throw NullPointerException rt x st
     else rbind (val rt x st) (\<lambda>v.
          rbind (reg GetVReg (ri VRegC_23x) rt x st) (\<lambda>index.
          rbind (array_elements (env st) a) (\<lambda>vs.
          if CheckIsValidIndex vs index
          then rmap (\<lambda>w. next_insn 2 x (st\<lparr>env := w\<rparr>)) (SetWithoutChecks a (unat index) v (env st))
          else throw ArrayIndexOutOfBoundsException rt x st))))"

definition aput_object :: "('o, 's) handler" where
  "aput_object rt x st =
     rbind (reg GetVRegReference (ri VRegB_23x) rt x st) (\<lambda>a.
     if a = 0 then throw NullPointerException rt x st
     else rbind (reg GetVReg (ri VRegC_23x) rt x st) (\<lambda>index.
          rbind (GetVRegReference (unat (VRegA_23x (inst_data x))) (frame st)) (\<lambda>v.
          rbind (array_elements (env st) a) (\<lambda>vs.
          if \<not> CheckIsValidIndex vs index then throw ArrayIndexOutOfBoundsException rt x st
          else (case CheckAssignable rt a v (env st) of (ok, w) \<Rightarrow>
            if ok then rmap (\<lambda>w. next_insn 2 x (st\<lparr>env := w\<rparr>)) (SetWithoutChecks a (unat index) (ucast v) w)
            else HANDLE_PENDING_EXCEPTION rt x (st\<lparr>env := w\<rparr>))))))"

definition aget_table :: "(u8 \<times> ('o, 's) handler) list" where
  "aget_table =
     [(AGET_BOOLEAN, aget SetVReg (\<lambda>v. ucast (ucast v :: u8))),
      (AGET_BYTE, aget SetVReg (\<lambda>v. scast (ucast v :: u8))),
      (AGET_CHAR, aget SetVReg (\<lambda>v. ucast (ucast v :: u16))),
      (AGET_SHORT, aget SetVReg (\<lambda>v. scast (ucast v :: u16))),
      (AGET, aget SetVReg ucast),
      (AGET_WIDE, aget SetVRegLong id),
      (AGET_OBJECT, aget SetVRegReference ucast)]"

definition aput_table :: "(u8 \<times> ('o, 's) handler) list" where
  "aput_table =
     [(APUT_BOOLEAN, aput (un (\<lambda>v. ucast (ucast v :: u8)) (reg GetVReg (rd VRegA_23x)))),
      (APUT_BYTE, aput (un (\<lambda>v. ucast (ucast v :: u8)) (reg GetVReg (rd VRegA_23x)))),
      (APUT_CHAR, aput (un (\<lambda>v. ucast (ucast v :: u16)) (reg GetVReg (rd VRegA_23x)))),
      (APUT_SHORT, aput (un (\<lambda>v. ucast (ucast v :: u16)) (reg GetVReg (rd VRegA_23x)))),
      (APUT, aput (un ucast (reg GetVReg (rd VRegA_23x)))),
      (APUT_WIDE, aput (reg GetVRegLong (rd VRegA_23x))),
      (APUT_OBJECT, aput_object)]"

section \<open>Fields and calls\<close>

definition field_get :: "FindFieldType \<Rightarrow> Primitive \<Rightarrow> ('o, 's) handler" where
  "field_get find_type field_type = attempt (\<lambda>rt. DoFieldGet rt find_type field_type) 2"

definition field_put :: "FindFieldType \<Rightarrow> Primitive \<Rightarrow> ('o, 's) handler" where
  "field_put find_type field_type = attempt (\<lambda>rt. DoFieldPut rt find_type field_type) 2"

definition iget_quick :: "Primitive \<Rightarrow> ('o, 's) handler" where
  "iget_quick field_type = attempt (\<lambda>rt. DoIGetQuick rt field_type) 2"

definition iput_quick :: "Primitive \<Rightarrow> ('o, 's) handler" where
  "iput_quick field_type = attempt (\<lambda>rt. DoIPutQuick rt field_type) 2"

definition invoke :: "InvokeType \<Rightarrow> bool \<Rightarrow> ('o, 's) handler" where
  "invoke type is_range = attempt (\<lambda>rt. DoInvoke rt type is_range) 3"

definition invoke_quick :: "bool \<Rightarrow> ('o, 's) handler" where
  "invoke_quick is_range = attempt (\<lambda>rt. DoInvokeVirtualQuick rt is_range) 3"

definition get_table :: "(u8 \<times> ('o, 's) handler) list" where
  "get_table =
     [(IGET_BOOLEAN, field_get InstancePrimitiveRead kPrimBoolean),
      (IGET_BYTE, field_get InstancePrimitiveRead kPrimByte),
      (IGET_CHAR, field_get InstancePrimitiveRead kPrimChar),
      (IGET_SHORT, field_get InstancePrimitiveRead kPrimShort),
      (IGET, field_get InstancePrimitiveRead kPrimInt),
      (IGET_WIDE, field_get InstancePrimitiveRead kPrimLong),
      (IGET_OBJECT, field_get InstanceObjectRead kPrimNot),
      (IGET_QUICK, iget_quick kPrimInt),
      (IGET_WIDE_QUICK, iget_quick kPrimLong),
      (IGET_OBJECT_QUICK, iget_quick kPrimNot),
      (IGET_BOOLEAN_QUICK, iget_quick kPrimBoolean),
      (IGET_BYTE_QUICK, iget_quick kPrimByte),
      (IGET_CHAR_QUICK, iget_quick kPrimChar),
      (IGET_SHORT_QUICK, iget_quick kPrimShort),
      (SGET_BOOLEAN, field_get StaticPrimitiveRead kPrimBoolean),
      (SGET_BYTE, field_get StaticPrimitiveRead kPrimByte),
      (SGET_CHAR, field_get StaticPrimitiveRead kPrimChar),
      (SGET_SHORT, field_get StaticPrimitiveRead kPrimShort),
      (SGET, field_get StaticPrimitiveRead kPrimInt),
      (SGET_WIDE, field_get StaticPrimitiveRead kPrimLong),
      (SGET_OBJECT, field_get StaticObjectRead kPrimNot)]"

definition put_table :: "(u8 \<times> ('o, 's) handler) list" where
  "put_table =
     [(IPUT_BOOLEAN, field_put InstancePrimitiveWrite kPrimBoolean),
      (IPUT_BYTE, field_put InstancePrimitiveWrite kPrimByte),
      (IPUT_CHAR, field_put InstancePrimitiveWrite kPrimChar),
      (IPUT_SHORT, field_put InstancePrimitiveWrite kPrimShort),
      (IPUT, field_put InstancePrimitiveWrite kPrimInt),
      (IPUT_WIDE, field_put InstancePrimitiveWrite kPrimLong),
      (IPUT_OBJECT, field_put InstanceObjectWrite kPrimNot),
      (IPUT_QUICK, iput_quick kPrimInt),
      (IPUT_BOOLEAN_QUICK, iput_quick kPrimBoolean),
      (IPUT_BYTE_QUICK, iput_quick kPrimByte),
      (IPUT_CHAR_QUICK, iput_quick kPrimChar),
      (IPUT_SHORT_QUICK, iput_quick kPrimShort),
      (IPUT_WIDE_QUICK, iput_quick kPrimLong),
      (IPUT_OBJECT_QUICK, iput_quick kPrimNot),
      (SPUT_BOOLEAN, field_put StaticPrimitiveWrite kPrimBoolean),
      (SPUT_BYTE, field_put StaticPrimitiveWrite kPrimByte),
      (SPUT_CHAR, field_put StaticPrimitiveWrite kPrimChar),
      (SPUT_SHORT, field_put StaticPrimitiveWrite kPrimShort),
      (SPUT, field_put StaticPrimitiveWrite kPrimInt),
      (SPUT_WIDE, field_put StaticPrimitiveWrite kPrimLong),
      (SPUT_OBJECT, field_put StaticObjectWrite kPrimNot)]"

definition invoke_table :: "(u8 \<times> ('o, 's) handler) list" where
  "invoke_table =
     [(INVOKE_VIRTUAL, invoke kVirtual False),
      (INVOKE_VIRTUAL_RANGE, invoke kVirtual True),
      (INVOKE_SUPER, invoke kSuper False),
      (INVOKE_SUPER_RANGE, invoke kSuper True),
      (INVOKE_DIRECT, invoke kDirect False),
      (INVOKE_DIRECT_RANGE, invoke kDirect True),
      (INVOKE_INTERFACE, invoke kInterface False),
      (INVOKE_INTERFACE_RANGE, invoke kInterface True),
      (INVOKE_STATIC, invoke kStatic False),
      (INVOKE_STATIC_RANGE, invoke kStatic True),
      (INVOKE_VIRTUAL_QUICK, invoke_quick False),
      (INVOKE_VIRTUAL_RANGE_QUICK, invoke_quick True)]"

section \<open>Arithmetic\<close>

definition fp_un :: "(fp_ops \<Rightarrow> 'a \<Rightarrow> 'v) \<Rightarrow> ('o, 's, 'a) val \<Rightarrow> ('o, 's, 'v) val" where
  "fp_un f a rt x st = rmap (f (fp rt)) (a rt x st)"

definition fp_bin :: "(fp_ops \<Rightarrow> 'a \<Rightarrow> 'a \<Rightarrow> 'v) \<Rightarrow> ('o, 's, 'a) val \<Rightarrow> ('o, 's, 'a) val \<Rightarrow> ('o, 's, 'v) val" where
  "fp_bin f a b rt x st = rbind (a rt x st) (\<lambda>u. rmap (f (fp rt) u) (b rt x st))"

text \<open>art\_float\_to\_integral: out of range values saturate, NaN becomes zero. The constants are the
  bounds of the integer type as floating-point numbers.\<close>

definition float_to_integral ::
    "('f \<Rightarrow> 'f \<Rightarrow> bool) \<Rightarrow> ('f \<Rightarrow> bool) \<Rightarrow> 'f \<Rightarrow> 'f \<Rightarrow> 'i :: len word \<Rightarrow> 'i word \<Rightarrow> ('f \<Rightarrow> 'i word) \<Rightarrow> 'f \<Rightarrow> 'i word" where
  "float_to_integral lt is_nan kMinIntAsFloat kMaxIntAsFloat kMin kMax trunc f =
     (if lt kMinIntAsFloat f then if lt f kMaxIntAsFloat then trunc f else kMax
      else if is_nan f then 0 else kMin)"

definition float_to_int :: "fp_ops \<Rightarrow> u32 \<Rightarrow> u32" where
  "float_to_int ops = float_to_integral float_lt float_nan 0xcf000000 0x4f000000 kMinInt 0x7fffffff (f_trunc_int ops)"

definition float_to_long :: "fp_ops \<Rightarrow> u32 \<Rightarrow> u64" where
  "float_to_long ops =
     float_to_integral float_lt float_nan 0xdf000000 0x5f000000 kMinLong 0x7fffffffffffffff (f_trunc_long ops)"

definition double_to_int :: "fp_ops \<Rightarrow> u64 \<Rightarrow> u32" where
  "double_to_int ops =
     float_to_integral double_lt double_nan 0xc1e0000000000000 0x41dfffffffc00000 kMinInt 0x7fffffff (d_trunc_int ops)"

definition double_to_long :: "fp_ops \<Rightarrow> u64 \<Rightarrow> u64" where
  "double_to_long ops =
     float_to_integral double_lt double_nan 0xc3e0000000000000 0x43e0000000000000 kMinLong 0x7fffffffffffffff (d_trunc_long ops)"

definition float_neg :: "u32 \<Rightarrow> u32" where "float_neg b = b XOR 0x80000000"
definition double_neg :: "u64 \<Rightarrow> u64" where "double_neg b = b XOR 0x8000000000000000"

definition unary_table :: "(u8 \<times> ('o, 's) handler) list" where
  "unary_table =
     [(NEG_INT, put SetVReg (rd VRegA_12x) (un uminus (reg GetVReg (rd VRegB_12x))) 1),
      (NOT_INT, put SetVReg (rd VRegA_12x) (un not (reg GetVReg (rd VRegB_12x))) 1),
      (NEG_LONG, put SetVRegLong (rd VRegA_12x) (un uminus (reg GetVRegLong (rd VRegB_12x))) 1),
      (NOT_LONG, put SetVRegLong (rd VRegA_12x) (un not (reg GetVRegLong (rd VRegB_12x))) 1),
      (NEG_FLOAT, put SetVRegFloat (rd VRegA_12x) (un float_neg (reg GetVRegFloat (rd VRegB_12x))) 1),
      (NEG_DOUBLE, put SetVRegDouble (rd VRegA_12x) (un double_neg (reg GetVRegDouble (rd VRegB_12x))) 1),
      (INT_TO_LONG, put SetVRegLong (rd VRegA_12x) (un scast (reg GetVReg (rd VRegB_12x))) 1),
      (INT_TO_FLOAT, put SetVRegFloat (rd VRegA_12x) (fp_un int_to_float (reg GetVReg (rd VRegB_12x))) 1),
      (INT_TO_DOUBLE, put SetVRegDouble (rd VRegA_12x) (fp_un int_to_double (reg GetVReg (rd VRegB_12x))) 1),
      (LONG_TO_INT, put SetVReg (rd VRegA_12x) (un ucast (reg GetVRegLong (rd VRegB_12x))) 1),
      (LONG_TO_FLOAT, put SetVRegFloat (rd VRegA_12x) (fp_un long_to_float (reg GetVRegLong (rd VRegB_12x))) 1),
      (LONG_TO_DOUBLE, put SetVRegDouble (rd VRegA_12x) (fp_un long_to_double (reg GetVRegLong (rd VRegB_12x))) 1),
      (FLOAT_TO_INT, put SetVReg (rd VRegA_12x) (fp_un float_to_int (reg GetVRegFloat (rd VRegB_12x))) 1),
      (FLOAT_TO_LONG, put SetVRegLong (rd VRegA_12x) (fp_un float_to_long (reg GetVRegFloat (rd VRegB_12x))) 1),
      (FLOAT_TO_DOUBLE, put SetVRegDouble (rd VRegA_12x) (fp_un float_to_double (reg GetVRegFloat (rd VRegB_12x))) 1),
      (DOUBLE_TO_INT, put SetVReg (rd VRegA_12x) (fp_un double_to_int (reg GetVRegDouble (rd VRegB_12x))) 1),
      (DOUBLE_TO_LONG, put SetVRegLong (rd VRegA_12x) (fp_un double_to_long (reg GetVRegDouble (rd VRegB_12x))) 1),
      (DOUBLE_TO_FLOAT, put SetVRegFloat (rd VRegA_12x) (fp_un double_to_float (reg GetVRegDouble (rd VRegB_12x))) 1),
      (INT_TO_BYTE, put SetVReg (rd VRegA_12x) (un (\<lambda>v. scast (ucast v :: u8)) (reg GetVReg (rd VRegB_12x))) 1),
      (INT_TO_CHAR, put SetVReg (rd VRegA_12x) (un (\<lambda>v. ucast (ucast v :: u16)) (reg GetVReg (rd VRegB_12x))) 1),
      (INT_TO_SHORT, put SetVReg (rd VRegA_12x) (un (\<lambda>v. scast (ucast v :: u16)) (reg GetVReg (rd VRegB_12x))) 1)]"

definition div_int ::
    "(ShadowFrame \<Rightarrow> nat \<Rightarrow> u32 \<Rightarrow> u32 \<Rightarrow> ShadowFrame option res) \<Rightarrow> operand \<Rightarrow> ('o, 's, u32) val \<Rightarrow> ('o, 's, u32) val \<Rightarrow> nat \<Rightarrow> ('o, 's) handler" where
  "div_int operation a b c n rt x st =
     rbind (a x) (\<lambda>r. rbind (b rt x st) (\<lambda>dividend. rbind (c rt x st) (\<lambda>divisor.
     rbind (operation (frame st) r dividend divisor) (\<lambda>res.
     case res of
       None \<Rightarrow> POSSIBLY_HANDLE_PENDING_EXCEPTION True n rt x (ThrowNew rt ArithmeticException st)
     | Some f \<Rightarrow> POSSIBLY_HANDLE_PENDING_EXCEPTION False n rt x (st\<lparr>frame := f\<rparr>)))))"

text \<open>After a long division the pending exception is asked for, not the result.\<close>

definition div_long ::
    "(ShadowFrame \<Rightarrow> nat \<Rightarrow> u64 \<Rightarrow> u64 \<Rightarrow> ShadowFrame option res) \<Rightarrow> operand \<Rightarrow> ('o, 's, u64) val \<Rightarrow> ('o, 's, u64) val \<Rightarrow> nat \<Rightarrow> ('o, 's) handler" where
  "div_long operation a b c n rt x st =
     rbind (a x) (\<lambda>r. rbind (b rt x st) (\<lambda>dividend. rbind (c rt x st) (\<lambda>divisor.
     rbind (operation (frame st) r dividend divisor) (\<lambda>res.
     let st = (case res of None \<Rightarrow> ThrowNew rt ArithmeticException st | Some f \<Rightarrow> st\<lparr>frame := f\<rparr>) in
     POSSIBLY_HANDLE_PENDING_EXCEPTION (IsExceptionPending (env st)) n rt x st))))"

definition shl :: "u32 \<Rightarrow> 'a :: len word \<Rightarrow> u32 \<Rightarrow> 'a word" where
  "shl m a b = push_bit (unat (b AND m)) a"

definition shr :: "u32 \<Rightarrow> 'a :: len word \<Rightarrow> u32 \<Rightarrow> 'a word" where
  "shr m a b = signed_drop_bit (unat (b AND m)) a"

definition ushr :: "u32 \<Rightarrow> 'a :: len word \<Rightarrow> u32 \<Rightarrow> 'a word" where
  "ushr m a b = drop_bit (unat (b AND m)) a"

definition int_table :: "(u8 \<times> ('o, 's) handler) list" where
  "int_table =
     [(ADD_INT, put SetVReg (rd VRegA_23x) (bin SafeAdd (reg GetVReg (ri VRegB_23x)) (reg GetVReg (ri VRegC_23x))) 2),
      (SUB_INT, put SetVReg (rd VRegA_23x) (bin SafeSub (reg GetVReg (ri VRegB_23x)) (reg GetVReg (ri VRegC_23x))) 2),
      (MUL_INT, put SetVReg (rd VRegA_23x) (bin SafeMul (reg GetVReg (ri VRegB_23x)) (reg GetVReg (ri VRegC_23x))) 2),
      (DIV_INT, div_int DoIntDivide (rd VRegA_23x) (reg GetVReg (ri VRegB_23x)) (reg GetVReg (ri VRegC_23x)) 2),
      (REM_INT, div_int DoIntRemainder (rd VRegA_23x) (reg GetVReg (ri VRegB_23x)) (reg GetVReg (ri VRegC_23x)) 2),
      (SHL_INT, put SetVReg (rd VRegA_23x) (bin (shl 0x1f) (reg GetVReg (ri VRegB_23x)) (reg GetVReg (ri VRegC_23x))) 2),
      (SHR_INT, put SetVReg (rd VRegA_23x) (bin (shr 0x1f) (reg GetVReg (ri VRegB_23x)) (reg GetVReg (ri VRegC_23x))) 2),
      (USHR_INT, put SetVReg (rd VRegA_23x) (bin (ushr 0x1f) (reg GetVReg (ri VRegB_23x)) (reg GetVReg (ri VRegC_23x))) 2),
      (AND_INT, put SetVReg (rd VRegA_23x) (bin (AND) (reg GetVReg (ri VRegB_23x)) (reg GetVReg (ri VRegC_23x))) 2),
      (OR_INT, put SetVReg (rd VRegA_23x) (bin (OR) (reg GetVReg (ri VRegB_23x)) (reg GetVReg (ri VRegC_23x))) 2),
      (XOR_INT, put SetVReg (rd VRegA_23x) (bin (XOR) (reg GetVReg (ri VRegB_23x)) (reg GetVReg (ri VRegC_23x))) 2)]"

definition long_table :: "(u8 \<times> ('o, 's) handler) list" where
  "long_table =
     [(ADD_LONG, put SetVRegLong (rd VRegA_23x) (bin SafeAdd (reg GetVRegLong (ri VRegB_23x)) (reg GetVRegLong (ri VRegC_23x))) 2),
      (SUB_LONG, put SetVRegLong (rd VRegA_23x) (bin SafeSub (reg GetVRegLong (ri VRegB_23x)) (reg GetVRegLong (ri VRegC_23x))) 2),
      (MUL_LONG, put SetVRegLong (rd VRegA_23x) (bin SafeMul (reg GetVRegLong (ri VRegB_23x)) (reg GetVRegLong (ri VRegC_23x))) 2),
      (DIV_LONG, div_long DoLongDivide (rd VRegA_23x) (reg GetVRegLong (ri VRegB_23x)) (reg GetVRegLong (ri VRegC_23x)) 2),
      (REM_LONG, div_long DoLongRemainder (rd VRegA_23x) (reg GetVRegLong (ri VRegB_23x)) (reg GetVRegLong (ri VRegC_23x)) 2),
      (AND_LONG, put SetVRegLong (rd VRegA_23x) (bin (AND) (reg GetVRegLong (ri VRegB_23x)) (reg GetVRegLong (ri VRegC_23x))) 2),
      (OR_LONG, put SetVRegLong (rd VRegA_23x) (bin (OR) (reg GetVRegLong (ri VRegB_23x)) (reg GetVRegLong (ri VRegC_23x))) 2),
      (XOR_LONG, put SetVRegLong (rd VRegA_23x) (bin (XOR) (reg GetVRegLong (ri VRegB_23x)) (reg GetVRegLong (ri VRegC_23x))) 2),
      (SHL_LONG, put SetVRegLong (rd VRegA_23x) (bin (shl 0x3f) (reg GetVRegLong (ri VRegB_23x)) (reg GetVReg (ri VRegC_23x))) 2),
      (SHR_LONG, put SetVRegLong (rd VRegA_23x) (bin (shr 0x3f) (reg GetVRegLong (ri VRegB_23x)) (reg GetVReg (ri VRegC_23x))) 2),
      (USHR_LONG, put SetVRegLong (rd VRegA_23x) (bin (ushr 0x3f) (reg GetVRegLong (ri VRegB_23x)) (reg GetVReg (ri VRegC_23x))) 2)]"

definition float_table :: "(u8 \<times> ('o, 's) handler) list" where
  "float_table =
     [(ADD_FLOAT, put SetVRegFloat (rd VRegA_23x) (fp_bin f_add (reg GetVRegFloat (ri VRegB_23x)) (reg GetVRegFloat (ri VRegC_23x))) 2),
      (SUB_FLOAT, put SetVRegFloat (rd VRegA_23x) (fp_bin f_sub (reg GetVRegFloat (ri VRegB_23x)) (reg GetVRegFloat (ri VRegC_23x))) 2),
      (MUL_FLOAT, put SetVRegFloat (rd VRegA_23x) (fp_bin f_mul (reg GetVRegFloat (ri VRegB_23x)) (reg GetVRegFloat (ri VRegC_23x))) 2),
      (DIV_FLOAT, put SetVRegFloat (rd VRegA_23x) (fp_bin f_div (reg GetVRegFloat (ri VRegB_23x)) (reg GetVRegFloat (ri VRegC_23x))) 2),
      (REM_FLOAT, put SetVRegFloat (rd VRegA_23x) (fp_bin fmodf (reg GetVRegFloat (ri VRegB_23x)) (reg GetVRegFloat (ri VRegC_23x))) 2)]"

definition double_table :: "(u8 \<times> ('o, 's) handler) list" where
  "double_table =
     [(ADD_DOUBLE, put SetVRegDouble (rd VRegA_23x) (fp_bin d_add (reg GetVRegDouble (ri VRegB_23x)) (reg GetVRegDouble (ri VRegC_23x))) 2),
      (SUB_DOUBLE, put SetVRegDouble (rd VRegA_23x) (fp_bin d_sub (reg GetVRegDouble (ri VRegB_23x)) (reg GetVRegDouble (ri VRegC_23x))) 2),
      (MUL_DOUBLE, put SetVRegDouble (rd VRegA_23x) (fp_bin d_mul (reg GetVRegDouble (ri VRegB_23x)) (reg GetVRegDouble (ri VRegC_23x))) 2),
      (DIV_DOUBLE, put SetVRegDouble (rd VRegA_23x) (fp_bin d_div (reg GetVRegDouble (ri VRegB_23x)) (reg GetVRegDouble (ri VRegC_23x))) 2),
      (REM_DOUBLE, put SetVRegDouble (rd VRegA_23x) (fp_bin fmod (reg GetVRegDouble (ri VRegB_23x)) (reg GetVRegDouble (ri VRegC_23x))) 2)]"

definition int_2addr_table :: "(u8 \<times> ('o, 's) handler) list" where
  "int_2addr_table =
     [(ADD_INT_2ADDR, put SetVReg (rd VRegA_12x) (bin SafeAdd (reg GetVReg (rd VRegA_12x)) (reg GetVReg (rd VRegB_12x))) 1),
      (SUB_INT_2ADDR, put SetVReg (rd VRegA_12x) (bin SafeSub (reg GetVReg (rd VRegA_12x)) (reg GetVReg (rd VRegB_12x))) 1),
      (MUL_INT_2ADDR, put SetVReg (rd VRegA_12x) (bin SafeMul (reg GetVReg (rd VRegA_12x)) (reg GetVReg (rd VRegB_12x))) 1),
      (DIV_INT_2ADDR, div_int DoIntDivide (rd VRegA_12x) (reg GetVReg (rd VRegA_12x)) (reg GetVReg (rd VRegB_12x)) 1),
      (REM_INT_2ADDR, div_int DoIntRemainder (rd VRegA_12x) (reg GetVReg (rd VRegA_12x)) (reg GetVReg (rd VRegB_12x)) 1),
      (SHL_INT_2ADDR, put SetVReg (rd VRegA_12x) (bin (shl 0x1f) (reg GetVReg (rd VRegA_12x)) (reg GetVReg (rd VRegB_12x))) 1),
      (SHR_INT_2ADDR, put SetVReg (rd VRegA_12x) (bin (shr 0x1f) (reg GetVReg (rd VRegA_12x)) (reg GetVReg (rd VRegB_12x))) 1),
      (USHR_INT_2ADDR, put SetVReg (rd VRegA_12x) (bin (ushr 0x1f) (reg GetVReg (rd VRegA_12x)) (reg GetVReg (rd VRegB_12x))) 1),
      (AND_INT_2ADDR, put SetVReg (rd VRegA_12x) (bin (AND) (reg GetVReg (rd VRegA_12x)) (reg GetVReg (rd VRegB_12x))) 1),
      (OR_INT_2ADDR, put SetVReg (rd VRegA_12x) (bin (OR) (reg GetVReg (rd VRegA_12x)) (reg GetVReg (rd VRegB_12x))) 1),
      (XOR_INT_2ADDR, put SetVReg (rd VRegA_12x) (bin (XOR) (reg GetVReg (rd VRegA_12x)) (reg GetVReg (rd VRegB_12x))) 1)]"

definition long_2addr_table :: "(u8 \<times> ('o, 's) handler) list" where
  "long_2addr_table =
     [(ADD_LONG_2ADDR, put SetVRegLong (rd VRegA_12x) (bin SafeAdd (reg GetVRegLong (rd VRegA_12x)) (reg GetVRegLong (rd VRegB_12x))) 1),
      (SUB_LONG_2ADDR, put SetVRegLong (rd VRegA_12x) (bin SafeSub (reg GetVRegLong (rd VRegA_12x)) (reg GetVRegLong (rd VRegB_12x))) 1),
      (MUL_LONG_2ADDR, put SetVRegLong (rd VRegA_12x) (bin SafeMul (reg GetVRegLong (rd VRegA_12x)) (reg GetVRegLong (rd VRegB_12x))) 1),
      (DIV_LONG_2ADDR, div_long DoLongDivide (rd VRegA_12x) (reg GetVRegLong (rd VRegA_12x)) (reg GetVRegLong (rd VRegB_12x)) 1),
      (REM_LONG_2ADDR, div_long DoLongRemainder (rd VRegA_12x) (reg GetVRegLong (rd VRegA_12x)) (reg GetVRegLong (rd VRegB_12x)) 1),
      (AND_LONG_2ADDR, put SetVRegLong (rd VRegA_12x) (bin (AND) (reg GetVRegLong (rd VRegA_12x)) (reg GetVRegLong (rd VRegB_12x))) 1),
      (OR_LONG_2ADDR, put SetVRegLong (rd VRegA_12x) (bin (OR) (reg GetVRegLong (rd VRegA_12x)) (reg GetVRegLong (rd VRegB_12x))) 1),
      (XOR_LONG_2ADDR, put SetVRegLong (rd VRegA_12x) (bin (XOR) (reg GetVRegLong (rd VRegA_12x)) (reg GetVRegLong (rd VRegB_12x))) 1),
      (SHL_LONG_2ADDR, put SetVRegLong (rd VRegA_12x) (bin (shl 0x3f) (reg GetVRegLong (rd VRegA_12x)) (reg GetVReg (rd VRegB_12x))) 1),
      (SHR_LONG_2ADDR, put SetVRegLong (rd VRegA_12x) (bin (shr 0x3f) (reg GetVRegLong (rd VRegA_12x)) (reg GetVReg (rd VRegB_12x))) 1),
      (USHR_LONG_2ADDR, put SetVRegLong (rd VRegA_12x) (bin (ushr 0x3f) (reg GetVRegLong (rd VRegA_12x)) (reg GetVReg (rd VRegB_12x))) 1)]"

definition float_2addr_table :: "(u8 \<times> ('o, 's) handler) list" where
  "float_2addr_table =
     [(ADD_FLOAT_2ADDR, put SetVRegFloat (rd VRegA_12x) (fp_bin f_add (reg GetVRegFloat (rd VRegA_12x)) (reg GetVRegFloat (rd VRegB_12x))) 1),
      (SUB_FLOAT_2ADDR, put SetVRegFloat (rd VRegA_12x) (fp_bin f_sub (reg GetVRegFloat (rd VRegA_12x)) (reg GetVRegFloat (rd VRegB_12x))) 1),
      (MUL_FLOAT_2ADDR, put SetVRegFloat (rd VRegA_12x) (fp_bin f_mul (reg GetVRegFloat (rd VRegA_12x)) (reg GetVRegFloat (rd VRegB_12x))) 1),
      (DIV_FLOAT_2ADDR, put SetVRegFloat (rd VRegA_12x) (fp_bin f_div (reg GetVRegFloat (rd VRegA_12x)) (reg GetVRegFloat (rd VRegB_12x))) 1),
      (REM_FLOAT_2ADDR, put SetVRegFloat (rd VRegA_12x) (fp_bin fmodf (reg GetVRegFloat (rd VRegA_12x)) (reg GetVRegFloat (rd VRegB_12x))) 1)]"

definition double_2addr_table :: "(u8 \<times> ('o, 's) handler) list" where
  "double_2addr_table =
     [(ADD_DOUBLE_2ADDR, put SetVRegDouble (rd VRegA_12x) (fp_bin d_add (reg GetVRegDouble (rd VRegA_12x)) (reg GetVRegDouble (rd VRegB_12x))) 1),
      (SUB_DOUBLE_2ADDR, put SetVRegDouble (rd VRegA_12x) (fp_bin d_sub (reg GetVRegDouble (rd VRegA_12x)) (reg GetVRegDouble (rd VRegB_12x))) 1),
      (MUL_DOUBLE_2ADDR, put SetVRegDouble (rd VRegA_12x) (fp_bin d_mul (reg GetVRegDouble (rd VRegA_12x)) (reg GetVRegDouble (rd VRegB_12x))) 1),
      (DIV_DOUBLE_2ADDR, put SetVRegDouble (rd VRegA_12x) (fp_bin d_div (reg GetVRegDouble (rd VRegA_12x)) (reg GetVRegDouble (rd VRegB_12x))) 1),
      (REM_DOUBLE_2ADDR, put SetVRegDouble (rd VRegA_12x) (fp_bin fmod (reg GetVRegDouble (rd VRegA_12x)) (reg GetVRegDouble (rd VRegB_12x))) 1)]"

definition lit16_table :: "(u8 \<times> ('o, 's) handler) list" where
  "lit16_table =
     [(ADD_INT_LIT16, put SetVReg (rd VRegA_22s) (bin SafeAdd (reg GetVReg (rd VRegB_22s)) (imm VRegC_22s id)) 2),
      (RSUB_INT, put SetVReg (rd VRegA_22s) (bin SafeSub (imm VRegC_22s id) (reg GetVReg (rd VRegB_22s))) 2),
      (MUL_INT_LIT16, put SetVReg (rd VRegA_22s) (bin SafeMul (reg GetVReg (rd VRegB_22s)) (imm VRegC_22s id)) 2),
      (DIV_INT_LIT16, div_int DoIntDivide (rd VRegA_22s) (reg GetVReg (rd VRegB_22s)) (imm VRegC_22s scast) 2),
      (REM_INT_LIT16, div_int DoIntRemainder (rd VRegA_22s) (reg GetVReg (rd VRegB_22s)) (imm VRegC_22s scast) 2),
      (AND_INT_LIT16, put SetVReg (rd VRegA_22s) (bin (AND) (reg GetVReg (rd VRegB_22s)) (imm VRegC_22s scast)) 2),
      (OR_INT_LIT16, put SetVReg (rd VRegA_22s) (bin (OR) (reg GetVReg (rd VRegB_22s)) (imm VRegC_22s scast)) 2),
      (XOR_INT_LIT16, put SetVReg (rd VRegA_22s) (bin (XOR) (reg GetVReg (rd VRegB_22s)) (imm VRegC_22s scast)) 2)]"

definition lit8_table :: "(u8 \<times> ('o, 's) handler) list" where
  "lit8_table =
     [(ADD_INT_LIT8, put SetVReg (rd VRegA_22b) (bin SafeAdd (reg GetVReg (ri VRegB_22b)) (imm VRegC_22b id)) 2),
      (RSUB_INT_LIT8, put SetVReg (rd VRegA_22b) (bin SafeSub (imm VRegC_22b id) (reg GetVReg (ri VRegB_22b))) 2),
      (MUL_INT_LIT8, put SetVReg (rd VRegA_22b) (bin SafeMul (reg GetVReg (ri VRegB_22b)) (imm VRegC_22b id)) 2),
      (DIV_INT_LIT8, div_int DoIntDivide (rd VRegA_22b) (reg GetVReg (ri VRegB_22b)) (imm VRegC_22b scast) 2),
      (REM_INT_LIT8, div_int DoIntRemainder (rd VRegA_22b) (reg GetVReg (ri VRegB_22b)) (imm VRegC_22b scast) 2),
      (AND_INT_LIT8, put SetVReg (rd VRegA_22b) (bin (AND) (reg GetVReg (ri VRegB_22b)) (imm VRegC_22b scast)) 2),
      (OR_INT_LIT8, put SetVReg (rd VRegA_22b) (bin (OR) (reg GetVReg (ri VRegB_22b)) (imm VRegC_22b scast)) 2),
      (XOR_INT_LIT8, put SetVReg (rd VRegA_22b) (bin (XOR) (reg GetVReg (ri VRegB_22b)) (imm VRegC_22b scast)) 2),
      (SHL_INT_LIT8, put SetVReg (rd VRegA_22b) (bin (shl 0x1f) (reg GetVReg (ri VRegB_22b)) (imm VRegC_22b scast)) 2),
      (SHR_INT_LIT8, put SetVReg (rd VRegA_22b) (bin (shr 0x1f) (reg GetVReg (ri VRegB_22b)) (imm VRegC_22b scast)) 2),
      (USHR_INT_LIT8, put SetVReg (rd VRegA_22b) (bin (ushr 0x1f) (reg GetVReg (ri VRegB_22b)) (imm VRegC_22b scast)) 2)]"

section \<open>The switch and the loop\<close>

definition handlers :: "(u8 \<times> ('o, 's) handler) list" where
  "handlers = move_table @ return_table @ const_table @ object_table @ branch_table @ if_table @ aget_table @
     aput_table @ get_table @ put_table @ invoke_table @ unary_table @ int_table @ long_table @ float_table @
     double_table @ int_2addr_table @ long_2addr_table @ float_2addr_table @ double_2addr_table @ lit16_table @ lit8_table"

text \<open>UnexpectedOpcode ends the process; it is reached without the preamble.\<close>

definition execute_insn :: "bool \<Rightarrow> CodeItem \<Rightarrow> u32 \<Rightarrow> ('o, 's) runtime \<Rightarrow> ('o, 's) istate \<Rightarrow> (flow \<times> ('o, 's) istate) res" where
  "execute_insn mini_trace code_item pc rt st =
     (let st = st\<lparr>frame := SetDexPC pc (frame st)\<rparr> in
      rbind (Fetch16 0 (code_at (insns code_item) (uint pc))) (\<lambda>d.
      let x = \<lparr>code = code_item, dex_pc = pc, inst_data = d\<rparr> in
      case map_of handlers (OpcodeOf d) of
        None \<Rightarrow> Inl FatalLog
      | Some handler \<Rightarrow> rbind (PREAMBLE mini_trace rt x st) (handler rt x)))"

fun interpret_loop ::
    "nat \<Rightarrow> bool \<Rightarrow> CodeItem \<Rightarrow> u32 \<Rightarrow> ('o, 's) runtime \<Rightarrow> ('o, 's) istate \<Rightarrow> (u64 \<times> ('o, 's) istate) res option" where
  "interpret_loop 0 mini_trace code_item pc rt st = None"
| "interpret_loop (Suc fuel) mini_trace code_item pc rt st =
     (case execute_insn mini_trace code_item pc rt st of
        Inl e \<Rightarrow> Some (Inl e)
      | Inr (Return v, st) \<Rightarrow> Some (Inr (v, st))
      | Inr (Go pc, st) \<Rightarrow> interpret_loop fuel mini_trace code_item pc rt st)"

text \<open>The interpreter; a frame of the model always has its references.\<close>

definition ExecuteSwitchImpl ::
    "nat \<Rightarrow> CodeItem \<Rightarrow> ('o, 's) runtime \<Rightarrow> ('o, 's) istate \<Rightarrow> (u64 \<times> ('o, 's) istate) res option" where
  "ExecuteSwitchImpl fuel code_item rt st =
     (let pc = sf_dex_pc (frame st) in
      case rbind (if pc = 0 then post_enter rt code_item st else Inr st) (\<lambda>st.
           rmap (\<lambda>m. (st, method_IsMiniTraceable m)) (frame_method (env st) (frame st))) of
        Inl e \<Rightarrow> Some (Inl e)
      | Inr (st, mini_trace) \<Rightarrow> interpret_loop fuel mini_trace code_item pc rt st)"

end
