(* ===== verification/Interpreter_Frames.thy ===== *)
theory Interpreter_Frames
  imports Interpreter_Switch
begin

text \<open>
  What the interpreter keeps of a frame: no instruction changes the method, the number of
  registers or the size of the block, and every reference stays null or equal to its register.
  One lemma per operation and per kind of handler, collected for the tables of the switch.
\<close>

section \<open>Kept frames\<close>

definition keeps :: "ShadowFrame \<Rightarrow> ShadowFrame \<Rightarrow> bool" where
  "keeps f g \<longleftrightarrow> same_shape f g \<and> (frame_ok f \<longrightarrow> frame_ok g)"

lemma keeps_refl [simp]: "keeps f f"
  by (simp add: keeps_def)

lemma keeps_trans: "keeps f g \<Longrightarrow> keeps g h \<Longrightarrow> keeps f h"
  by (auto simp: keeps_def intro: same_shape_trans)

definition setter_keeps :: "(nat \<Rightarrow> 'v \<Rightarrow> ShadowFrame \<Rightarrow> ShadowFrame res) \<Rightarrow> bool" where
  "setter_keeps setter \<longleftrightarrow> (\<forall>i v f f'. setter i v f = Inr f' \<longrightarrow> keeps f f')"

lemma setters_keep:
  "setter_keeps SetVReg" "setter_keeps SetVRegFloat" "setter_keeps SetVRegLong" "setter_keeps SetVRegDouble"
  "setter_keeps SetVRegReference"
  by (auto simp: setter_keeps_def keeps_def access_defs frame_defs rbind_eq_Inr store_slot_eq nth_list_update)

lemmas set_keeps = setters_keep [unfolded setter_keeps_def, rule_format]

lemma setter_keepsD: "setter_keeps setter \<Longrightarrow> setter i v f = Inr f' \<Longrightarrow> keeps f f'"
  by (auto simp: setter_keeps_def)

lemma rfold_keeps:
  assumes "\<And>x f f'. g x f = Inr f' \<Longrightarrow> keeps f f'"
  shows "rfold g xs f = Inr f' \<Longrightarrow> keeps f f'"
  by (induction xs arbitrary: f) (auto elim!: rbindE dest: assms intro: keeps_trans)

section \<open>Operations\<close>

lemma set_listener_state_frame [simp]: "frame (set_listener_state st s) = frame st"
  by (simp add: set_listener_state_def)

lemma post_frame:
  "post_enter rt c st = Inr st' \<Longrightarrow> frame st' = frame st"
  "post_exit rt c pc v st = Inr st' \<Longrightarrow> frame st' = frame st"
  "post_dex_pc rt c pc st = Inr st' \<Longrightarrow> frame st' = frame st"
  "post_field_read rt this fld st = Inr st' \<Longrightarrow> frame st' = frame st"
  "post_field_write rt this fld v st = Inr st' \<Longrightarrow> frame st' = frame st"
  by (auto simp: post_enter_def post_exit_def post_dex_pc_def post_field_read_def post_field_write_def
      rbind_eq_Inr split: if_splits)

lemma state_frames [simp]:
  "frame (suspend_point rt st) = frame st" "frame (ThrowNew rt e st) = frame st" "frame (set_cell obj off v st) = frame st"
  by (simp_all add: suspend_point_def ThrowNew_def set_cell_def)

lemma FindNext_frame: "FindNextInstructionFollowingException rt pc st = Inr (pc', st') \<Longrightarrow> frame st' = frame st"
  by (auto simp: FindNextInstructionFollowingException_def Let_def elim!: rbindE split: if_split_asm prod.split_asm)

lemma set_by_type_keeps: "set_by_type t i v f = Inr f' \<Longrightarrow> keeps f f'"
  by (auto simp: set_by_type_def split: Primitive.split_asm intro: set_keeps)

definition op_keeps :: "(('o, 's) runtime \<Rightarrow> insn \<Rightarrow> u16 \<Rightarrow> ('o, 's) istate \<Rightarrow> (bool \<times> ('o, 's) istate) res) \<Rightarrow> bool" where
  "op_keeps operation \<longleftrightarrow> (\<forall>rt i d st b st'. operation rt i d st = Inr (b, st') \<longrightarrow> keeps (frame st) (frame st'))"

lemma op_keepsI: "(\<And>rt i d st b st'. operation rt i d st = Inr (b, st') \<Longrightarrow> keeps (frame st) (frame st')) \<Longrightarrow> op_keeps operation"
  by (auto simp: op_keeps_def)

lemma field_get_keeps: "op_keeps (\<lambda>rt. DoFieldGet rt k t)" "op_keeps (\<lambda>rt. DoIGetQuick rt t)"
  by (rule op_keepsI, auto simp: DoFieldGet_def DoIGetQuick_def Let_def elim!: rbindE split: if_split_asm prod.split_asm
      dest!: post_frame set_by_type_keeps)+

lemma field_put_keeps: "op_keeps (\<lambda>rt. DoFieldPut rt k t)" "op_keeps (\<lambda>rt. DoIPutQuick rt t)"
  by (rule op_keepsI, auto simp: DoFieldPut_def DoIPutQuick_def Let_def elim!: rbindE split: if_split_asm prod.split_asm
      dest!: post_frame)+

lemma set_all_keeps: "rfold (\<lambda>r. SetVRegReference r v) rs f = Inr f' \<Longrightarrow> keeps f f'"
  by (rule rfold_keeps) (auto intro: set_keeps)

lemma set_string_result_keeps: "set_string_result rt r i st = Inr st' \<Longrightarrow> keeps (frame st) (frame st')"
  by (auto simp: set_string_result_def elim!: rbindE split: if_split_asm 
      dest!: set_keeps(5) set_all_keeps intro: keeps_trans)

lemma DoCall_keeps: "DoCall rt r chk m i d st = Inr (b, st') \<Longrightarrow> keeps (frame st) (frame st')"
  by (auto simp: DoCall_def Let_def elim!: rbindE split: if_split_asm option.split_asm prod.split_asm dest!: set_string_result_keeps)

lemma invoke_keeps: "op_keeps (\<lambda>rt. DoInvoke rt k r)" "op_keeps (\<lambda>rt. DoInvokeVirtualQuick rt r)"
  by (rule op_keepsI, auto simp: DoInvoke_def DoInvokeVirtualQuick_def Let_def elim!: rbindE
      split: if_split_asm prod.split_asm dest!: DoCall_keeps)+

lemma filled_array_keeps: "op_keeps (\<lambda>rt. DoFilledNewArray rt r)"
  by (rule op_keepsI) (auto simp: DoFilledNewArray_def Let_def elim!: rbindE split: if_split_asm prod.split_asm)

section \<open>Handlers\<close>

definition frame_kept :: "('o, 's) handler \<Rightarrow> bool" where
  "frame_kept h \<longleftrightarrow> (\<forall>rt x st fl st'. h rt x st = Inr (fl, st') \<longrightarrow> keeps (frame st) (frame st'))"

lemma frame_keptI: "(\<And>rt x st fl st'. h rt x st = Inr (fl, st') \<Longrightarrow> keeps (frame st) (frame st')) \<Longrightarrow> frame_kept h"
  by (auto simp: frame_kept_def)

lemma next_insn_frame: "next_insn n x st = (fl, st') \<Longrightarrow> st' = st"
  by (simp add: next_insn_def)

lemma exception_frame:
  "HANDLE_PENDING_EXCEPTION rt x st = Inr (fl, st') \<Longrightarrow> frame st' = frame st"
  "throw e rt x st = Inr (fl, st') \<Longrightarrow> frame st' = frame st"
  "POSSIBLY_HANDLE_PENDING_EXCEPTION b n rt x st = Inr (fl, st') \<Longrightarrow> frame st' = frame st"
  by (auto simp: HANDLE_PENDING_EXCEPTION_def throw_def POSSIBLY_HANDLE_PENDING_EXCEPTION_def elim!: rbindE
      split: if_split_asm dest!: FindNext_frame next_insn_frame)

lemmas frame_rules = next_insn_frame exception_frame post_frame set_keeps

lemma nop_kept: "frame_kept nop"
  by (rule frame_keptI) (auto simp: nop_def dest!: frame_rules)

lemma put_kept: "setter_keeps setter \<Longrightarrow> frame_kept (put setter a val n)"
  by (rule frame_keptI) (auto simp: put_def elim!: rbindE dest!: frame_rules intro: setter_keepsD)

lemma move_exception_kept: "frame_kept move_exception"
  by (rule frame_keptI) (auto simp: move_exception_def elim!: rbindE dest!: frame_rules)

lemma return_kept: "frame_kept (do_return val)" "frame_kept return_object"
  by (rule frame_keptI, auto simp: do_return_def return_object_def check_return_type_def Let_def elim!: rbindE
      split: if_split_asm flow.split_asm prod.split_asm dest!: frame_rules)+

lemma put_const_kept: "frame_kept (put_const a val n)"
  by (rule frame_keptI) (auto simp: put_const_def elim!: rbindE split: if_split_asm dest!: frame_rules intro: keeps_trans)

lemma put_ref_kept: "frame_kept (put_ref a provide n)"
  by (rule frame_keptI) (auto simp: put_ref_def Let_def elim!: rbindE split: if_split_asm dest!: frame_rules)

lemma object_kept: "frame_kept (monitor f)" "frame_kept check_cast" "frame_kept instance_of" "frame_kept array_length"
  "frame_kept fill_array_data" "frame_kept do_throw"
  by (rule frame_keptI, auto simp: monitor_def check_cast_def instance_of_def array_length_def fill_array_data_def do_throw_def
      Let_def elim!: rbindE split: if_split_asm dest!: frame_rules)+

lemma branch_frame: "branch off rt x st = Inr (fl, st') \<Longrightarrow> frame st' = frame st"
  by (auto simp: branch_def RelativeAt_def)

lemma goto_kept: "frame_kept (goto off)" "frame_kept (if_test test)" "frame_kept (if_testz testz)"
  by (rule frame_keptI, auto simp: goto_def if_test_def if_testz_def elim!: rbindE split: if_split_asm
      dest!: branch_frame frame_rules)+

lemma aget_kept: "setter_keeps setter \<Longrightarrow> frame_kept (aget setter element)"
  by (rule frame_keptI) (auto simp: aget_def elim!: rbindE split: if_split_asm dest!: frame_rules, blast dest: setter_keepsD)

lemma aput_kept: "frame_kept (aput val)" "frame_kept aput_object"
  by (rule frame_keptI, auto simp: aput_def aput_object_def elim!: rbindE split: if_split_asm prod.split_asm dest!: frame_rules)+

lemma attempt_kept: "op_keeps operation \<Longrightarrow> frame_kept (attempt operation n)"
  by (rule frame_keptI) (auto simp: attempt_def op_keeps_def elim!: rbindE dest!: frame_rules)

definition div_keeps :: "(ShadowFrame \<Rightarrow> nat \<Rightarrow> 'a \<Rightarrow> 'a \<Rightarrow> ShadowFrame option res) \<Rightarrow> bool" where
  "div_keeps operation \<longleftrightarrow> (\<forall>f r a b f'. operation f r a b = Inr (Some f') \<longrightarrow> keeps f f')"

lemma divisions_keep: "div_keeps DoIntDivide" "div_keeps DoIntRemainder" "div_keeps DoLongDivide" "div_keeps DoLongRemainder"
  by (auto simp: div_keeps_def DoIntDivide_def DoIntRemainder_def DoLongDivide_def DoLongRemainder_def elim!: rbindE
      split: if_split_asm dest: set_keeps)

lemma div_kept: "div_keeps operation \<Longrightarrow> frame_kept (div_int operation a b c n)"
    "div_keeps operation' \<Longrightarrow> frame_kept (div_long operation' a b' c' n)"
  by (rule frame_keptI, auto simp: div_int_def div_long_def Let_def div_keeps_def elim!: rbindE split: option.split_asm
      dest!: frame_rules)+

lemmas handler_kept = nop_kept put_kept [OF setters_keep(1)] put_kept [OF setters_keep(2)] put_kept [OF setters_keep(3)]
  put_kept [OF setters_keep(4)] put_kept [OF setters_keep(5)] move_exception_kept return_kept put_const_kept put_ref_kept
  object_kept goto_kept aget_kept [OF setters_keep(1)] aget_kept [OF setters_keep(3)] aget_kept [OF setters_keep(5)] aput_kept
  attempt_kept [OF field_get_keeps(1)] attempt_kept [OF field_get_keeps(2)] attempt_kept [OF field_put_keeps(1)]
  attempt_kept [OF field_put_keeps(2)] attempt_kept [OF invoke_keeps(1)] attempt_kept [OF invoke_keeps(2)]
  attempt_kept [OF filled_array_keeps] div_kept(1) [OF divisions_keep(1)] div_kept(1) [OF divisions_keep(2)]
  div_kept(2) [OF divisions_keep(3)] div_kept(2) [OF divisions_keep(4)]

lemmas attempt_defs = field_get_def field_put_def iget_quick_def iput_quick_def invoke_def invoke_quick_def

lemmas table_defs = move_table_def return_table_def const_table_def object_table_def branch_table_def if_table_def
  aget_table_def aput_table_def get_table_def put_table_def invoke_table_def unary_table_def int_table_def long_table_def
  float_table_def double_table_def int_2addr_table_def long_2addr_table_def float_2addr_table_def double_2addr_table_def
  lit16_table_def lit8_table_def

lemma handlers_kept: "list_all (frame_kept \<circ> snd) handlers"
  by (simp add: handlers_def table_defs attempt_defs handler_kept)

lemma handler_keeps: "map_of handlers opcode = Some handler \<Longrightarrow> frame_kept handler"
  using handlers_kept by (fastforce dest: map_of_SomeD simp: list_all_iff)

section \<open>Runs\<close>

lemma PREAMBLE_frame: "PREAMBLE mini_trace rt x st = Inr st' \<Longrightarrow> frame st' = frame st"
  by (auto simp: PREAMBLE_def elim!: rbindE split: if_split_asm dest!: post_frame)

lemma execute_insn_keeps:
  assumes "execute_insn mini_trace c pc rt st = Inr (fl, st')"
  shows "keeps (SetDexPC pc (frame st)) (frame st')"
proof -
  obtain d handler st1 where "map_of handlers (OpcodeOf d) = Some handler"
      "PREAMBLE mini_trace rt \<lparr>code = c, dex_pc = pc, inst_data = d\<rparr> (st\<lparr>frame := SetDexPC pc (frame st)\<rparr>) = Inr st1"
      "handler rt \<lparr>code = c, dex_pc = pc, inst_data = d\<rparr> st1 = Inr (fl, st')"
    using assms by (auto simp: execute_insn_def Let_def elim!: rbindE split: option.split_asm)
  then show ?thesis by (metis handler_keeps PREAMBLE_frame frame_kept_def istate.select_convs(1) istate.surjective istate.update_convs(1))
qed

text \<open>The frame apart from its program counter and its contents.\<close>

definition frame_like :: "ShadowFrame \<Rightarrow> ShadowFrame \<Rightarrow> bool" where
  "frame_like f g \<longleftrightarrow> number_of_vregs g = number_of_vregs f \<and> sf_method g = sf_method f \<and>
     length (slots g) = length (slots f) \<and> (frame_ok f \<longrightarrow> frame_ok g)"

lemma frame_like_trans: "frame_like f g \<Longrightarrow> frame_like g h \<Longrightarrow> frame_like f h"
  by (simp add: frame_like_def)

lemma keeps_frame_like: "keeps (SetDexPC pc f) g \<Longrightarrow> frame_like f g"
  by (auto simp: keeps_def frame_like_def frame_defs SetDexPC_def)

lemma interpret_loop_like:
  "interpret_loop fuel mini_trace c pc rt st = Some (Inr (v, st')) \<Longrightarrow> frame_like (frame st) (frame st')"
  by (induction fuel arbitrary: pc st)
    (auto split: sum.split_asm flow.split_asm dest!: execute_insn_keeps keeps_frame_like,
      blast intro: frame_like_trans)

text \<open>More fuel does not change the result.\<close>

lemma interpret_loop_mono:
  "interpret_loop fuel mini_trace c pc rt st = Some r \<Longrightarrow> fuel \<le> fuel' \<Longrightarrow> interpret_loop fuel' mini_trace c pc rt st = Some r"
proof (induction fuel arbitrary: fuel' pc st)
  case 0
  then show ?case by simp
next
  case (Suc fuel)
  then obtain k where "fuel' = Suc k" "fuel \<le> k" by (cases fuel') auto
  with Suc show ?case by (auto split: sum.splits flow.splits)
qed

text \<open>C40: a frame stays well formed. Whatever code a method has, whatever its services answer and
  whatever exceptions are thrown on the way, a run of the interpreter that returns leaves the frame
  with its method, its number of registers and its block of two slots per register, and every
  reference slot, which is all the collector sees, still is null or equal to its register.\<close>

theorem frame_invariant:
  assumes "ExecuteSwitchImpl fuel c rt st = Some (Inr (v, st'))" "frame_ok (frame st)"
  shows "frame_ok (frame st') \<and> sf_method (frame st') = sf_method (frame st) \<and>
     number_of_vregs (frame st') = number_of_vregs (frame st)"
proof -
  from assms(1) obtain st1 mini_trace pc where "frame st1 = frame st" "interpret_loop fuel mini_trace c pc rt st1 = Some (Inr (v, st'))"
    by (auto simp: ExecuteSwitchImpl_def Let_def rbind_eq_Inr split: sum.split_asm if_split_asm dest!: post_frame)
  then show ?thesis using interpret_loop_like assms(2) by (fastforce simp: frame_like_def)
qed

text \<open>A runtime whose services find nothing and change nothing, with no listener, and a method at 64
  with the code \<open>const/4 v0, #0; if-eqz v0, +3; nop; return-void\<close>.\<close>

definition idle_fp :: fp_ops where
  "idle_fp = \<lparr>f_add = \<lambda>a b. 0, f_sub = \<lambda>a b. 0, f_mul = \<lambda>a b. 0, f_div = \<lambda>a b. 0, fmodf = \<lambda>a b. 0,
     d_add = \<lambda>a b. 0, d_sub = \<lambda>a b. 0, d_mul = \<lambda>a b. 0, d_div = \<lambda>a b. 0, fmod = \<lambda>a b. 0,
     int_to_float = \<lambda>a. 0, int_to_double = \<lambda>a. 0, long_to_float = \<lambda>a. 0, long_to_double = \<lambda>a. 0,
     float_to_double = \<lambda>a. 0, double_to_float = \<lambda>a. 0, f_trunc_int = \<lambda>a. 0, f_trunc_long = \<lambda>a. 0,
     d_trunc_int = \<lambda>a. 0, d_trunc_long = \<lambda>a. 0\<rparr>"

definition idle_runtime :: "CodeItem \<Rightarrow> (unit, unit) runtime" where
  "idle_runtime c = \<lparr>self_tid = 1, do_access_check = False, fp = idle_fp, code_of = [64 \<mapsto> c],
     method_enter_cb = \<lambda>_ _ _ _ _ s. Inr s, method_exit_cb = \<lambda>_ _ _ _ _ _ s. Inr s, method_unwind_cb = \<lambda>_ _ _ _ _ s. Inr s,
     dex_pc_cb = \<lambda>_ _ _ _ _ s. Inr s, field_read_cb = \<lambda>_ _ _ _ _ _ s. Inr s, field_write_cb = \<lambda>_ _ _ _ _ _ _ s. Inr s,
     exception_cb = \<lambda>_ _ _. Inr, AllowThreadSuspension = id, throw_new = \<lambda>_ w. w\<lparr>exception := 128\<rparr>,
     GetClass = \<lambda>_ _. 0, InstanceOf = \<lambda>_ _ _. False, IsAssignableFrom = \<lambda>_ _ _. False, IsThrowableClass = \<lambda>_ _. False,
     IsStringClass = \<lambda>_ _. False, IsThrownByCurrentMethod = \<lambda>_ _. False, GetClassFromTypeIndex = \<lambda>_ _ w. (0, w),
     GetReturnType = \<lambda>_ w. (0, w), ParameterType = \<lambda>_ _. 0, ResolveString = \<lambda>_ _ w. Inr (0, w),
     ResolveVerifyAndClinit = \<lambda>_ _ w. Inr (0, w), AllocString = \<lambda>w. (0, w), AllocObjectFromCode = \<lambda>_ _ w. (0, w),
     AllocArrayFromCode = \<lambda>_ _ _ w. (0, w), AllocArray = \<lambda>_ _ w. (0, w), FillArrayData = \<lambda>_ _ w. Inr (False, w),
     CheckAssignable = \<lambda>_ _ w. (False, w), MonitorEnter = \<lambda>_. Inr, MonitorExit = \<lambda>_. Inr,
     FindFieldFromCode = \<lambda>_ _ _ _ w. Inr (0, w), FieldOffset = \<lambda>_. 0, FieldType = \<lambda>_ w. (0, w),
     FindInstanceFieldWithOffset = \<lambda>_ _ _. 0, FindMethodFromCode = \<lambda>_ _ _ _ w. Inr (0, w),
     GetEmbeddedVTableEntry = \<lambda>_ _ _. Inr 0, StringFactory = \<lambda>_. 0, string_init_registers = \<lambda>_ _. [],
     entry = \<lambda>_ w r. Inr (r, w)\<rparr>"

definition branch_code :: CodeItem where
  "branch_code = \<lparr>registers_size = 1, ins_size = 0, outs_size = 0, insns = [0x0012, 0x0038, 0x0003, 0x0000, 0x000e], try_items = [], handler_data = []\<rparr>"

definition idle_heap :: art_heap where
  "idle_heap = sample_heap\<lparr>methods := [64 \<mapsto> sample_method\<lparr>m_access_flags := 1\<rparr>]\<rparr>"

definition idle_state :: "CodeItem \<Rightarrow> (unit, unit) istate" where
  "idle_state c = \<lparr>frame = Create (unat (registers_size c)) 64 0, result_register = 0,
     env = \<lparr>exception = 0, arrays = Map.empty, cells = \<lambda>_ _. 0, art = idle_heap, dex_files = Map.empty,
       instr = new_Instrumentation, listener_state = (), others = ()\<rparr>\<rparr>"


lemma idle_suspension: "AllowThreadSuspension (idle_runtime c) w = w"
  by (simp add: idle_runtime_def)

lemma idle_method: "deref (methods idle_heap) 64 = Inr (sample_method\<lparr>m_access_flags := 1\<rparr>)"
    "\<not> method_IsMiniTraceable (sample_method\<lparr>m_access_flags := 1\<rparr>)"
  by (simp_all add: idle_heap_def deref_def method_IsMiniTraceable_def has_flag_def kAccIsMiniTraceable_def)

lemma branch_code_units:
  "Fetch16 0 (code_at (insns branch_code) 0) = Inr 0x0012" "OpcodeOf 0x0012 = 0x12"
  "Fetch16 0 (code_at (insns branch_code) 1) = Inr 0x0038" "OpcodeOf 0x0038 = 0x38"
  "Fetch16 0 (code_at (insns branch_code) 4) = Inr 0x000e" "OpcodeOf 0x000e = 0x0e"
  "VRegA_11n 0x0012 = 0" "VRegB_11n 0x0012 = 0" "VRegA_21t 0x0038 = 0"
  "VRegB_21t (code_at (insns branch_code) 1) = Inr 3" "unat (registers_size branch_code) = 1"
  by code_simp+

lemma some_handlers:
  "map_of handlers 0x12 = Some (put_const (rd VRegA_11n) (imm_d (\<lambda>d. scast (VRegB_11n d))) 1)"
  "map_of handlers 0x38 = Some (if_testz (\<lambda>a. a = 0))"
  "map_of handlers 0x0e = Some (do_return (imm_d (\<lambda>_. 0)))"
  by (simp_all add: handlers_def table_defs)

lemmas branch_code_simps = branch_code_units some_handlers execute_insn_def PREAMBLE_def post_dex_pc_def post_exit_def
  new_Instrumentation_def suspend_point_def put_const_def rd_def imm_d_def next_insn_def if_testz_def do_return_def branch_def
  RelativeAt_def inst_def access_defs load_slot_def store_slot_def ref_slot_def Create_def SetDexPC_def idle_state_def
  idle_suspension Let_def

lemma branch_code_runs:
  "\<exists>st'. ExecuteSwitchImpl 3 branch_code (idle_runtime branch_code) (idle_state branch_code) = Some (Inr (0, st'))"
  by (simp add: ExecuteSwitchImpl_def numeral_3_eq_3 frame_method_def idle_method post_enter_def branch_code_simps
      del: One_nat_def)

theorem frame_invariant_witness:
  "\<exists>st'. ExecuteSwitchImpl 3 branch_code (idle_runtime branch_code) (idle_state branch_code) = Some (Inr (0, st')) \<and>
     frame_ok (frame st') \<and> sf_method (frame st') = 64 \<and> number_of_vregs (frame st') = 1"
proof -
  obtain st' where run: "ExecuteSwitchImpl 3 branch_code (idle_runtime branch_code) (idle_state branch_code) = Some (Inr (0, st'))"
    using branch_code_runs by blast
  have "frame (idle_state branch_code) = Create 1 64 0" by (simp add: idle_state_def branch_code_units)
  with frame_invariant [OF run] run show ?thesis by (auto simp: Create_ok) (simp_all add: Create_def)
qed

end
