(* ===== verification/Interpreter_Flow.thy ===== *)
theory Interpreter_Flow
  imports Interpreter_Frames
begin

text \<open>
  Control flow of the interpreter. The handlers of the switch are compared with what the opcode
  table says about an instruction (runtime/dex\_instruction\_list.h): its size, whether control can
  fall through, whether it is a branch, a switch or a return, and whether it can throw.
\<close>

section \<open>The opcode table as rewrite rules\<close>

definition op_row :: "int \<Rightarrow> Format \<times> u32 \<times> u32" where
  "op_row i = (let opcode = word_of_int i in (kInstructionFormats opcode, kInstructionFlags opcode, kInstructionVerifyFlags opcode))"

lemma op_list: "map op_row [0..255] = map snd DEX_INSTRUCTION_LIST"
proof (rule nth_equalityI)
  show "length (map op_row [0..255]) = length (map snd DEX_INSTRUCTION_LIST)" by (simp add: length_list)
  fix i assume "i < length (map op_row [0..255])"
  then have i: "i < 256" "unat (of_nat i :: u8) = i" "[0..255] ! i = int i"
    by (simp_all add: unsigned_of_nat take_bit_nat_eq_self nth_upto)
  then show "map op_row [0..255] ! i = map snd DEX_INSTRUCTION_LIST ! i"
    by (simp add: op_row_def kInstructionFormats_def kInstructionFlags_def kInstructionVerifyFlags_def length_list Let_def split: prod.split)
qed

lemmas op_facts = op_list [unfolded DEX_INSTRUCTION_LIST_def DEX_INSTRUCTION_LIST_low_def DEX_INSTRUCTION_LIST_high_def,
  simplified upto_rec1, unfolded op_row_def Let_def, simplified]

definition insn_size :: "u8 \<Rightarrow> nat" where
  "insn_size opcode = (if opcode = NOP then 1 else nat (kInstructionSizeInCodeUnits opcode))"

lemmas flag_defs = CanFlowThrough_def FlagsOf_def IsBranch_def IsSwitch_def IsThrow_def IsReturn_def
lemmas size_defs = insn_size_def kInstructionSizeInCodeUnits_def less_eq_Format_def format_rank_def

section \<open>Where control may go\<close>

text \<open>An answer of the search through the catch handlers of a method.\<close>

definition find_next :: "('o, 's) runtime \<Rightarrow> ptr \<Rightarrow> u32 \<Rightarrow> u32 \<Rightarrow> bool" where
  "find_next rt mp a pc \<longleftrightarrow> (\<exists>c e w w'. code_of rt mp = Some c \<and>
     rbind (new_CatchHandlerIterator c a) (\<lambda>it. find_catch (catch_resolve rt mp) (IsAssignableFrom rt) e it w) = Inr (pc, w'))"

definition switch_offset :: "insn_ctx \<Rightarrow> u32 \<Rightarrow> bool" where
  "switch_offset x off \<longleftrightarrow> (\<exists>f. (if OpcodeOf (inst_data x) = PACKED_SWITCH
     then DoPackedSwitch (insns (code x)) (dex_pc x) f (inst_data x)
     else DoSparseSwitch (insns (code x)) (dex_pc x) f (inst_data x)) = Inr off)"

fun legal_flow :: "('o, 's) runtime \<Rightarrow> ptr \<Rightarrow> insn_ctx \<Rightarrow> flow \<Rightarrow> bool" where
  "legal_flow rt mp x (Go pc) \<longleftrightarrow> (let opcode = OpcodeOf (inst_data x) in
     CanFlowThrough opcode \<and> pc = dex_pc x + of_nat (insn_size opcode) \<or>
     IsBranch opcode \<and> (\<exists>off. GetTargetOffset (inst x) = Inr off \<and> pc = dex_pc x + off) \<or>
     IsSwitch opcode \<and> (\<exists>off. switch_offset x off \<and> pc = dex_pc x + off) \<or>
     IsThrow opcode \<and> pc \<noteq> kDexNoIndex \<and> find_next rt mp (dex_pc x) pc)"
| "legal_flow rt mp x (Return v) \<longleftrightarrow> (let opcode = OpcodeOf (inst_data x) in
     IsReturn opcode \<or> IsThrow opcode \<and> v = 0 \<and> find_next rt mp (dex_pc x) kDexNoIndex)"

definition flow_ok :: "u8 \<Rightarrow> ('o, 's) handler \<Rightarrow> bool" where
  "flow_ok opcode h \<longleftrightarrow> (\<forall>rt x st fl st'. OpcodeOf (inst_data x) = opcode \<and> Fetch16 0 (inst x) = Inr (inst_data x) \<and>
     h rt x st = Inr (fl, st') \<longrightarrow> legal_flow rt (sf_method (frame st)) x fl)"

lemma flow_okI:
  assumes "\<And>rt x st fl st'. OpcodeOf (inst_data x) = opcode \<Longrightarrow> Fetch16 0 (inst x) = Inr (inst_data x) \<Longrightarrow>
     h rt x st = Inr (fl, st') \<Longrightarrow> legal_flow rt (sf_method (frame st)) x fl"
  shows "flow_ok opcode h"
  using assms by (auto simp: flow_ok_def)

lemma FindNext_find:
  "FindNextInstructionFollowingException rt a st = Inr (pc, st') \<Longrightarrow> find_next rt (sf_method (frame st)) a pc"
  by (auto simp: FindNextInstructionFollowingException_def FindCatchBlock_def find_next_def deref_def Let_def elim!: rbindE
      split: if_split_asm prod.split_asm option.split_asm) blast+

lemma next_insn_flow: "next_insn n x st = (fl, st') \<Longrightarrow> CanFlowThrough (OpcodeOf (inst_data x)) \<Longrightarrow> insn_size (OpcodeOf (inst_data x)) = n \<Longrightarrow> legal_flow rt mp x fl"
  by (auto simp: next_insn_def Let_def)

lemma HANDLE_flow:
  "HANDLE_PENDING_EXCEPTION rt x st = Inr (fl, st') \<Longrightarrow> IsThrow (OpcodeOf (inst_data x)) \<Longrightarrow> sf_method (frame st) = mp \<Longrightarrow> legal_flow rt mp x fl"
  by (auto simp: HANDLE_PENDING_EXCEPTION_def Let_def elim!: rbindE split: if_splits dest!: FindNext_find)

lemma throw_flow:
  "throw e rt x st = Inr (fl, st') \<Longrightarrow> IsThrow (OpcodeOf (inst_data x)) \<Longrightarrow> sf_method (frame st) = mp \<Longrightarrow> legal_flow rt mp x fl"
  by (auto simp: throw_def intro: HANDLE_flow)

lemma POSSIBLY_flow:
  "POSSIBLY_HANDLE_PENDING_EXCEPTION b n rt x st = Inr (fl, st') \<Longrightarrow> CanFlowThrough (OpcodeOf (inst_data x)) \<Longrightarrow>
   insn_size (OpcodeOf (inst_data x)) = n \<Longrightarrow> IsThrow (OpcodeOf (inst_data x)) \<Longrightarrow> sf_method (frame st) = mp \<Longrightarrow> legal_flow rt mp x fl"
  by (auto simp: POSSIBLY_HANDLE_PENDING_EXCEPTION_def split: if_splits intro: HANDLE_flow next_insn_flow)

lemmas flow_rules = next_insn_flow HANDLE_flow throw_flow POSSIBLY_flow

lemmas op_defs = flag_defs size_defs FormatOf_def op_facts

section \<open>The handlers\<close>

lemma nop_flow: "CanFlowThrough op \<Longrightarrow> insn_size op = 1 \<Longrightarrow> flow_ok op nop"
  by (rule flow_okI) (auto simp: nop_def elim!: flow_rules)

lemma put_flow: "CanFlowThrough op \<Longrightarrow> insn_size op = n \<Longrightarrow> flow_ok op (put setter a val n)"
  by (rule flow_okI) (auto simp: put_def elim!: rbindE flow_rules)

lemma move_exception_flow: "CanFlowThrough op \<Longrightarrow> insn_size op = 1 \<Longrightarrow> flow_ok op move_exception"
  by (rule flow_okI) (auto simp: move_exception_def elim!: rbindE flow_rules)

lemma return_flow: "IsReturn op \<Longrightarrow> flow_ok op (do_return val)" "IsReturn op \<Longrightarrow> flow_ok op return_object"
  by (auto intro!: flow_okI elim!: rbindE simp: do_return_def return_object_def Let_def split: flow.split_asm)

lemma put_const_flow: "CanFlowThrough op \<Longrightarrow> insn_size op = n \<Longrightarrow> flow_ok op (put_const a val n)"
  by (rule flow_okI) (auto simp: put_const_def elim!: rbindE flow_rules split: if_split_asm)

lemma put_ref_flow: "CanFlowThrough op \<Longrightarrow> insn_size op = n \<Longrightarrow> IsThrow op \<Longrightarrow> flow_ok op (put_ref a provide n)"
  by (rule flow_okI) (auto simp: put_ref_def Let_def elim!: rbindE flow_rules split: if_split_asm)

lemma object_flow:
  assumes "CanFlowThrough op" "IsThrow op"
  shows "insn_size op = 1 \<Longrightarrow> flow_ok op (monitor operation)" "insn_size op = 2 \<Longrightarrow> flow_ok op check_cast"
    "insn_size op = 2 \<Longrightarrow> flow_ok op instance_of" "insn_size op = 1 \<Longrightarrow> flow_ok op array_length"
    "insn_size op = 3 \<Longrightarrow> flow_ok op fill_array_data"
  using assms
  by (auto intro!: flow_okI simp: monitor_def check_cast_def instance_of_def array_length_def fill_array_data_def Let_def
      elim!: rbindE flow_rules split: if_split_asm prod.split_asm)

lemma do_throw_flow: "IsThrow op \<Longrightarrow> flow_ok op do_throw"
  by (rule flow_okI) (auto simp: do_throw_def elim!: rbindE flow_rules)

lemma branch_flow:
  "branch off rt x st = Inr (fl, st') \<Longrightarrow> IsBranch (OpcodeOf (inst_data x)) \<Longrightarrow> GetTargetOffset (inst x) = Inr off \<Longrightarrow> legal_flow rt mp x fl"
  by (auto simp: branch_def RelativeAt_def Let_def)

lemma GetTargetOffset_format:
  assumes "Fetch16 0 (inst x) = Inr (inst_data x)" "OpcodeOf (inst_data x) = op"
  shows "FormatOf op = k10t \<Longrightarrow> GetTargetOffset (inst x) = Inr (scast (VRegA_10t (inst_data x)))"
    "FormatOf op = k20t \<Longrightarrow> GetTargetOffset (inst x) = rmap scast (VRegA_20t (inst x))"
    "FormatOf op = k30t \<Longrightarrow> GetTargetOffset (inst x) = VRegA_30t (inst x)"
    "FormatOf op = k22t \<Longrightarrow> GetTargetOffset (inst x) = rmap scast (VRegC_22t (inst x))"
    "FormatOf op = k21t \<Longrightarrow> GetTargetOffset (inst x) = rmap scast (VRegB_21t (inst x))"
  using assms by (simp_all add: GetTargetOffset_def Opcode_def)

lemma goto_flow:
  assumes "IsBranch op"
  shows "FormatOf op = k10t \<Longrightarrow> flow_ok op (goto (imm_d (\<lambda>d. scast (VRegA_10t d))))"
    "FormatOf op = k20t \<Longrightarrow> flow_ok op (goto (imm VRegA_20t scast))"
    "FormatOf op = k30t \<Longrightarrow> flow_ok op (goto (imm VRegA_30t id))"
  using assms
  by (auto intro!: flow_okI elim!: branch_flow simp: goto_def imm_def imm_d_def rbind_eq_Inr GetTargetOffset_format)

lemma switch_flow: "flow_ok PACKED_SWITCH (goto packed_offset)" "flow_ok SPARSE_SWITCH (goto sparse_offset)"
  by (auto intro!: flow_okI simp: goto_def packed_offset_def sparse_offset_def rbind_eq_Inr branch_def RelativeAt_def
      switch_offset_def Let_def op_defs)

lemma if_flow:
  assumes "IsBranch op" "CanFlowThrough op" "insn_size op = 2"
  shows "FormatOf op = k22t \<Longrightarrow> flow_ok op (if_test test)" "FormatOf op = k21t \<Longrightarrow> flow_ok op (if_testz testz)"
  using assms
  by (auto intro!: flow_okI elim!: branch_flow next_insn_flow simp: if_test_def if_testz_def rbind_eq_Inr GetTargetOffset_format split: if_splits)

lemma array_flow:
  assumes "CanFlowThrough op" "IsThrow op" "insn_size op = 2"
  shows "flow_ok op (aget setter element)" "flow_ok op (aput val)" "flow_ok op aput_object"
  using assms
  by (auto intro!: flow_okI elim!: rbindE flow_rules simp: aget_def aput_def aput_object_def split: if_split_asm prod.split_asm)

lemma keeps_method: "keeps f g \<Longrightarrow> sf_method g = sf_method f"
  by (simp add: keeps_def same_shape_def)

lemma attempt_flow:
  "op_keeps operation \<Longrightarrow> CanFlowThrough op \<Longrightarrow> insn_size op = n \<Longrightarrow> IsThrow op \<Longrightarrow> flow_ok op (attempt operation n)"
  by (rule flow_okI) (auto simp: attempt_def op_keeps_def elim!: rbindE POSSIBLY_flow, blast dest: keeps_method)

lemma div_flow:
  assumes "CanFlowThrough op" "insn_size op = n" "IsThrow op"
  shows "div_keeps operation \<Longrightarrow> flow_ok op (div_int operation a b c n)"
    "div_keeps operation' \<Longrightarrow> flow_ok op (div_long operation' a b' c' n)"
  using assms
  by (auto intro!: flow_okI elim!: rbindE flow_rules simp: div_int_def div_long_def Let_def div_keeps_def split: option.split_asm option.split)
    (blast dest: keeps_method)+

lemmas handler_flow = nop_flow put_flow move_exception_flow return_flow put_const_flow put_ref_flow object_flow do_throw_flow
  goto_flow switch_flow if_flow array_flow div_flow(1) [OF _ _ _ divisions_keep(1)] div_flow(1) [OF _ _ _ divisions_keep(2)]
  div_flow(2) [OF _ _ _ divisions_keep(3)] div_flow(2) [OF _ _ _ divisions_keep(4)] attempt_flow [OF field_get_keeps(1)] attempt_flow [OF field_get_keeps(2)]
  attempt_flow [OF field_put_keeps(1)] attempt_flow [OF field_put_keeps(2)] attempt_flow [OF invoke_keeps(1)]
  attempt_flow [OF invoke_keeps(2)] attempt_flow [OF filled_array_keeps]


lemma tables_flow:
  "list_all (case_prod flow_ok) move_table"
  "list_all (case_prod flow_ok) return_table"
  "list_all (case_prod flow_ok) const_table"
  "list_all (case_prod flow_ok) object_table"
  "list_all (case_prod flow_ok) branch_table"
  "list_all (case_prod flow_ok) if_table"
  "list_all (case_prod flow_ok) aget_table"
  "list_all (case_prod flow_ok) aput_table"
  "list_all (case_prod flow_ok) get_table"
  "list_all (case_prod flow_ok) put_table"
  "list_all (case_prod flow_ok) invoke_table"
  "list_all (case_prod flow_ok) unary_table"
  "list_all (case_prod flow_ok) int_table"
  "list_all (case_prod flow_ok) long_table"
  "list_all (case_prod flow_ok) float_table"
  "list_all (case_prod flow_ok) double_table"
  "list_all (case_prod flow_ok) int_2addr_table"
  "list_all (case_prod flow_ok) long_2addr_table"
  "list_all (case_prod flow_ok) float_2addr_table"
  "list_all (case_prod flow_ok) double_2addr_table"
  "list_all (case_prod flow_ok) lit16_table"
  "list_all (case_prod flow_ok) lit8_table"
  by (simp_all add: table_defs attempt_defs handler_flow op_defs)

lemma handlers_flow: "list_all (case_prod flow_ok) handlers"
  by (simp add: handlers_def tables_flow)

section \<open>The switch as a whole\<close>

lemma handler_flow_ok: "map_of handlers opcode = Some handler \<Longrightarrow> flow_ok opcode handler"
  using handlers_flow by (auto dest: map_of_SomeD simp: list_all_iff)

lemma execute_insn_flow:
  assumes "execute_insn mini_trace c pc rt st = Inr (fl, st')"
  shows "\<exists>d. Fetch16 0 (code_at (insns c) (uint pc)) = Inr d \<and>
     legal_flow rt (sf_method (frame st)) \<lparr>code = c, dex_pc = pc, inst_data = d\<rparr> fl"
proof -
  let ?x = "\<lambda>d. \<lparr>code = c, dex_pc = pc, inst_data = d\<rparr>"
  obtain d handler st1 where d: "Fetch16 0 (code_at (insns c) (uint pc)) = Inr d"
    and pre: "PREAMBLE mini_trace rt (?x d) (st\<lparr>frame := SetDexPC pc (frame st)\<rparr>) = Inr st1"
    and h: "map_of handlers (OpcodeOf d) = Some handler" "handler rt (?x d) st1 = Inr (fl, st')"
    using assms by (auto simp: execute_insn_def Let_def rbind_eq_Inr split: option.split_asm)
  have "sf_method (frame st1) = sf_method (frame st)" using PREAMBLE_frame [OF pre] by (simp add: SetDexPC_def)
  with handler_flow_ok [OF h(1)] h(2) d have "legal_flow rt (sf_method (frame st)) (?x d) fl"
    unfolding flow_ok_def inst_def by (metis insn_ctx.select_convs)
  with d show ?thesis by blast
qed



lemma handler_opcodes:
  "map fst handlers = map word_of_int ([0..13] @ [115..115] @ [14..61] @ [71..74] @ [68..70] @ [78..81] @ [75..77] @ [85..88] @ [82..84] @ [227..229] @ [239..242] @ [99..102] @ [96..98] @ [92..95] @ [89..91] @ [230..230] @ [235..238] @ [231..232] @ [106..109] @ [103..105] @ [110..110] @ [116..116] @ [111..111] @ [117..117] @ [112..112] @ [118..118] @ [114..114] @ [120..120] @ [113..113] @ [119..119] @ [233..234] @ [123..148] @ [152..154] @ [149..151] @ [155..180] @ [184..186] @ [181..183] @ [187..226])"
  by (simp add: handlers_def table_defs attempt_defs upto_rec1)

lemma handled: "opcode \<in> fst ` set handlers \<longleftrightarrow> uint opcode \<in> {0..0x3d} \<union> {0x44..0x78} \<union> {0x7b..0xf2}"
proof -
  have ops: "fst ` set handlers = word_of_int ` ({0..0x3d} \<union> {0x44..0x78} \<union> {0x7b..0xf2})"
    unfolding set_map [symmetric] handler_opcodes 
    by (simp only: set_map set_append set_upto) (rule arg_cong [of _ _ "image word_of_int"], rule set_eqI, simp only: Un_iff atLeastAtMost_iff, presburger)
  have mem: "opcode \<in> word_of_int ` S \<longleftrightarrow> uint opcode \<in> S" if "S \<subseteq> {0..<256}" for S
    using that by (auto simp: image_iff uint_word_of_int subset_iff intro: bexI [of _ "uint opcode"])
  show ?thesis unfolding ops by (rule mem) auto
qed

lemma unused_flags: "list_all (\<lambda>i. (i \<in> {0..0x3d} \<union> {0x44..0x78} \<union> {0x7b..0xf2}) = (kInstructionFlags (word_of_int i) \<noteq> 0)) [0..255]"
  by (simp add: upto_rec1 op_facts)

text \<open>C35: the interpreter has a case for exactly the opcodes that have flags in the opcode table,
  that is for all but the unused ones, which end the process.\<close>

theorem switch_complete:
  "map_of handlers opcode = None \<longleftrightarrow> FlagsOf opcode = 0"
proof -
  have "uint opcode \<in> set [0..255]" using uint_lt2p [of opcode] by simp
  with unused_flags have "(uint opcode \<in> {0..0x3d} \<union> {0x44..0x78} \<union> {0x7b..0xf2}) = (FlagsOf opcode \<noteq> 0)"
    unfolding list_all_iff by (metis FlagsOf_def word_of_int_uint)
  then show ?thesis by (simp add: map_of_eq_None_iff handled)
qed

end
