(* ===== verification/Verified_Code.thy ===== *)
theory Verified_Code
  imports Method_Verifier Interpreter_Flow
begin

text \<open>
  What the static checks of the two verifiers guarantee for the interpreter: control stays at
  the beginnings of instructions, and an instruction that cannot throw does not fault.
\<close>

section \<open>The beginnings of instructions\<close>

inductive insn_walk :: "CodeItem \<Rightarrow> nat \<Rightarrow> nat \<Rightarrow> bool" for c pc where
  first: "insn_walk c pc pc"
| following: "insn_walk c pc k \<Longrightarrow> k < length (insns c) \<Longrightarrow> SizeInCodeUnits (insn_at c k) = Inr n \<Longrightarrow> insn_walk c pc (k + n)"

abbreviation insn_start :: "CodeItem \<Rightarrow> nat \<Rightarrow> bool" where
  "insn_start c \<equiv> insn_walk c 0"

lemma walk_mono: "insn_walk c pc k \<Longrightarrow> pc \<le> k"
  by (induction rule: insn_walk.induct) auto

lemma walk_step:
  assumes "insn_walk c pc k" "SizeInCodeUnits (insn_at c pc) = Inr n" "pc < length (insns c)"
  shows "k = pc \<or> insn_walk c (pc + n) k"
  using assms by (induction rule: insn_walk.induct) (auto intro: insn_walk.intros)

definition opcode_bits :: "'w MethodVerifier \<Rightarrow> bool list" where
  "opcode_bits v = map IsOpcode (insn_flags v)"

lemma flag_bits:
  "IsOpcode flags \<longleftrightarrow> bit flags kOpcode" "IsOpcode (SetIsOpcode flags)"
  "IsOpcode (SetInTry flags) = IsOpcode flags" "IsOpcode (SetBranchTarget flags) = IsOpcode flags"
  "IsOpcode (SetCompileTimeInfoPoint flags) = IsOpcode flags"
  "IsOpcode (SetCompileTimeInfoPointAndReturn flags) = IsOpcode flags"
proof -
  have *: "IsOpcode flags \<longleftrightarrow> bit flags kOpcode" for flags
    unfolding IsOpcode_def bit_iff_and_push_bit_not_eq_0 ..
  show "IsOpcode flags \<longleftrightarrow> bit flags kOpcode" by (rule *)
  show "IsOpcode (SetIsOpcode flags)"
    "IsOpcode (SetInTry flags) = IsOpcode flags" "IsOpcode (SetBranchTarget flags) = IsOpcode flags"
    "IsOpcode (SetCompileTimeInfoPoint flags) = IsOpcode flags"
    "IsOpcode (SetCompileTimeInfoPointAndReturn flags) = IsOpcode flags"
    unfolding * by (simp_all add: SetIsOpcode_def SetInTry_def SetBranchTarget_def SetCompileTimeInfoPoint_def
        SetCompileTimeInfoPointAndReturn_def SetReturn_def bit_simps)
qed

lemma mark_keeps_bits:
  assumes "\<And>flags. IsOpcode (setter flags) = IsOpcode flags" "mark setter i v = Inr v'"
  shows "opcode_bits v' = opcode_bits v"
  using assms by (auto simp: mark_def flags_at_def opcode_bits_def map_update split: if_splits intro!: nth_equalityI
      simp: nth_list_update)

lemmas marks_keep = mark_keeps_bits [OF flag_bits(3)] mark_keeps_bits [OF flag_bits(4)] mark_keeps_bits [OF flag_bits(5)] mark_keeps_bits [OF flag_bits(6)]

lemma Fail_bits [simp]: "opcode_bits (Fail ve error v) = opcode_bits v"
  by (auto simp: Fail_def opcode_bits_def Let_def split: VerifyError.split)

section \<open>Widths\<close>

lemma count_op_flags [simp]: "insn_flags (count_op opcode v) = insn_flags v"
  by (simp add: count_op_def)

text \<open>A walk ends at or behind the end of the code, passing every beginning.\<close>

lemma compute_widths_marks:
  assumes "compute_widths c pc i m v = Inr ((e, i', m'), v')" "insn_start c pc" "\<forall>k < length (insn_flags v). opcode_bits v ! k \<longrightarrow> insn_start c k"
  shows "length (insn_flags v') = length (insn_flags v) \<and> (\<forall>k < length (insn_flags v'). opcode_bits v' ! k \<longrightarrow> insn_start c k)"
  using assms
proof (induction c pc i m v rule: compute_widths.induct)
  case (1 c pc i m v)
  show ?case
  proof (cases "pc < length (insns c)")
    case False
    with 1 show ?thesis by (auto simp: compute_widths.simps [of c pc])
  next
    case True
    with 1(2) obtain opcode n v1 where *: "Opcode (insn_at c pc) = Inr opcode" "SizeInCodeUnits (insn_at c pc) = Inr n"
        "mark SetIsOpcode pc (count_op opcode v) = Inr v1"
        "compute_widths c (pc + n) (if opcode = NEW_INSTANCE then i + 1 else i) (if opcode = MONITOR_ENTER then m + 1 else m) v1 =
          Inr ((e, i', m'), v')"
      by (subst (asm) compute_widths.simps) (auto simp: Let_def elim!: rbindE)
    have v1: "length (insn_flags v1) = length (insn_flags v)" "\<forall>k < length (insn_flags v1). opcode_bits v1 ! k \<longrightarrow> insn_start c k"
      using *(3) 1(3,4) by (auto simp: mark_def flags_at_def opcode_bits_def nth_list_update split: if_splits)
    from 1(1) [OF True *(1) refl refl refl *(2,3,4) following [OF 1(3) True *(2)] v1(2)] v1(1)
    show ?thesis by simp
  qed
qed

lemma compute_widths_end: "compute_widths c pc i m v = Inr ((e, i', m'), v') \<Longrightarrow> pc \<le> e"
proof (induction c pc i m v rule: compute_widths.induct)
  case (1 c pc i m v)
  then show ?case
    by (subst (asm) (2) compute_widths.simps) (fastforce simp: Let_def elim!: rbindE split: if_split_asm)
qed

lemma compute_widths_sizes:
  assumes "compute_widths c pc i m v = Inr ((e, i', m'), v')" "insn_walk c pc k" "k < length (insns c)"
  shows "\<exists>n. SizeInCodeUnits (insn_at c k) = Inr n \<and> k + n \<le> e"
  using assms
proof (induction c pc i m v rule: compute_widths.induct)
  case (1 c pc i m v)
  have pc: "pc < length (insns c)" using walk_mono [OF 1(3)] 1(4) by simp
  with 1(2) obtain opcode n v1 where *: "Opcode (insn_at c pc) = Inr opcode" "SizeInCodeUnits (insn_at c pc) = Inr n"
      "mark SetIsOpcode pc (count_op opcode v) = Inr v1"
      "compute_widths c (pc + n) (if opcode = NEW_INSTANCE then i + 1 else i) (if opcode = MONITOR_ENTER then m + 1 else m) v1 =
        Inr ((e, i', m'), v')"
    by (subst (asm) compute_widths.simps) (auto simp: Let_def elim!: rbindE)
  from walk_step [OF 1(3) *(2) pc] show ?case
  proof
    assume "k = pc"
    with *(2) compute_widths_end [OF *(4)] show ?thesis by simp
  next
    assume "insn_walk c (pc + n) k"
    from 1(1) [OF pc *(1) refl refl refl *(2,3,4) this 1(4)] show ?thesis .
  qed
qed

lemma widths_checked:
  assumes "ComputeWidthsAndCountOps ve c v = Inr (True, v')" "insn_flags v = replicate (length (insns c)) 0"
  shows "length (opcode_bits v') = length (insns c)"
    and "k < length (insns c) \<Longrightarrow> opcode_bits v' ! k \<Longrightarrow> insn_start c k"
    and "insn_start c k \<Longrightarrow> k < length (insns c) \<Longrightarrow> \<exists>n. SizeInCodeUnits (insn_at c k) = Inr n \<and> k + n \<le> length (insns c)"
proof -
  obtain i m v1 where run: "compute_widths c 0 0 0 v = Inr ((length (insns c), i, m), v1)" "insn_flags v' = insn_flags v1"
    using assms(1) by (auto simp: ComputeWidthsAndCountOps_def elim!: rbindE split: if_split_asm)
  have "\<forall>k < length (insn_flags v). opcode_bits v ! k \<longrightarrow> insn_start c k"
    using assms(2) by (simp add: opcode_bits_def flag_bits(1))
  note marks = compute_widths_marks [OF run(1) first this]
  show "length (opcode_bits v') = length (insns c)" using marks run(2) assms(2) by (simp add: opcode_bits_def)
  show "k < length (insns c) \<Longrightarrow> opcode_bits v' ! k \<Longrightarrow> insn_start c k"
    using marks run(2) assms(2) by (simp add: opcode_bits_def)
  show "insn_start c k \<Longrightarrow> k < length (insns c) \<Longrightarrow> \<exists>n. SizeInCodeUnits (insn_at c k) = Inr n \<and> k + n \<le> length (insns c)"
    using compute_widths_sizes [OF run(1)] .
qed

section \<open>No other check moves a beginning\<close>

definition bits_kept :: "('w MethodVerifier \<Rightarrow> ('b \<times> 'w MethodVerifier) res) \<Rightarrow> bool" where
  "bits_kept p \<longleftrightarrow> (\<forall>v b v'. p v = Inr (b, v') \<longrightarrow> opcode_bits v' = opcode_bits v)"

lemma bits_keptI: "(\<And>v b v'. p v = Inr (b, v') \<Longrightarrow> opcode_bits v' = opcode_bits v) \<Longrightarrow> bits_kept p"
  by (auto simp: bits_kept_def)

lemma bits_keptD: "bits_kept p \<Longrightarrow> p v = Inr (b, v') \<Longrightarrow> opcode_bits v' = opcode_bits v"
  by (auto simp: bits_kept_def)

lemma combinators_kept [intro]:
  "bits_kept p \<Longrightarrow> bits_kept q \<Longrightarrow> bits_kept (both p q)" "bits_kept (require ve b)" "bits_kept passed"
  "(\<And>x. bits_kept (f x)) \<Longrightarrow> bits_kept (with_value r f)" "bits_kept p \<Longrightarrow> bits_kept (when_ok b p)"
  by (auto simp: bits_kept_def both_def require_def passed_def with_value_def when_ok_def elim!: rbindE split: if_split_asm)

lemma index_checks_kept:
  "bits_kept (CheckRegisterIndex ve c r)" "bits_kept (CheckWideRegisterIndex ve c r)" "bits_kept (CheckFieldIndex ve r)"
  "bits_kept (CheckMethodIndex ve r)" "bits_kept (CheckStringIndex ve r)" "bits_kept (CheckTypeIndex ve r)"
  "bits_kept (CheckNewInstance ve r)" "bits_kept (CheckNewArray ve r)" "bits_kept (CheckVarArgRegs ve c n regs)"
  "bits_kept (CheckVarArgRangeRegs ve c a b)" "bits_kept (CheckNotMoveResult ve us i)" "bits_kept (CheckNotMoveException ve us i)"
  unfolding CheckRegisterIndex_def CheckWideRegisterIndex_def CheckFieldIndex_def CheckMethodIndex_def CheckStringIndex_def
    CheckTypeIndex_def CheckNewInstance_def CheckNewArray_def CheckVarArgRegs_def CheckVarArgRangeRegs_def CheckNotMoveResult_def
    CheckNotMoveException_def Let_def
  by blast+

lemma targets_kept: "bits_kept (target_ok ve c a)" "bits_kept (switch_target_ok ve c a)"
  by (rule bits_keptI, auto simp: target_ok_def switch_target_ok_def elim!: rbindE split: if_split_asm dest: marks_keep)+

lemma check_keys_kept: "bits_kept (check_keys ve sw k ts)"
proof (rule bits_keptI)
  show "check_keys ve sw k ts v = Inr (b, v') \<Longrightarrow> opcode_bits v' = opcode_bits v" for v b v'
    by (induction ve sw k ts v rule: check_keys.induct) (auto elim!: rbindE split: if_split_asm)
qed

lemma check_targets_kept: "bits_kept (check_targets ve c off sw t ts)"
proof (induction ts)
  case Nil
  show ?case by (rule bits_keptI) simp
next
  case (Cons t' ts)
  show ?case
    by (rule bits_keptI)
      (auto elim!: rbindE dest!: bits_keptD [OF combinators_kept(1) [OF targets_kept(2) Cons]])
qed

lemma table_checks_kept: "bits_kept (CheckArrayData ve c off)" "bits_kept (CheckBranchTarget ve c off)" "bits_kept (CheckSwitchTargets ve c off)"
  unfolding CheckArrayData_def CheckBranchTarget_def CheckSwitchTargets_def Let_def
  by (auto intro!: combinators_kept targets_kept check_keys_kept check_targets_kept split: option.split) (auto simp: bits_kept_def)

lemma operands_kept: "bits_kept (verify_a ve c ins)" "bits_kept (verify_b ve c ins)" "bits_kept (verify_c ve c ins)"
  unfolding verify_a_def verify_b_def verify_c_def by (auto intro!: combinators_kept index_checks_kept)

lemma when_ok_bits: "bits_kept p \<Longrightarrow> when_ok b p v = Inr (r, v') \<Longrightarrow> opcode_bits v' = opcode_bits v"
  by (rule bits_keptD [OF combinators_kept(5)])

lemma verify_extra_kept: "bits_kept (verify_extra ve c ins off b)"
  unfolding verify_extra_def verify_var_args_def verify_range_args_def
  by (rule bits_keptI)
    (auto simp: Let_def elim!: rbindE split: if_split_asm
      dest!: when_ok_bits [OF table_checks_kept(1)] when_ok_bits [OF table_checks_kept(2)] when_ok_bits [OF table_checks_kept(3)]
        when_ok_bits [OF index_checks_kept(9)] when_ok_bits [OF combinators_kept(4) [OF index_checks_kept(10)]])

lemma VerifyInstruction_kept: "bits_kept (VerifyInstruction ve c ins off)"
  by (rule bits_keptI)
    (auto simp: VerifyInstruction_def elim!: rbindE split: if_split_asm option.split_asm
      dest!: bits_keptD [OF operands_kept(1)] when_ok_bits [OF operands_kept(2)] when_ok_bits [OF operands_kept(3)]
        bits_keptD [OF verify_extra_kept])

lemma mark_info_points_kept: "mark_info_points c ins pc v = Inr v' \<Longrightarrow> opcode_bits v' = opcode_bits v"
  by (auto simp: mark_info_points_def elim!: rbindE split: if_split_asm dest!: marks_keep)

section \<open>What a checked instruction satisfies\<close>

lemma verify_instructions_each:
  assumes "verify_instructions ve c pc v = Inr (True, v')" "insn_walk c pc k" "k < length (insns c)"
  shows "\<exists>v1 v2. opcode_bits v1 = opcode_bits v \<and> VerifyInstruction ve c (insn_at c k) (of_nat k) v1 = Inr (True, v2)"
  using assms
proof (induction ve c pc v rule: verify_instructions.induct)
  case (1 ve c pc v)
  have pc: "pc < length (insns c)" using walk_mono [OF 1(3)] 1(4) by simp
  with 1(2) obtain v1 v2 n where *: "VerifyInstruction ve c (insn_at c pc) (of_nat pc) v = Inr (True, v1)"
      "mark_info_points c (insn_at c pc) pc v1 = Inr v2" "SizeInCodeUnits (insn_at c pc) = Inr n"
      "verify_instructions ve c (pc + n) v2 = Inr (True, v')"
    by (subst (asm) verify_instructions.simps) (auto elim!: rbindE split: if_split_asm)
  have bits: "opcode_bits v2 = opcode_bits v"
    using mark_info_points_kept [OF *(2)] bits_keptD [OF VerifyInstruction_kept *(1)] by simp
  from walk_step [OF 1(3) *(3) pc] show ?case
  proof
    assume "k = pc"
    with *(1) show ?thesis by blast
  next
    assume walk: "insn_walk c (pc + n) k"
    from 1(1) [OF pc *(1) refl _ *(2,3,4) walk 1(4)] bits show ?thesis by simp
  qed
qed

lemma VerifyInstruction_parts:
  assumes "VerifyInstruction ve c ins off v = Inr (True, v')"
  obtains v1 v2 v3 v4 where "verify_a ve c ins v = Inr (True, v1)" "verify_b ve c ins v1 = Inr (True, v2)"
    "verify_c ve c ins v2 = Inr (True, v3)" "verify_extra ve c ins off True v3 = Inr (Some True, v4)" "opcode_bits v3 = opcode_bits v"
proof -
  from assms obtain r1 v1 r2 v2 r3 v3 v4 where *: "verify_a ve c ins v = Inr (r1, v1)" "when_ok r1 (verify_b ve c ins) v1 = Inr (r2, v2)"
      "when_ok r2 (verify_c ve c ins) v2 = Inr (r3, v3)" "verify_extra ve c ins off r3 v3 = Inr (Some True, v4)"
    by (auto simp: VerifyInstruction_def elim!: rbindE split: if_split_asm option.split_asm)
  have "r3" using *(4) by (auto simp: verify_extra_def verify_var_args_def verify_range_args_def when_ok_def Let_def
        elim!: rbindE split: if_split_asm)
  with * have "verify_a ve c ins v = Inr (True, v1)" "verify_b ve c ins v1 = Inr (True, v2)"
    "verify_c ve c ins v2 = Inr (True, v3)" "verify_extra ve c ins off True v3 = Inr (Some True, v4)"
    by (auto simp: when_ok_def split: if_split_asm)
  moreover from this have "opcode_bits v3 = opcode_bits v"
    using bits_keptD [OF operands_kept(1)] bits_keptD [OF operands_kept(2)] bits_keptD [OF operands_kept(3)] by metis
  ultimately show thesis by (rule that)
qed

lemma passes:
  "both p q v = Inr (True, v') \<longleftrightarrow> (\<exists>v1. p v = Inr (True, v1) \<and> q v1 = Inr (True, v'))"
  "require ve b v = Inr (True, v') \<longleftrightarrow> b \<and> v' = v"
  "with_value r f v = Inr (True, v') \<longleftrightarrow> (\<exists>x. r = Inr x \<and> f x v = Inr (True, v'))"
  "passed v = Inr (True, v') \<longleftrightarrow> v' = v"
  by (auto simp: both_def require_def with_value_def passed_def elim!: rbindE split: if_split_asm)

text \<open>A target that passes is the beginning of an instruction.\<close>

lemma target_ok_start:
  "target_ok ve c a v = Inr (True, v') \<Longrightarrow> unat a < length (opcode_bits v) \<and> opcode_bits v ! unat a"
  "switch_target_ok ve c a v = Inr (True, v') \<Longrightarrow> unat a < length (opcode_bits v) \<and> opcode_bits v ! unat a"
  by (auto simp: target_ok_def switch_target_ok_def flags_at_def opcode_bits_def elim!: rbindE split: if_split_asm)

text \<open>The verifier and the decoder read the same offset from a branch.\<close>

lemma goto_offset: "(scast (signed_drop_bit 8 (u :: u16)) :: u32) = scast (VRegA_10t u)"
proof (rule bit_word_eqI)
  fix n :: nat
  have "n \<le> 6 \<or> n = 7 \<or> 8 \<le> n" by linarith
  then show "bit (scast (signed_drop_bit 8 u) :: u32) n = bit (scast (VRegA_10t u) :: u32) n"
    by (auto simp: VRegA_10t_def InstAA_def bit_simps min_def)
qed

lemma branch_formats:
  "FormatOf GOTO = k10t" "FormatOf GOTO_32 = k30t" "FormatOf GOTO_16 = k20t" "FormatOf IF_EQ = k22t" "FormatOf IF_NE = k22t"
  "FormatOf IF_LT = k22t" "FormatOf IF_GE = k22t" "FormatOf IF_GT = k22t" "FormatOf IF_LE = k22t" "FormatOf IF_EQZ = k21t"
  "FormatOf IF_NEZ = k21t" "FormatOf IF_LTZ = k21t" "FormatOf IF_GEZ = k21t" "FormatOf IF_GTZ = k21t" "FormatOf IF_LEZ = k21t"
  by (simp_all add: FormatOf_def op_facts)

lemma GetBranchOffset_target:
  assumes "GetBranchOffset c off = Inr (Some (offset, cond, self))"
  shows "GetTargetOffset (insn_at c (unat off)) = Inr offset"
proof -
  let ?code = "insn_at c (unat off)"
  obtain u where u: "Fetch16 0 ?code = Inr u" using assms by (auto simp: GetBranchOffset_def Let_def elim!: rbindE)
  then have op: "Opcode ?code = Inr (OpcodeOf u)" by (simp add: Opcode_def)
  show ?thesis
    using assms u
    by (auto simp: GetBranchOffset_def Let_def GetTargetOffset_def op branch_formats goto_offset VRegA_20t_def VRegA_30t_def
        VRegB_21t_def VRegC_22t_def elim!: rbindE split: if_split_asm)
qed

lemma opcode_all: "list_all (\<lambda>i. P (word_of_int i :: u8)) [0..255] \<Longrightarrow> P opcode"
proof -
  assume "list_all (\<lambda>i. P (word_of_int i :: u8)) [0..255]"
  moreover have "uint opcode \<in> set [0..255]" using uint_lt2p [of opcode] by simp
  ultimately have "P (word_of_int (uint opcode))" by (simp only: list_all_iff)
  then show ?thesis by simp
qed

text \<open>The flags of an opcode fit to what the interpreter does with it.\<close>

definition target_flags :: "u8 \<Rightarrow> bool" where
  "target_flags opcode \<longleftrightarrow>
     (IsBranch opcode \<longrightarrow> kInstructionVerifyFlags opcode AND 0x5fc000 = kVerifyBranchTarget) \<and>
     (IsSwitch opcode \<longrightarrow> kInstructionVerifyFlags opcode AND 0x5fc000 = kVerifySwitchTargets)"

lemma all_target_flags: "target_flags opcode"
  by (rule opcode_all) (simp add: upto_rec1 target_flags_def IsBranch_def IsSwitch_def op_facts)

lemma switch_size: "IsSwitch opcode \<Longrightarrow> insn_size opcode = 3 \<and> CanFlowThrough opcode"
  by (rule opcode_all [of "\<lambda>opcode. IsSwitch opcode \<longrightarrow> insn_size opcode = 3 \<and> CanFlowThrough opcode", THEN mp])
    (simp_all add: upto_rec1 op_defs)

lemma extra_flags: "Opcode ins = Inr opcode \<Longrightarrow> GetVerifyExtraFlags ins = Inr (kInstructionVerifyFlags opcode AND 0x5fc000)"
  by (simp add: GetVerifyExtraFlags_def)

lemma checked_branch:
  assumes "verify_extra ve c ins off True v = Inr (Some True, v')" "Opcode ins = Inr opcode" "IsBranch opcode"
    and "GetTargetOffset (insn_at c (unat off)) = Inr offset"
  shows "unat (off + offset) < length (opcode_bits v) \<and> opcode_bits v ! unat (off + offset)"
proof -
  have "GetVerifyExtraFlags ins = Inr kVerifyBranchTarget"
    using all_target_flags [of opcode] assms(2,3) by (simp add: target_flags_def extra_flags)
  with assms(1) obtain v1 where "CheckBranchTarget ve c off v = Inr (True, v1)"
    by (auto simp: verify_extra_def when_ok_def Let_def elim!: rbindE)
  then obtain o' cond self v2 where "GetBranchOffset c off = Inr (Some (o', cond, self))" "target_ok ve c (off + o') v = Inr (True, v2)"
    by (auto simp: CheckBranchTarget_def passes split: option.split_asm)
  with GetBranchOffset_target assms(4) target_ok_start(1) show ?thesis by fastforce
qed

lemma check_targets_each:
  assumes "check_targets ve c off sw t ts v = Inr (True, v')" "k \<in> set ts"
  shows "\<exists>offset. Fetch32 (t + k * 2) sw = Inr offset \<and> unat (off + offset) < length (opcode_bits v) \<and> opcode_bits v ! unat (off + offset)"
  using assms
proof (induction ts arbitrary: v)
  case Nil
  then show ?case by simp
next
  case (Cons j ts)
  then obtain offset v1 where *: "Fetch32 (t + j * 2) sw = Inr offset" "switch_target_ok ve c (off + offset) v = Inr (True, v1)"
      "check_targets ve c off sw t ts v1 = Inr (True, v')"
    by (auto simp: passes elim!: rbindE)
  show ?case
  proof (cases "k = j")
    case True
    with * target_ok_start(2) [OF *(2)] show ?thesis by blast
  next
    case False
    with Cons.IH [OF *(3)] Cons.prems(2) bits_keptD [OF targets_kept(2) *(2)] show ?thesis by auto
  qed
qed

lemma packed_entry:
  assumes "DoPackedSwitch us pc f d = Inr offset" "switch_data us pc = Inr data" "Fetch16 1 data = Inr sz"
  shows "offset = 3 \<or> (\<exists>k < unat sz. Fetch32 (4 + 2 * k) data = Inr offset)"
proof (cases "offset = 3")
  case False
  with assms obtain x y :: u32 where *: "0 \<le>s x - y" "sint (x - y) < uint sz" "Fetch32 (4 + 2 * nat (sint (x - y))) data = Inr offset"
    by (fastforce simp: DoPackedSwitch_def Let_def elim!: rbindE split: if_split_asm)
  then have "nat (sint (x - y)) < unat sz" by (simp add: word_sle_eq nat_less_iff)
  with *(3) show ?thesis by blast
qed simp

lemma sparse_loop_entry:
  assumes "sparse_loop data sz t lo hi = Inr offset" "0 \<le> lo" "hi < uint sz"
  shows "offset = 3 \<or> (\<exists>m < unat sz. Fetch32 (2 + 2 * unat sz + 2 * m) data = Inr offset)"
  using assms
proof (induction data sz t lo hi rule: sparse_loop.induct)
  case (1 data sz t lo hi)
  let ?m = "(lo + hi) div 2"
  show ?case
  proof (cases "lo \<le> hi")
    case False
    with 1(3) show ?thesis by (subst (asm) sparse_loop.simps) simp
  next
    case True
    then have m: "0 \<le> ?m" "?m < uint sz" "nat ?m < unat sz" using 1(4,5) by (auto simp: nat_less_iff)
    from 1(3) True obtain key where key: "Fetch32 (2 + 2 * nat ?m) data = Inr key"
      by (subst (asm) sparse_loop.simps) (auto simp: Let_def elim!: rbindE)
    with 1(3) True have loop: "(if t <s key then sparse_loop data sz t lo (?m - 1)
        else if key <s t then sparse_loop data sz t (?m + 1) hi
        else Fetch32 (2 + 2 * unat sz + 2 * nat ?m) data) = Inr offset"
      by (subst (asm) sparse_loop.simps) (simp add: Let_def)
    show ?thesis
      using 1(1) [OF True refl key] 1(2) [OF True refl key] loop 1(4,5) m by (auto split: if_split_asm)
  qed
qed

lemma insn_at_code_at: "code_at (insns c) (uint off) = insn_at c (unat off)"
  by (simp add: code_at_def)

text \<open>What the check of a switch has read: the table, its size and its targets.\<close>

lemma CheckSwitchTargets_table:
  assumes "CheckSwitchTargets ve c off v = Inr (True, v')"
  obtains u so sz where "Fetch16 0 (insn_at c (unat off)) = Inr u" "Fetch32 1 (insn_at c (unat off)) = Inr so"
    "Fetch16 1 (table_at c off so) = Inr sz"
    "\<And>k. k < unat sz \<Longrightarrow> \<exists>offset. Fetch32 ((if OpcodeOf u = PACKED_SWITCH then 4 else 2 + 2 * unat sz) + k * 2) (table_at c off so) = Inr offset \<and>
        unat (off + offset) < length (opcode_bits v) \<and> opcode_bits v ! unat (off + offset)"
proof -
  from assms obtain u so sz v1 where *: "Fetch16 0 (insn_at c (unat off)) = Inr u" "Fetch32 1 (insn_at c (unat off)) = Inr so"
      "Fetch16 1 (table_at c off so) = Inr sz"
      "(if OpcodeOf u \<noteq> PACKED_SWITCH \<and> unat sz > 1
        then with_value (Fetch32 2 (table_at c off so)) (\<lambda>last_key. check_keys ve (table_at c off so) last_key [1..<unat sz])
        else passed) v = Inr (True, v1)"
      "check_targets ve c off (table_at c off so) (if OpcodeOf u = PACKED_SWITCH then 4 else 2 + 2 * unat sz) [0..<unat sz] v1 = Inr (True, v')"
    by (auto simp: CheckSwitchTargets_def passes Let_def)
  have "opcode_bits v1 = opcode_bits v"
    using *(4) by (auto simp: passes split: if_split_asm dest!: bits_keptD [OF check_keys_kept])
  with check_targets_each [OF *(5)] that [OF *(1-3)] show thesis by auto
qed

lemma checked_switch:
  assumes "verify_extra ve c ins off True v = Inr (Some True, v')" "Opcode ins = Inr opcode" "IsSwitch opcode"
    and "Fetch16 0 (insn_at c (unat off)) = Inr d" "switch_offset \<lparr>code = c, dex_pc = off, inst_data = d\<rparr> offset"
  shows "offset = 3 \<or> unat (off + offset) < length (opcode_bits v) \<and> opcode_bits v ! unat (off + offset)"
proof -
  have "GetVerifyExtraFlags ins = Inr kVerifySwitchTargets"
    using all_target_flags [of opcode] assms(2,3) by (simp add: target_flags_def extra_flags)
  with assms(1) obtain v1 where "CheckSwitchTargets ve c off v = Inr (True, v1)"
    by (auto simp: verify_extra_def when_ok_def Let_def elim!: rbindE)
  then obtain so sz where t: "Fetch32 1 (insn_at c (unat off)) = Inr so" "Fetch16 1 (table_at c off so) = Inr sz"
    "\<And>k. k < unat sz \<Longrightarrow> \<exists>offset. Fetch32 ((if OpcodeOf d = PACKED_SWITCH then 4 else 2 + 2 * unat sz) + k * 2) (table_at c off so) = Inr offset \<and>
        unat (off + offset) < length (opcode_bits v) \<and> opcode_bits v ! unat (off + offset)"
    using assms(4) by (auto elim: CheckSwitchTargets_table)
  have data: "switch_data (insns c) off = Inr (table_at c off so)"
    using t(1) by (simp add: switch_data_def VRegB_31t_def insn_at_code_at table_at_def)
  have entry: "offset = 3 \<or> (\<exists>k < unat sz. Fetch32 ((if OpcodeOf d = PACKED_SWITCH then 4 else 2 + 2 * unat sz) + k * 2) (table_at c off so) = Inr offset)"
  proof (cases "OpcodeOf d = PACKED_SWITCH")
    case True
    with assms(5) obtain f where "DoPackedSwitch (insns c) off f d = Inr offset" by (auto simp: switch_offset_def)
    from packed_entry [OF this data t(2)] True show ?thesis by (auto simp: mult.commute)
  next
    case False
    with assms(5) obtain f where "DoSparseSwitch (insns c) off f d = Inr offset" by (auto simp: switch_offset_def)
    with data t(2) obtain tv where "sz = 0 \<and> offset = 3 \<or> sparse_loop (table_at c off so) sz tv 0 (uint sz - 1) = Inr offset"
      by (auto simp: DoSparseSwitch_def elim!: rbindE split: if_split_asm)
    with sparse_loop_entry [of "table_at c off so" sz tv 0 "uint sz - 1" offset] False show ?thesis
      by (auto simp: mult.commute)
  qed
  with t(3) show ?thesis by fastforce
qed

section \<open>Handlers\<close>

definition flagged :: "'w MethodVerifier \<Rightarrow> u32 \<Rightarrow> bool" where
  "flagged v a \<longleftrightarrow> unat a < length (opcode_bits v) \<and> opcode_bits v ! unat a"

lemma flagged_bits: "opcode_bits v' = opcode_bits v \<Longrightarrow> flagged v' = flagged v"
  by (simp add: fun_eq_iff flagged_def)

lemma mark_try_kept: "mark_try c pc e v = Inr v' \<Longrightarrow> opcode_bits v' = opcode_bits v"
proof (induction c pc e v rule: mark_try.induct)
  case (1 c pc e v)
  show ?case
  proof (cases "pc < e")
    case True
    with 1(2) obtain v1 n where *: "mark SetInTry pc v = Inr v1" "SizeInCodeUnits (insn_at c pc) = Inr n"
        "mark_try c (pc + n) e v1 = Inr v'"
      by (subst (asm) mark_try.simps) (auto elim!: rbindE)
    with 1(1) [OF True *] marks_keep(1) [OF *(1)] show ?thesis by simp
  next
    case False
    with 1(2) show ?thesis by (subst (asm) mark_try.simps) simp
  qed
qed

lemma scan_tries_kept: "scan_tries ve c tis v = Inr (True, v') \<Longrightarrow> opcode_bits v' = opcode_bits v"
proof (induction tis arbitrary: v)
  case (Cons ti tis)
  then obtain v1 where v1: "scan_try ve c ti v = Inr (True, v1)" "scan_tries ve c tis v1 = Inr (True, v')" by (auto simp: passes)
  from v1(1) have "opcode_bits v1 = opcode_bits v"
    by (auto simp: scan_try_def Let_def elim!: rbindE split: if_split_asm dest: mark_try_kept)
  with Cons.IH [OF v1(2)] show ?case by simp
qed simp

lemma scan_handler_flagged:
  assumes "scan_handler ve c t a v = Inr (True, v')"
  shows "flagged v a \<and> opcode_bits v' = opcode_bits v"
proof -
  have type: "opcode_bits (resolve_handler_type ve t u) = opcode_bits u" for u
    by (simp add: resolve_handler_type_def opcode_bits_def split: prod.split)
  from assms show ?thesis
    by (auto simp: scan_handler_def flags_at_def type flagged_def elim!: rbindE split: if_split_asm
        dest!: bits_keptD [OF index_checks_kept(11)] marks_keep(2)) (simp_all add: opcode_bits_def)
qed

lemma scan_last_flagged:
  assumes "scan_handlers ve c (iterator_at t a [] None data) v = Inr (Some it, v')"
  shows "flagged v a \<and> opcode_bits v' = opcode_bits v \<and> EndDataPointer it = Inr data"
proof -
  let ?stop = "\<lparr>type_idx = t, handler_address = a, current_data = data, remaining_count = - 1, catch_all = False\<rparr>"
  have "Next (iterator_at t a [] None data) = Inr ?stop" "HasNext (iterator_at t a [] None data)" "\<not> HasNext ?stop"
    by (simp_all add: Next_def HasNext_def)
  with assms have "scan_handler ve c t a v = Inr (True, v') \<and> it = ?stop"
    by (subst (asm) scan_handlers.simps) (auto simp: scan_handlers.simps [of ve c ?stop] elim!: rbindE split: if_split_asm)
  with scan_handler_flagged [of ve c t a v v'] show ?thesis by (auto simp: EndDataPointer_def HasNext_def check_def)
qed

lemma scan_handlers_flagged:
  assumes "scan_handlers ve c (iterator_at t a hs ca data) v = Inr (Some it, v')" "length hs < 2 ^ 31" "handlers_at hs ca data rest"
  shows "(\<forall>h \<in> set ((t, a) # handler_list hs ca). flagged v (snd h)) \<and> opcode_bits v' = opcode_bits v \<and> EndDataPointer it = Inr rest"
  using assms
proof (induction hs arbitrary: t a v data)
  case Nil
  show ?case
  proof (cases ca)
    case None
    with Nil scan_last_flagged [of ve c t a data v it v'] show ?thesis by (simp add: handler_list_def)
  next
    case (Some b)
    have "HasNext (iterator_at t a [] ca data)" by (simp add: HasNext_def)
    moreover have "Next (iterator_at t a [] ca data) = Inr (iterator_at kDexNoIndex16 b [] None rest)"
      using Next_catch_all [of b data rest t a] Nil(3) by (simp add: Some)
    ultimately obtain v1 where v1: "scan_handler ve c t a v = Inr (True, v1)"
        "scan_handlers ve c (iterator_at kDexNoIndex16 b [] None rest) v1 = Inr (Some it, v')"
      using Nil(1) by (subst (asm) scan_handlers.simps) (auto elim!: rbindE split: if_split_asm)
    from scan_last_flagged [OF v1(2)] scan_handler_flagged [OF v1(1)] flagged_bits [of v1 v] Some
    show ?thesis by (auto simp: handler_list_def)
  qed
next
  case (Cons h hs)
  obtain data2 where h: "handlers_at hs ca data2 rest" "Next (iterator_at t a (h # hs) ca data) = Inr (iterator_at (fst h) (snd h) hs ca data2)"
      "HasNext (iterator_at t a (h # hs) ca data)"
    by (rule Next_handler [OF Cons.prems(2,3)])
  then obtain v1 where v1: "scan_handler ve c t a v = Inr (True, v1)"
      "scan_handlers ve c (iterator_at (fst h) (snd h) hs ca data2) v1 = Inr (Some it, v')"
    using Cons.prems(1) by (subst (asm) scan_handlers.simps) (auto elim!: rbindE split: if_split_asm)
  from Cons.IH [OF v1(2) _ h(1)] Cons.prems(2) scan_handler_flagged [OF v1(1)] flagged_bits [of v1 v]
  show ?case by (auto simp: handler_list_def)
qed

text \<open>The method verifier scans the lists of handlers whose offsets the dex file verifier has collected.\<close>

lemma scanned_offsets:
  assumes "CheckAndGetHandlerOffsets dv c k ptr = Inr (Some offsets, ptr')" "scan_handler_lists ve c k ptr v = Inr (True, v')"
    and "suffix ptr (handler_data c)" "length (handler_data c) < 2 ^ 32" "off \<in> set offsets"
  shows "\<exists>hs ca rest. handler_list_at hs ca (drop (unat off) (handler_data c)) rest \<and> (\<forall>h \<in> set (handler_list hs ca). flagged v (snd h))"
  using assms
proof (induction k arbitrary: ptr offsets v)
  case 0
  then show ?case by simp
next
  case (Suc k)
  let ?o = "length (handler_data c) - length ptr"
  obtain ptr1 offsets1 where *: "check_handler_list dv c ptr = Inr (True, ptr1)"
      "CheckAndGetHandlerOffsets dv c k ptr1 = Inr (Some offsets1, ptr')" "offsets = of_nat ?o # offsets1"
    using Suc.prems(1) by (auto simp: Let_def elim!: rbindE split: if_split_asm)
  obtain hs ca where at: "suffix ptr1 ptr" "handler_list_at hs ca ptr ptr1" using check_handler_list_at [OF *(1)] by blast
  obtain t a hs' ca' data' where first: "handler_list hs ca = (t, a) # handler_list hs' ca'" "length hs' < 2 ^ 31"
      "handlers_at hs' ca' data' ptr1" "Init_data ptr = Inr (iterator_at t a hs' ca' data')"
    by (rule Init_data_first [OF at(2)])
  then obtain it v1 ptr2 where scan: "scan_handlers ve c (iterator_at t a hs' ca' data') v = Inr (Some it, v1)"
      "EndDataPointer it = Inr ptr2" "scan_handler_lists ve c k ptr2 v1 = Inr (True, v')"
    using Suc.prems(2) by (auto elim!: rbindE split: option.split_asm)
  note flags = scan_handlers_flagged [OF scan(1) first(2,3), folded first(1)]
  have "unat (of_nat ?o :: u32) = ?o" using Suc.prems(4) by (simp add: unsigned_of_nat take_bit_nat_eq_self)
  then have here: "drop (unat (of_nat ?o :: u32)) (handler_data c) = ptr" using suffix_drop [OF Suc.prems(3)] by simp
  show ?case
  proof (cases "off = of_nat ?o")
    case True
    with at(2) here have "handler_list_at hs ca (drop (unat off) (handler_data c)) ptr1" by simp
    with flags show ?thesis by blast
  next
    case False
    have "suffix ptr1 (handler_data c)" using at(1) Suc.prems(3) by (rule suffix_order.trans)
    with Suc.IH [OF *(2) _ _ Suc.prems(4), of v1] scan(2,3) flags False *(3) Suc.prems(5) flagged_bits [of v1 v]
    show ?thesis by auto
  qed
qed

lemma scan_handler_lists_kept: "scan_handler_lists ve c k ptr v = Inr (True, v') \<Longrightarrow> opcode_bits v' = opcode_bits v"
proof (induction k arbitrary: ptr v)
  case (Suc k)
  have list: "scan_handlers ve c it v = Inr (Some it', v1) \<Longrightarrow> opcode_bits v1 = opcode_bits v" for it it' v v1
  proof (induction ve c it v rule: scan_handlers.induct)
    case (1 ve c it v)
    then show ?case
      by (subst (asm) (2) scan_handlers.simps) (fastforce elim!: rbindE split: if_split_asm dest: scan_handler_flagged)
  qed
  from Suc show ?case by (fastforce elim!: rbindE split: option.split_asm dest!: list)
qed simp

lemma ScanTryCatchBlocks_kept: "ScanTryCatchBlocks ve c v = Inr (True, v') \<Longrightarrow> opcode_bits v' = opcode_bits v"
  by (auto simp: ScanTryCatchBlocks_def passes elim!: rbindE split: if_split_asm dest!: scan_tries_kept scan_handler_lists_kept)

lemma check_tries_offsets: "check_tries n offsets l tis \<Longrightarrow> ti \<in> set tis \<Longrightarrow> ucast (handler_off ti) \<in> set offsets"
  by (induction tis arbitrary: l) (auto simp: Let_def split: if_split_asm)

lemma scanned_tries:
  assumes "CheckIntraCodeItem dv p padding c = Inr (Some q)" "code_item_fits c" "ScanTryCatchBlocks ve c v = Inr (True, v')" "ti \<in> set (try_items c)"
  shows "\<exists>hs ca rest. handler_list_at hs ca (drop (unat (handler_off ti)) (handler_data c)) rest \<and> (\<forall>h \<in> set (handler_list hs ca). flagged v (snd h))"
proof -
  have some: "try_items c \<noteq> []" using assms(4) by auto
  then obtain k ptr offsets ptr' where dec: "DecodeUnsignedLeb128 (handler_data c) = Inr (k, ptr)"
    and offs: "CheckAndGetHandlerOffsets dv c (unat k) ptr = Inr (Some offsets, ptr')"
    and tries: "check_tries (Dex_File_Verifier.insns_size_in_code_units c) offsets 0 (try_items c)"
    using assms(1) by (auto simp: CheckIntraCodeItem_def GetCatchHandlerData_def elim!: guard_trueE rbindE
        split: if_split_asm option.split_asm)
  obtain v1 where v1: "scan_tries ve c (try_items c) v = Inr (True, v1)" "scan_handler_lists ve c (unat k) ptr v1 = Inr (True, v')"
    using assms(3) some dec by (auto simp: ScanTryCatchBlocks_def passes GetCatchHandlerData_def)
  from scanned_offsets [OF offs v1(2) decode_suffix(1) [OF dec] _ check_tries_offsets [OF tries assms(4)]] assms(2)
    flagged_bits [OF scan_tries_kept [OF v1(1)]]
  show ?thesis by (simp add: code_item_fits_def)
qed

lemma found_flagged:
  assumes "CheckIntraCodeItem dv p padding c = Inr (Some q)" "code_item_fits c" "ScanTryCatchBlocks ve c v = Inr (True, v')"
    and "rbind (new_CatchHandlerIterator c a) (\<lambda>it. find_catch resolve assignable e it w) = Inr (found, w')" "found \<noteq> kDexNoIndex"
  shows "flagged v found"
proof (cases "covering_try c a")
  case None
  with search_covering_try [OF checked_tries(2) [OF assms(1,2)], of a undefined undefined resolve assignable e w] assms(4,5)
  show ?thesis by simp
next
  case (Some ti)
  then have "ti \<in> set (try_items c)" by (auto simp: covering_try_def find_Some_iff)
  from scanned_tries [OF assms(1-3) this] obtain hs ca rest where
      at: "handler_list_at hs ca (drop (unat (handler_off ti)) (handler_data c)) rest"
    and addr: "\<forall>h \<in> set (handler_list hs ca). flagged v (snd h)" by blast
  have "choose_handler resolve assignable e (handler_list hs ca) w = (found, w')"
    using search_covering_try [OF checked_tries(2) [OF assms(1,2)], of a "\<lambda>_. hs" "\<lambda>_. ca" resolve assignable e w] at Some assms(4) by fastforce
  with choose_handler_address [OF this] addr assms(5) show ?thesis by auto
qed

section \<open>Verified methods\<close>

text \<open>What \<open>Verify\<close> has established of every instruction.\<close>

definition statically_checked :: "'w verifier_env \<Rightarrow> CodeItem \<Rightarrow> 'w MethodVerifier \<Rightarrow> bool" where
  "statically_checked ve c v \<longleftrightarrow> ins_size c \<le> registers_size c \<and> length (opcode_bits v) = length (insns c) \<and>
     (\<forall>a. flagged v a \<longrightarrow> insn_start c (unat a)) \<and> (\<exists>v'. ScanTryCatchBlocks ve c v = Inr (True, v')) \<and>
     (\<forall>k < length (insns c). insn_start c k \<longrightarrow> (\<exists>n. SizeInCodeUnits (insn_at c k) = Inr n \<and> k + n \<le> length (insns c)) \<and>
        (\<exists>u u'. opcode_bits u = opcode_bits v \<and> VerifyInstruction ve c (insn_at c k) (of_nat k) u = Inr (True, u')))"

lemma Verify_static:
  assumes "Verify ve acc (Some c) code_flow v = Inr (True, v')"
  shows "\<exists>v1. statically_checked ve c v1"
proof -
  let ?v0 = "v\<lparr>insn_flags := replicate (length (insns c)) 0\<rparr>"
  obtain v1 v2 v3 v4 v5 where *: "ComputeWidthsAndCountOps ve c ?v0 = Inr (True, v1)" "ScanTryCatchBlocks ve c v1 = Inr (True, v2)"
      "mark SetBranchTarget 0 v2 = Inr v3" "mark SetCompileTimeInfoPoint 0 v3 = Inr v4" "verify_instructions ve c 0 v4 = Inr (True, v5)"
      "ins_size c \<le> registers_size c"
    using assms by (auto simp: Verify_def passes VerifyInstructions_def Let_def not_less elim!: rbindE split: if_split_asm)
  note widths = widths_checked [OF *(1)]
  have bits: "opcode_bits v4 = opcode_bits v1"
    using marks_keep(2) [OF *(3)] marks_keep(3) [OF *(4)] ScanTryCatchBlocks_kept [OF *(2)] by simp
  have len: "length (opcode_bits v1) = length (insns c)" using widths(1) by simp
  then have "\<forall>a. flagged v1 a \<longrightarrow> insn_start c (unat a)" using widths(2) by (simp add: flagged_def)
  moreover have "(\<exists>n. SizeInCodeUnits (insn_at c k) = Inr n \<and> k + n \<le> length (insns c)) \<and>
      (\<exists>u u'. opcode_bits u = opcode_bits v1 \<and> VerifyInstruction ve c (insn_at c k) (of_nat k) u = Inr (True, u'))"
    if "insn_start c k" "k < length (insns c)" for k
    using widths(3) [OF _ that] verify_instructions_each [OF *(5) that] bits by auto
  ultimately show ?thesis using len *(2,6) unfolding statically_checked_def by blast
qed

text \<open>The beginning of a payload, which looks like a NOP.\<close>

definition payload_at :: "CodeItem \<Rightarrow> nat \<Rightarrow> bool" where
  "payload_at c k \<longleftrightarrow> Fetch16 0 (insn_at c k) \<in> {Inr kPackedSwitchSignature, Inr kSparseSwitchSignature, Inr kArrayDataSignature}"

lemma opcode_size:
  assumes "SizeInCodeUnits ins = Inr n" "Fetch16 0 ins = Inr d" "Fetch16 0 ins \<notin> {Inr kPackedSwitchSignature, Inr kSparseSwitchSignature, Inr kArrayDataSignature}"
  shows "n = insn_size (OpcodeOf d)"
proof -
  have "kInstructionSizeInCodeUnits op < 0 \<longleftrightarrow> op = NOP" for op
    by (cases "kInstructionFormats op") (simp_all add: kInstructionSizeInCodeUnits_def FormatOf_def less_eq_Format_def format_rank_def)
  with assms show ?thesis
    by (auto simp: SizeInCodeUnits_def SizeInCodeUnitsComplexOpcode_def Opcode_def insn_size_def Let_def split: if_split_asm)
qed

lemma unat_add_size:
  assumes "unat (pc :: u32) + n \<le> length (insns c)" "code_item_fits c"
  shows "unat (pc + of_nat n) = unat pc + n"
proof -
  have "unat pc + n < 2 ^ 32" using assms by (simp add: code_item_fits_def)
  then show ?thesis by (simp add: unat_word_ariths unsigned_of_nat take_bit_nat_eq_self)
qed

text \<open>One step of the interpreter from the beginning of an instruction of a verified method.\<close>

lemma verified_step:
  assumes "CheckIntraCodeItem dv p padding c = Inr (Some q)" "code_item_fits c" "Verify ve acc (Some c) code_flow v = Inr (True, v')"
    and "insn_start c (unat pc)" "\<not> payload_at c (unat pc)"
    and "execute_insn mini_trace c pc rt st = Inr (Go pc', st')" "code_of rt (sf_method (frame st)) = Some c"
    and "Fetch16 0 (insn_at c (unat pc)) = Inr d"
  shows "insn_start c (unat pc') \<and> (unat pc' < length (insns c) \<or> CanFlowThrough (OpcodeOf d) \<and> pc' = pc + of_nat (insn_size (OpcodeOf d)))"
proof -
  let ?ins = "insn_at c (unat pc)"
  obtain v1 v2 where *: "\<And>a. flagged v1 a \<Longrightarrow> insn_start c (unat a) \<and> unat a < length (insns c)" "ScanTryCatchBlocks ve c v1 = Inr (True, v2)"
    "\<And>k. insn_start c k \<Longrightarrow> k < length (insns c) \<Longrightarrow> (\<exists>n. SizeInCodeUnits (insn_at c k) = Inr n \<and> k + n \<le> length (insns c)) \<and>
      (\<exists>u u'. opcode_bits u = opcode_bits v1 \<and> VerifyInstruction ve c (insn_at c k) (of_nat k) u = Inr (True, u'))"
    using Verify_static [OF assms(3)] unfolding statically_checked_def flagged_def by metis
  note d = assms(8)
  have flow: "legal_flow rt (sf_method (frame st)) \<lparr>code = c, dex_pc = pc, inst_data = d\<rparr> (Go pc')"
    using execute_insn_flow [OF assms(6)] d by (auto simp: insn_at_code_at)
  have pc: "unat pc < length (insns c)" using d by (auto simp: Fetch16_def split: if_split_asm)
  obtain n u u' where n: "SizeInCodeUnits ?ins = Inr n" "unat pc + n \<le> length (insns c)"
    and u: "opcode_bits u = opcode_bits v1" "VerifyInstruction ve c ?ins pc u = Inr (True, u')"
    using *(3) [OF assms(4) pc] by auto
  have size: "n = insn_size (OpcodeOf d)" using opcode_size [OF n(1) d] assms(5) by (simp add: payload_at_def)
  have behind: "insn_start c (unat (pc + of_nat n))" using following [OF assms(4) pc n(1)] unat_add_size [OF n(2) assms(2)] by simp
  obtain u1 u2 where extra: "verify_extra ve c ?ins pc True u1 = Inr (Some True, u2)" "opcode_bits u1 = opcode_bits v1"
    using u by (auto elim!: VerifyInstruction_parts)
  have target: "insn_start c (unat a) \<and> unat a < length (insns c)" if "unat a < length (opcode_bits u1) \<and> opcode_bits u1 ! unat a" for a :: u32
    using *(1) [of a] that extra(2) by (simp add: flagged_def)
  have op: "Opcode ?ins = Inr (OpcodeOf d)" using d by (simp add: Opcode_def)
  consider (through) "CanFlowThrough (OpcodeOf d)" "pc' = pc + of_nat n"
    | (branch) off where "IsBranch (OpcodeOf d)" "GetTargetOffset ?ins = Inr off" "pc' = pc + off"
    | (switch) off where "IsSwitch (OpcodeOf d)" "switch_offset \<lparr>code = c, dex_pc = pc, inst_data = d\<rparr> off" "pc' = pc + off"
    | (handler) "pc' \<noteq> kDexNoIndex" "find_next rt (sf_method (frame st)) pc pc'"
    using flow size by (auto simp: Let_def inst_def insn_at_code_at)
  then show ?thesis
  proof cases
    case through
    then show ?thesis using behind size by simp
  next
    case branch
    then show ?thesis using target checked_branch [OF extra(1) op] by simp
  next
    case switch
    have "insn_size (OpcodeOf d) = 3" "CanFlowThrough (OpcodeOf d)" using switch_size [OF switch(1)] by simp_all
    then show ?thesis using target checked_switch [OF extra(1) op switch(1) d switch(2)] behind size switch(3) by auto
  next
    case handler
    then obtain e w w' where "rbind (new_CatchHandlerIterator c pc)
        (\<lambda>it. find_catch (catch_resolve rt (sf_method (frame st))) (IsAssignableFrom rt) e it w) = Inr (pc', w')"
      using assms(7) by (auto simp: find_next_def)
    from *(1) [OF found_flagged [OF assms(1,2) *(2) this handler(1)]] show ?thesis by blast
  qed
qed

lemma start_bound: "statically_checked ve c v \<Longrightarrow> insn_start c k \<Longrightarrow> k \<le> length (insns c)"
  by (erule insn_walk.cases) (force simp: statically_checked_def)+

text \<open>The addresses and states that the interpreter passes, as long as it does not run into a payload.\<close>

inductive run_from :: "bool \<Rightarrow> CodeItem \<Rightarrow> ('o, 's) runtime \<Rightarrow> u32 \<times> ('o, 's) istate \<Rightarrow> u32 \<times> ('o, 's) istate \<Rightarrow> bool"
  for mini_trace c rt s where
  start: "run_from mini_trace c rt s s"
| step: "run_from mini_trace c rt s (pc, st) \<Longrightarrow> \<not> payload_at c (unat pc) \<Longrightarrow>
    execute_insn mini_trace c pc rt st = Inr (Go pc', st') \<Longrightarrow> run_from mini_trace c rt s (pc', st')"

text \<open>C5: the two verifiers and the interpreter together. When the dex file verifier has accepted a
  code item and the static checks of the method verifier have passed, the interpreter, started at
  address 0 of the method, is always at the beginning of an instruction or at the end of the code,
  through branches, switches and exception handlers alike, as long as control does not flow into
  the payload of a switch or an array, which only the check of the types rules out.\<close>

theorem verified_run:
  assumes "CheckIntraCodeItem dv p padding c = Inr (Some q)" "code_item_fits c" "Verify ve acc (Some c) code_flow v = Inr (True, v')"
    and "run_from mini_trace c rt (0, st) (pc, st')" "code_of rt (sf_method (frame st)) = Some c"
  shows "insn_start c (unat pc) \<and> unat pc \<le> length (insns c)"
proof -
  obtain v1 where v1: "statically_checked ve c v1" using Verify_static [OF assms(3)] ..
  have "insn_start c (unat (fst s)) \<and> sf_method (frame (snd s)) = sf_method (frame st)"
    if "run_from mini_trace c rt (0, st) s" for s
    using that
  proof (induction rule: run_from.induct)
    case start
    show ?case by (simp add: first)
  next
    case (step pc st1 pc' st2)
    from step(3) have "sf_method (frame st2) = sf_method (frame st1)"
      using keeps_frame_like [OF execute_insn_keeps [OF step(3)]] by (simp add: frame_like_def)
    moreover obtain d where "Fetch16 0 (insn_at c (unat pc)) = Inr d"
      using execute_insn_flow [OF step(3)] by (auto simp: insn_at_code_at)
    ultimately show ?case using verified_step [OF assms(1-3) _ step(2,3)] step(4) assms(5) by simp
  qed
  from this [OF assms(4)] start_bound [OF v1] show ?thesis by simp
qed

definition sample_env :: "unit verifier_env" where
  "sample_env = \<lparr>dex_header = header sample_verifier, StringByTypeIdx = \<lambda>_. [], insns_base = 0x1110, IsAotCompiler = False,
     can_load_classes = True, allow_soft_failures = True, verify_to_dump = False, ResolveType = \<lambda>_ w. (0, w), ClearException = id\<rparr>"

lemma branch_code_verified:
  "CheckIntraCodeItem sample_verifier 0x1100 0 branch_code = Inr (Some 0x111a)" "code_item_fits branch_code"
  "\<exists>v'. Verify sample_env 1 (Some branch_code) (\<lambda>_. passed) (new_MethodVerifier ()) = Inr (True, v')"
proof -
  show "CheckIntraCodeItem sample_verifier 0x1100 0 branch_code = Inr (Some 0x111a)" by code_simp
  show "code_item_fits branch_code" by (simp add: code_item_fits_def branch_code_def)
  have "map_sum id fst (Verify sample_env 1 (Some branch_code) (\<lambda>_. passed) (new_MethodVerifier ())) = Inr True"
    by code_simp
  then show "\<exists>v'. Verify sample_env 1 (Some branch_code) (\<lambda>_. passed) (new_MethodVerifier ()) = Inr (True, v')"
    by (cases "Verify sample_env 1 (Some branch_code) (\<lambda>_. passed) (new_MethodVerifier ())") auto
qed

theorem verified_run_witness:
  "\<exists>st'. run_from False branch_code (idle_runtime branch_code) (0, idle_state branch_code) (4, st') \<and> insn_start branch_code 4"
proof -
  let ?rt = "idle_runtime branch_code" and ?st = "idle_state branch_code"
  obtain st1 st2 where run: "execute_insn False branch_code 0 ?rt ?st = Inr (Go 1, st1)" "execute_insn False branch_code 1 ?rt st1 = Inr (Go 4, st2)"
    by (simp add: branch_code_simps)
  have "\<not> payload_at branch_code (unat 0)" "\<not> payload_at branch_code (unat 1)" by code_simp+
  with run have "run_from False branch_code ?rt (0, ?st) (4, st2)"
    using run_from.step [OF run_from.step [OF run_from.start]] by blast
  moreover have "code_of ?rt (sf_method (frame ?st)) = Some branch_code" by (simp add: idle_runtime_def idle_state_def Create_def)
  moreover obtain v' where "Verify sample_env 1 (Some branch_code) (\<lambda>_. passed) (new_MethodVerifier ()) = Inr (True, v')"
    using branch_code_verified(3) ..
  ultimately show ?thesis using verified_run [OF branch_code_verified(1,2)] by fastforce
qed

end
