(* ===== verification/Verified_Progress.thy ===== *)
theory Verified_Progress
  imports Verified_Code
begin

text \<open>
  Progress of verified code: an instruction that cannot throw and has passed the static checks is
  executed without a fault, since its registers are in the frame, its units in the code and the
  table of a switch behind it complete. Code without backward branches therefore ends.
\<close>

section \<open>Operands\<close>

text \<open>What the static checks establish of the operands in the registers of an instruction.\<close>

definition reg_checked :: "u32 \<Rightarrow> u32 \<Rightarrow> u32 \<Rightarrow> u32 res \<Rightarrow> nat \<Rightarrow> bool" where
  "reg_checked f narrow wide r n \<longleftrightarrow>
     (f = narrow \<longrightarrow> (\<exists>a. r = Inr a \<and> unat a < n)) \<and> (f = wide \<longrightarrow> (\<exists>a. r = Inr a \<and> unat (a + 1) < n))"

definition checked_at :: "insn_ctx \<Rightarrow> nat \<Rightarrow> bool" where
  "checked_at x n \<longleftrightarrow> (let flags = kInstructionVerifyFlags (OpcodeOf (inst_data x)) in
     Fetch16 0 (inst x) = Inr (inst_data x) \<and> insn_size (OpcodeOf (inst_data x)) \<le> length (inst x) \<and>
     reg_checked (flags AND 0x3) kVerifyRegA kVerifyRegAWide (VRegA (inst x)) n \<and>
     reg_checked (flags AND 0x1fc) kVerifyRegB kVerifyRegBWide (VRegB (inst x)) n \<and>
     reg_checked (flags AND 0x3e00) kVerifyRegC kVerifyRegCWide (VRegC (inst x)) n)"

definition reads :: "u8 \<Rightarrow> nat \<Rightarrow> operand \<Rightarrow> bool" where
  "reads op k b \<longleftrightarrow> (\<forall>x n. OpcodeOf (inst_data x) = op \<and> checked_at x n \<longrightarrow> (\<exists>r. b x = Inr r \<and> r + k \<le> n))"

lemma unat_succ: "unat (ucast (v :: u8) + 1 :: u32) = unat v + 1" "unat (ucast (w :: u16) + 1 :: u32) = unat w + 1"
    "unat (ucast (v :: u8) :: u32) = unat v"
  using unsigned_less [of v, where 'a = nat] unsigned_less [of w, where 'a = nat]
  by (simp_all add: unat_word_ariths unsigned_ucast_eq take_bit_nat_eq_self)

text \<open>An operand of the interpreter is the register that the verifier has checked.\<close>

definition operand_is :: "(insn \<Rightarrow> u32 res) \<Rightarrow> u8 \<Rightarrow> operand \<Rightarrow> bool" where
  "operand_is vreg op b \<longleftrightarrow> (\<forall>x a. OpcodeOf (inst_data x) = op \<and> Fetch16 0 (inst x) = Inr (inst_data x) \<and> vreg (inst x) = Inr a \<longrightarrow>
     b x = Inr (unat a) \<and> unat (a + 1) = unat a + 1)"

lemmas operand_defs = operand_is_def rd_def ri_def Opcode_def unat_succ

lemma operands_A:
  "FormatOf op = k11n \<Longrightarrow> operand_is VRegA op (rd VRegA_11n)" "FormatOf op = k11x \<Longrightarrow> operand_is VRegA op (rd VRegA_11x)"
  "FormatOf op = k12x \<Longrightarrow> operand_is VRegA op (rd VRegA_12x)" "FormatOf op = k21h \<Longrightarrow> operand_is VRegA op (rd VRegA_21h)"
  "FormatOf op = k21s \<Longrightarrow> operand_is VRegA op (rd VRegA_21s)" "FormatOf op = k21t \<Longrightarrow> operand_is VRegA op (rd VRegA_21t)"
  "FormatOf op = k22b \<Longrightarrow> operand_is VRegA op (rd VRegA_22b)" "FormatOf op = k22s \<Longrightarrow> operand_is VRegA op (rd VRegA_22s)"
  "FormatOf op = k22t \<Longrightarrow> operand_is VRegA op (rd VRegA_22t)" "FormatOf op = k22x \<Longrightarrow> operand_is VRegA op (rd VRegA_22x)"
  "FormatOf op = k23x \<Longrightarrow> operand_is VRegA op (rd VRegA_23x)" "FormatOf op = k31i \<Longrightarrow> operand_is VRegA op (rd VRegA_31i)"
  "FormatOf op = k31t \<Longrightarrow> operand_is VRegA op (rd VRegA_31t)" "FormatOf op = k51l \<Longrightarrow> operand_is VRegA op (rd VRegA_51l)"
  "FormatOf op = k32x \<Longrightarrow> operand_is VRegA op (ri VRegA_32x)"
  by (auto simp: operand_defs VRegA_def rbind_eq_Inr)

lemma operands_BC:
  "FormatOf op = k12x \<Longrightarrow> operand_is VRegB op (rd VRegB_12x)" "FormatOf op = k22b \<Longrightarrow> operand_is VRegB op (ri VRegB_22b)"
  "FormatOf op = k22s \<Longrightarrow> operand_is VRegB op (rd VRegB_22s)" "FormatOf op = k22t \<Longrightarrow> operand_is VRegB op (rd VRegB_22t)"
  "FormatOf op = k22x \<Longrightarrow> operand_is VRegB op (ri VRegB_22x)" "FormatOf op = k23x \<Longrightarrow> operand_is VRegB op (ri VRegB_23x)"
  "FormatOf op = k32x \<Longrightarrow> operand_is VRegB op (ri VRegB_32x)" "FormatOf op = k23x \<Longrightarrow> operand_is VRegC op (ri VRegC_23x)"
  by (auto simp: operand_defs VRegB_def VRegC_def rbind_eq_Inr)

lemma reads_narrow:
  "kInstructionVerifyFlags op AND 0x3 = kVerifyRegA \<Longrightarrow> operand_is VRegA op b \<Longrightarrow> reads op 1 b"
  "kInstructionVerifyFlags op AND 0x1fc = kVerifyRegB \<Longrightarrow> operand_is VRegB op b \<Longrightarrow> reads op 1 b"
  "kInstructionVerifyFlags op AND 0x3e00 = kVerifyRegC \<Longrightarrow> operand_is VRegC op b \<Longrightarrow> reads op 1 b"
  by (fastforce simp: reads_def checked_at_def reg_checked_def operand_is_def Let_def)+

lemma reads_wide:
  "kInstructionVerifyFlags op AND 0x3 = kVerifyRegAWide \<Longrightarrow> operand_is VRegA op b \<Longrightarrow> reads op 2 b"
  "kInstructionVerifyFlags op AND 0x1fc = kVerifyRegBWide \<Longrightarrow> operand_is VRegB op b \<Longrightarrow> reads op 2 b"
  "kInstructionVerifyFlags op AND 0x3e00 = kVerifyRegCWide \<Longrightarrow> operand_is VRegC op b \<Longrightarrow> reads op 2 b"
  by (fastforce simp: reads_def checked_at_def reg_checked_def operand_is_def Let_def)+

section \<open>Values\<close>

definition frame_fits :: "ShadowFrame \<Rightarrow> nat \<Rightarrow> bool" where
  "frame_fits f n \<longleftrightarrow> number_of_vregs f = n \<and> length (slots f) = 2 * n"

lemma getters_fit:
  assumes "frame_fits f n"
  shows "r + 1 \<le> n \<Longrightarrow> \<exists>v. GetVReg r f = Inr v" "r + 1 \<le> n \<Longrightarrow> \<exists>v. GetVRegFloat r f = Inr v"
    "r + 1 \<le> n \<Longrightarrow> \<exists>v. GetVRegReference r f = Inr v" "r + 2 \<le> n \<Longrightarrow> \<exists>v. GetVRegLong r f = Inr v"
    "r + 2 \<le> n \<Longrightarrow> \<exists>v. GetVRegDouble r f = Inr v"
  using assms by (auto simp: frame_fits_def access_defs load_slot_def ref_slot_def)

lemma setters_fit:
  assumes "frame_fits f n"
  shows "r + 1 \<le> n \<Longrightarrow> \<exists>f'. SetVReg r v f = Inr f' \<and> frame_fits f' n" "r + 1 \<le> n \<Longrightarrow> \<exists>f'. SetVRegFloat r v f = Inr f' \<and> frame_fits f' n"
    "r + 1 \<le> n \<Longrightarrow> \<exists>f'. SetVRegReference r v f = Inr f' \<and> frame_fits f' n"
    "r + 2 \<le> n \<Longrightarrow> \<exists>f'. SetVRegLong r w f = Inr f' \<and> frame_fits f' n" "r + 2 \<le> n \<Longrightarrow> \<exists>f'. SetVRegDouble r w f = Inr f' \<and> frame_fits f' n"
  using assms by (auto simp: frame_fits_def access_defs store_slot_def ref_slot_def)

definition val_fits :: "u8 \<Rightarrow> ('o, 's, 'v) val \<Rightarrow> bool" where
  "val_fits op val \<longleftrightarrow> (\<forall>rt x st n. OpcodeOf (inst_data x) = op \<and> checked_at x n \<and> frame_fits (frame st) n \<longrightarrow> (\<exists>v. val rt x st = Inr v))"

lemma reg_fits:
  "reads op 1 b \<Longrightarrow> val_fits op (reg GetVReg b)" "reads op 1 b \<Longrightarrow> val_fits op (reg GetVRegFloat b)"
  "reads op 1 b \<Longrightarrow> val_fits op (reg GetVRegReference b)" "reads op 2 b \<Longrightarrow> val_fits op (reg GetVRegLong b)"
  "reads op 2 b \<Longrightarrow> val_fits op (reg GetVRegDouble b)"
  unfolding val_fits_def reg_def reads_def by (fastforce dest: getters_fit)+

definition units_fit :: "nat \<Rightarrow> (insn \<Rightarrow> 'v res) \<Rightarrow> bool" where
  "units_fit k vreg \<longleftrightarrow> (\<forall>ins. k \<le> length ins \<longrightarrow> (\<exists>v. vreg ins = Inr v))"

lemma readers_fit:
  "units_fit 2 VRegA_20t" "units_fit 3 VRegA_30t" "units_fit 2 VRegB_21s" "units_fit 2 VRegB_21h" "units_fit 2 VRegB_21t" "units_fit 3 VRegB_31i"
  "units_fit 5 VRegB_51l" "units_fit 2 VRegC_22s" "units_fit 2 VRegC_22b" "units_fit 2 VRegC_22t"
  by (auto simp: units_fit_def VRegA_20t_def VRegA_30t_def VRegB_21s_def VRegB_21h_def VRegB_21t_def VRegB_31i_def VRegB_51l_def
      VRegC_22s_def VRegC_22b_def VRegC_22t_def Fetch16_def Fetch32_def)

lemma imm_fits: "units_fit (insn_size op) vreg \<Longrightarrow> val_fits op (imm vreg cast)"
  by (fastforce simp: val_fits_def imm_def units_fit_def checked_at_def Let_def)

lemma val_fitsD: "val_fits op val \<Longrightarrow> OpcodeOf (inst_data x) = op \<Longrightarrow> checked_at x n \<Longrightarrow> frame_fits (frame st) n \<Longrightarrow> \<exists>v. val rt x st = Inr v"
  unfolding val_fits_def by blast

lemma val_fits_by:
  "val_fits op a \<Longrightarrow> (\<And>rt x st u. a rt x st = Inr u \<Longrightarrow> \<exists>v. val rt x st = Inr v) \<Longrightarrow> val_fits op val"
  "val_fits op a \<Longrightarrow> val_fits op b \<Longrightarrow> (\<And>rt x st u w. a rt x st = Inr u \<Longrightarrow> b rt x st = Inr w \<Longrightarrow> \<exists>v. val rt x st = Inr v) \<Longrightarrow> val_fits op val"
  unfolding val_fits_def by metis+

lemma vals_fit:
  "val_fits op (imm_d f)" "val_fits op (result_value g)" "val_fits op a \<Longrightarrow> val_fits op (un h a)" "val_fits op a \<Longrightarrow> val_fits op (fp_un fu a)"
  "val_fits op a \<Longrightarrow> val_fits op b \<Longrightarrow> val_fits op (bin k a b)" "val_fits op c \<Longrightarrow> val_fits op d \<Longrightarrow> val_fits op (fp_bin fb c d)"
proof -
  show "val_fits op (imm_d f)" "val_fits op (result_value g)" by (simp_all add: val_fits_def imm_d_def result_value_def)
  show "val_fits op a \<Longrightarrow> val_fits op (un h a)" "val_fits op a \<Longrightarrow> val_fits op (fp_un fu a)"
    by (erule val_fits_by(1), simp add: un_def fp_un_def)+
  show "val_fits op a \<Longrightarrow> val_fits op b \<Longrightarrow> val_fits op (bin k a b)" by (erule (1) val_fits_by(2)) (simp add: bin_def)
  show "val_fits op c \<Longrightarrow> val_fits op d \<Longrightarrow> val_fits op (fp_bin fb c d)" by (erule (1) val_fits_by(2)) (simp add: fp_bin_def)
qed

section \<open>Handlers\<close>

text \<open>A handler that goes on, with a frame of the same size.\<close>

definition runs :: "u8 \<Rightarrow> ('o, 's) handler \<Rightarrow> bool" where
  "runs op h \<longleftrightarrow> (\<forall>rt x st n. OpcodeOf (inst_data x) = op \<and> checked_at x n \<and> frame_fits (frame st) n \<longrightarrow>
     (\<exists>pc st'. h rt x st = Inr (Go pc, st')))"

lemma nop_runs: "runs op nop"
  by (simp add: runs_def nop_def next_insn_def)

definition sets :: "nat \<Rightarrow> (nat \<Rightarrow> 'v \<Rightarrow> ShadowFrame \<Rightarrow> ShadowFrame res) \<Rightarrow> bool" where
  "sets k setter \<longleftrightarrow> (\<forall>f n r v. frame_fits f n \<and> r + k \<le> n \<longrightarrow> (\<exists>f'. setter r v f = Inr f'))"

lemma setters_set: "sets 1 SetVReg" "sets 1 SetVRegFloat" "sets 1 SetVRegReference" "sets 2 SetVRegLong" "sets 2 SetVRegDouble"
  unfolding sets_def by (metis setters_fit(1), metis setters_fit(2), metis setters_fit(3), metis setters_fit(4), metis setters_fit(5))

lemma put_runs_by:
  fixes val :: "('o, 's, 'v) val"
  assumes "sets k setter" "val_fits op val" "reads op k a"
  shows "runs op (put setter a val n)"
  unfolding runs_def
proof (intro allI impI, elim conjE)
  fix rt :: "('o, 's) runtime" and x and st :: "('o, 's) istate" and m
  assume *: "OpcodeOf (inst_data x) = op" "checked_at x m" "frame_fits (frame st) m"
  obtain v where "val rt x st = Inr v" using val_fitsD [OF assms(2) *] by blast
  moreover obtain r where r: "a x = Inr r" "r + k \<le> m" using assms(3) * unfolding reads_def by blast
  moreover obtain f where "setter r v (frame st) = Inr f" using assms(1) *(3) r(2) unfolding sets_def by blast
  ultimately show "\<exists>pc st'. put setter a val n rt x st = Inr (Go pc, st')" by (simp add: put_def next_insn_def)
qed

lemmas put_runs = put_runs_by [OF setters_set(1)] put_runs_by [OF setters_set(2)] put_runs_by [OF setters_set(3)]
  put_runs_by [OF setters_set(4)] put_runs_by [OF setters_set(5)]

lemma runs_by:
  fixes h :: "('o, 's) handler"
  assumes "reads op 1 a"
    and "\<And>(rt :: ('o, 's) runtime) x st n r. OpcodeOf (inst_data x) = op \<Longrightarrow> checked_at x n \<Longrightarrow> frame_fits (frame st) n \<Longrightarrow>
      a x = Inr r \<Longrightarrow> r + 1 \<le> n \<Longrightarrow> \<exists>pc st'. h rt x st = Inr (Go pc, st')"
  shows "runs op h"
  using assms unfolding runs_def reads_def by metis

lemma put_const_runs:
  fixes val :: "('o, 's, u32) val"
  assumes "val_fits op val" "reads op 1 a"
  shows "runs op (put_const a val n)"
proof (rule runs_by [OF assms(2)])
  fix rt :: "('o, 's) runtime" and x and st :: "('o, 's) istate" and m r
  assume *: "OpcodeOf (inst_data x) = op" "checked_at x m" "frame_fits (frame st) m" and r: "a x = Inr r" "r + 1 \<le> m"
  obtain v where "val rt x st = Inr v" using val_fitsD [OF assms(1) *] by blast
  moreover obtain f where f: "SetVReg r v (frame st) = Inr f" "frame_fits f m" using setters_fit(1) [OF *(3) r(2)] by blast
  moreover obtain g where "SetVRegReference r 0 f = Inr g" using setters_fit(3) [OF f(2) r(2)] by blast
  ultimately show "\<exists>pc st'. put_const a val n rt x st = Inr (Go pc, st')" using r(1) by (simp add: put_const_def next_insn_def)
qed

lemma move_exception_runs:
  assumes "reads op 1 (rd VRegA_11x)"
  shows "runs op (move_exception :: ('o, 's) handler)"
proof (rule runs_by [OF assms])
  fix rt :: "('o, 's) runtime" and x and st :: "('o, 's) istate" and n r
  assume "frame_fits (frame st) n" "rd VRegA_11x x = Inr r" "r + 1 \<le> n"
  moreover from this obtain f where "SetVRegReference r (exception (env st)) (frame st) = Inr f" using setters_fit(3) by blast
  ultimately show "\<exists>pc st'. move_exception rt x st = Inr (Go pc, st')" by (simp add: move_exception_def rd_def next_insn_def)
qed

lemma goto_runs:
  fixes val :: "('o, 's, u32) val"
  assumes "val_fits op val"
  shows "runs op (goto val)"
  unfolding runs_def
proof (intro allI impI, elim conjE)
  fix rt :: "('o, 's) runtime" and x and st :: "('o, 's) istate" and m
  assume *: "OpcodeOf (inst_data x) = op" "checked_at x m" "frame_fits (frame st) m"
  then obtain v where "val rt x st = Inr v" using val_fitsD [OF assms *] by blast
  then show "\<exists>pc st'. goto val rt x st = Inr (Go pc, st')" by (simp add: goto_def branch_def RelativeAt_def)
qed

lemma if_test_runs:
  assumes "insn_size op = 2" "reads op 1 (rd VRegA_22t)" "reads op 1 (rd VRegB_22t)"
  shows "runs op (if_test test :: ('o, 's) handler)"
proof (rule runs_by [OF assms(2)])
  fix rt :: "('o, 's) runtime" and x and st :: "('o, 's) istate" and n r
  assume *: "OpcodeOf (inst_data x) = op" "checked_at x n" "frame_fits (frame st) n" "rd VRegA_22t x = Inr r" "r + 1 \<le> n"
  obtain a where "GetVReg r (frame st) = Inr a" using getters_fit(1) [OF *(3,5)] ..
  moreover obtain s where s: "rd VRegB_22t x = Inr s" "s + 1 \<le> n" using assms(3) *(1,2) unfolding reads_def by blast
  moreover obtain b where "GetVReg s (frame st) = Inr b" using getters_fit(1) [OF *(3) s(2)] ..
  moreover obtain off where "VRegC_22t (inst x) = Inr off"
    using *(1,2) assms(1) readers_fit(10) by (auto simp: checked_at_def units_fit_def Let_def)
  ultimately show "\<exists>pc st'. if_test test rt x st = Inr (Go pc, st')"
    using *(4) by (simp add: if_test_def rd_def branch_def RelativeAt_def next_insn_def)
qed

lemma if_testz_runs:
  assumes "insn_size op = 2" "reads op 1 (rd VRegA_21t)"
  shows "runs op (if_testz test :: ('o, 's) handler)"
proof (rule runs_by [OF assms(2)])
  fix rt :: "('o, 's) runtime" and x and st :: "('o, 's) istate" and n r
  assume *: "OpcodeOf (inst_data x) = op" "checked_at x n" "frame_fits (frame st) n" "rd VRegA_21t x = Inr r" "r + 1 \<le> n"
  obtain a where "GetVReg r (frame st) = Inr a" using getters_fit(1) [OF *(3,5)] ..
  moreover obtain off where "VRegB_21t (inst x) = Inr off"
    using *(1,2) assms(1) readers_fit(5) by (auto simp: checked_at_def units_fit_def Let_def)
  ultimately show "\<exists>pc st'. if_testz test rt x st = Inr (Go pc, st')"
    using *(4) by (simp add: if_testz_def rd_def branch_def RelativeAt_def next_insn_def)
qed

lemmas run_rules = nop_runs put_runs put_const_runs move_exception_runs goto_runs if_test_runs if_testz_runs vals_fit imm_fits readers_fit reg_fits
  reads_narrow reads_wide operands_A operands_BC 

definition goes_on :: "u8 \<Rightarrow> bool" where
  "goes_on op \<longleftrightarrow> \<not> IsThrow op \<and> \<not> IsReturn op \<and> \<not> IsSwitch op"

lemma tables_run:
  "list_all (\<lambda>(op, h). goes_on op \<longrightarrow> runs op h) move_table"
  "list_all (\<lambda>(op, h). goes_on op \<longrightarrow> runs op h) return_table"
  "list_all (\<lambda>(op, h). goes_on op \<longrightarrow> runs op h) const_table"
  "list_all (\<lambda>(op, h). goes_on op \<longrightarrow> runs op h) object_table"
  "list_all (\<lambda>(op, h). goes_on op \<longrightarrow> runs op h) branch_table"
  "list_all (\<lambda>(op, h). goes_on op \<longrightarrow> runs op h) if_table"
  "list_all (\<lambda>(op, h). goes_on op \<longrightarrow> runs op h) aget_table"
  "list_all (\<lambda>(op, h). goes_on op \<longrightarrow> runs op h) aput_table"
  "list_all (\<lambda>(op, h). goes_on op \<longrightarrow> runs op h) get_table"
  "list_all (\<lambda>(op, h). goes_on op \<longrightarrow> runs op h) put_table"
  "list_all (\<lambda>(op, h). goes_on op \<longrightarrow> runs op h) invoke_table"
  "list_all (\<lambda>(op, h). goes_on op \<longrightarrow> runs op h) unary_table"
  "list_all (\<lambda>(op, h). goes_on op \<longrightarrow> runs op h) int_table"
  "list_all (\<lambda>(op, h). goes_on op \<longrightarrow> runs op h) long_table"
  "list_all (\<lambda>(op, h). goes_on op \<longrightarrow> runs op h) float_table"
  "list_all (\<lambda>(op, h). goes_on op \<longrightarrow> runs op h) double_table"
  "list_all (\<lambda>(op, h). goes_on op \<longrightarrow> runs op h) int_2addr_table"
  "list_all (\<lambda>(op, h). goes_on op \<longrightarrow> runs op h) long_2addr_table"
  "list_all (\<lambda>(op, h). goes_on op \<longrightarrow> runs op h) float_2addr_table"
  "list_all (\<lambda>(op, h). goes_on op \<longrightarrow> runs op h) double_2addr_table"
  "list_all (\<lambda>(op, h). goes_on op \<longrightarrow> runs op h) lit16_table"
  "list_all (\<lambda>(op, h). goes_on op \<longrightarrow> runs op h) lit8_table"
  by (simp_all add: table_defs attempt_defs goes_on_def run_rules op_defs del: One_nat_def)

lemma handlers_run: "map_of handlers op = Some h \<Longrightarrow> goes_on op \<Longrightarrow> runs op h"
proof -
  have "list_all (\<lambda>(op, h). goes_on op \<longrightarrow> runs op h) handlers" by (simp add: handlers_def tables_run)
  then show "map_of handlers op = Some h \<Longrightarrow> goes_on op \<Longrightarrow> runs op h" by (auto dest!: map_of_SomeD simp: list_all_iff)
qed

section \<open>Switches\<close>

lemma table_position:
  assumes "Fetch16 1 (table_at c off so) = Inr sz" "length (insns c) < 2 ^ 32"
  shows "table_at c off so = drop (unat (off + so)) (insns c)" "unat (off + so) < length (insns c)"
proof -
  let ?k = "uint off + sint so"
  have k: "0 \<le> ?k" "nat ?k < length (insns c)"
    using assms(1) by (auto simp: Fetch16_def table_at_def code_at_def split: if_split_asm)
  have "unat (off + so) = nat ?k"
  proof -
    have "off + so = word_of_int ?k" by simp
    then have "uint (off + so) = ?k" using k assms(2) by (simp only: uint_word_of_int) (simp add: take_bit_int_eq_self)
    then show ?thesis by (simp flip: nat_uint_eq)
  qed
  with k show "table_at c off so = drop (unat (off + so)) (insns c)" "unat (off + so) < length (insns c)"
    by (simp_all add: table_at_def code_at_def)
qed

lemma not_negative: "\<not> (x :: u32) <s 0 \<Longrightarrow> unat x < 2 ^ 31"
proof -
  assume "\<not> x <s 0"
  then have "0 \<le> sint x" by (simp add: word_sless_alt)
  moreover have "sint x < 2 ^ 31" using sint_lt [of x] by simp
  moreover have "uint x = sint x mod 2 ^ 32" using uint_word_of_int [of "sint x", where 'a = 32] by simp
  ultimately have "uint x = sint x" by simp
  with \<open>sint x < 2 ^ 31\<close> show ?thesis by (simp flip: nat_uint_eq)
qed

lemma table_complete:
  assumes "CheckSwitchTargets ve c off v = Inr (True, v')" "code_item_fits c" "Fetch16 0 (insn_at c (unat off)) = Inr d"
  obtains so sz where "Fetch32 1 (insn_at c (unat off)) = Inr so" "Fetch16 1 (table_at c off so) = Inr sz"
    "(if OpcodeOf d = PACKED_SWITCH then 4 + 2 * unat sz else 2 + 4 * unat sz) \<le> length (table_at c off so)"
proof -
  let ?n = "\<lambda>sz :: u16. (if OpcodeOf d = PACKED_SWITCH then 4 else 2 + 2 * unat sz) + unat sz * 2"
  from assms(1,3) obtain so sz where *: "Fetch32 1 (insn_at c (unat off)) = Inr so" "Fetch16 1 (table_at c off so) = Inr sz"
      "\<not> off + so <s 0" "\<not> off + so + of_nat (?n sz) > Dex_File_Verifier.insns_size_in_code_units c"
    unfolding CheckSwitchTargets_def Let_def passes by (metis sum.inject(2))
  have len: "length (insns c) < 2 ^ 32" using assms(2) by (simp add: code_item_fits_def)
  note pos = table_position [OF *(2) len]
  have "unat (off + so) < 2 ^ 31" using *(3) by (rule not_negative)
  moreover have n: "?n sz < 2 ^ 19" using unsigned_less [of sz, where 'a = nat] by simp
  ultimately have "unat (off + so + of_nat (?n sz)) = unat (off + so) + ?n sz"
    by (simp add: unat_word_ariths unsigned_of_nat take_bit_nat_eq_self)
  with *(4) len have "unat (off + so) + ?n sz \<le> length (insns c)"
    by (simp add: word_less_nat_alt Dex_File_Verifier.insns_size_in_code_units_def unsigned_of_nat take_bit_nat_eq_self not_less)
  with pos(1) that [OF *(1,2)] show thesis by (auto split: if_split_asm)
qed

lemma Fetch32_fits: "n + 1 < length ins \<Longrightarrow> \<exists>v. Fetch32 n ins = Inr v"
  by (simp add: Fetch32_def Fetch16_def)

lemma sparse_total:
  assumes "2 + 4 * unat sz \<le> length data" "0 \<le> lo" "hi < uint sz"
  shows "\<exists>offset. sparse_loop data sz t lo hi = Inr offset"
  using assms
proof (induction data sz t lo hi rule: sparse_loop.induct)
  case (1 data sz t lo hi)
  let ?m = "(lo + hi) div 2"
  show ?case
  proof (cases "lo \<le> hi")
    case False
    then show ?thesis by (subst sparse_loop.simps) simp
  next
    case True
    then have m: "0 \<le> ?m" "?m < uint sz" "nat ?m < unat sz" using 1(4,5) by (auto simp: nat_less_iff)
    obtain key where key: "Fetch32 (2 + 2 * nat ?m) data = Inr key"
      using Fetch32_fits [of "2 + 2 * nat ?m" data] m(3) 1(3) by auto
    obtain offset where "Fetch32 (2 + 2 * unat sz + 2 * nat ?m) data = Inr offset"
      using Fetch32_fits [of "2 + 2 * unat sz + 2 * nat ?m" data] m(3) 1(3) by auto
    with 1(1) [OF True refl key] 1(2) [OF True refl key] 1(3-5) m key True show ?thesis
      by (subst sparse_loop.simps) (simp add: Let_def)
  qed
qed

lemma packed_total:
  assumes "switch_data us pc = Inr data" "GetVReg (unat (VRegA_31t d)) f = Inr t" "Fetch16 1 data = Inr sz" "4 + 2 * unat sz \<le> length data"
  shows "\<exists>offset. DoPackedSwitch us pc f d = Inr offset"
proof -
  have "\<exists>offset. Fetch32 (4 + 2 * nat (sint i)) data = Inr offset" if "0 \<le>s (i :: u32)" "sint i < uint sz" for i
  proof -
    have "nat (sint i) < unat sz" using that by (simp add: word_sle_eq nat_less_iff)
    then show ?thesis using assms(4) by (intro Fetch32_fits) simp
  qed
  moreover obtain key where "Fetch32 2 data = Inr key" using Fetch32_fits [of 2 data] assms(4) by auto
  ultimately show ?thesis using assms(1-3) by (auto simp: DoPackedSwitch_def Let_def)
qed

lemma switch_opcodes: "IsSwitch op \<Longrightarrow> op = PACKED_SWITCH \<or> op = SPARSE_SWITCH"
  by (rule opcode_all [of "\<lambda>op. IsSwitch op \<longrightarrow> op = PACKED_SWITCH \<or> op = SPARSE_SWITCH", THEN mp]) (simp_all add: upto_rec1 op_defs)

lemma switch_runs:
  assumes "CheckSwitchTargets ve c pc v = Inr (True, v')" "code_item_fits c" "Fetch16 0 (insn_at c (unat pc)) = Inr d" "IsSwitch (OpcodeOf d)"
    and "map_of handlers (OpcodeOf d) = Some h" "checked_at \<lparr>code = c, dex_pc = pc, inst_data = d\<rparr> n" "frame_fits (frame st) n"
  shows "\<exists>pc' st'. h rt \<lparr>code = c, dex_pc = pc, inst_data = d\<rparr> st = Inr (Go pc', st')"
proof -
  let ?x = "\<lparr>code = c, dex_pc = pc, inst_data = d\<rparr>"
  obtain so sz where t: "Fetch32 1 (insn_at c (unat pc)) = Inr so" "Fetch16 1 (table_at c pc so) = Inr sz"
    "(if OpcodeOf d = PACKED_SWITCH then 4 + 2 * unat sz else 2 + 4 * unat sz) \<le> length (table_at c pc so)"
    by (rule table_complete [OF assms(1-3)])
  have data: "switch_data (insns c) pc = Inr (table_at c pc so)"
    using t(1) by (simp add: switch_data_def VRegB_31t_def insn_at_code_at table_at_def)
  have ops: "OpcodeOf d = PACKED_SWITCH \<or> OpcodeOf d = SPARSE_SWITCH" using assms(4) by (rule switch_opcodes)
  then have "reads (OpcodeOf d) 1 (rd VRegA_31t)" by (auto simp: run_rules op_defs simp del: One_nat_def)
  then obtain r where "rd VRegA_31t ?x = Inr r" "r + 1 \<le> n" using assms(6) unfolding reads_def by (metis insn_ctx.select_convs(3))
  then obtain tv where tv: "GetVReg (unat (VRegA_31t d)) (frame st) = Inr tv" using getters_fit(1) [OF assms(7)] by (auto simp: rd_def)
  from ops show ?thesis
  proof
    assume op: "OpcodeOf d = PACKED_SWITCH"
    then have "h = goto packed_offset" using assms(5) by (simp add: handlers_def table_defs)
    moreover obtain offset where "DoPackedSwitch (insns c) pc (frame st) d = Inr offset"
      using packed_total [OF data tv t(2)] t(3) op by auto
    ultimately show ?thesis by (simp add: goto_def packed_offset_def branch_def RelativeAt_def)
  next
    assume op: "OpcodeOf d = SPARSE_SWITCH"
    then have "h = goto sparse_offset" using assms(5) by (simp add: handlers_def table_defs)
    moreover obtain offset where "DoSparseSwitch (insns c) pc (frame st) d = Inr offset"
      using sparse_total [of sz "table_at c pc so" 0 "uint sz - 1" tv] t(2,3) op data tv
      by (cases "sz = 0") (auto simp: DoSparseSwitch_def)
    ultimately show ?thesis by (simp add: goto_def sparse_offset_def branch_def RelativeAt_def)
  qed
qed

section \<open>Progress\<close>

lemma operands_checked:
  assumes "Opcode ins = Inr op"
  shows "verify_a ve c ins v = Inr (True, v') \<Longrightarrow>
      reg_checked (kInstructionVerifyFlags op AND 0x3) kVerifyRegA kVerifyRegAWide (VRegA ins) (unat (registers_size c))"
    "verify_b ve c ins v = Inr (True, v') \<Longrightarrow>
      reg_checked (kInstructionVerifyFlags op AND 0x1fc) kVerifyRegB kVerifyRegBWide (VRegB ins) (unat (registers_size c))"
    "verify_c ve c ins v = Inr (True, v') \<Longrightarrow>
      reg_checked (kInstructionVerifyFlags op AND 0x3e00) kVerifyRegC kVerifyRegCWide (VRegC ins) (unat (registers_size c))"
  using assms
  by (auto simp: verify_a_def verify_b_def verify_c_def GetVerifyTypeArgumentA_def GetVerifyTypeArgumentB_def GetVerifyTypeArgumentC_def
      passes reg_checked_def CheckRegisterIndex_def CheckWideRegisterIndex_def not_le word_less_nat_alt)

lemma extra_handled:
  assumes "verify_extra ve c ins off True v = Inr (Some True, v')" "Opcode ins = Inr op"
  shows "\<exists>h. map_of handlers op = Some h"
proof -
  have "kInstructionVerifyFlags op AND 0x5fc000 \<noteq> kVerifyError"
    using assms by (auto simp: verify_extra_def extra_flags Let_def)
  moreover have "kInstructionVerifyFlags op AND 0x5fc000 \<noteq> 0x400000 \<longrightarrow> uint op \<in> {0..0x3d} \<union> {0x44..0x78} \<union> {0x7b..0xf2}"
    by (rule opcode_all [of "\<lambda>op. kInstructionVerifyFlags op AND 0x5fc000 \<noteq> 0x400000 \<longrightarrow> uint op \<in> {0..0x3d} \<union> {0x44..0x78} \<union> {0x7b..0xf2}"])
      (simp add: upto_rec1 op_facts)
  ultimately have "op \<in> fst ` set handlers" by (simp only: handled simp_thms) 
  then show ?thesis by (metis map_of_eq_None_iff not_None_eq)
qed

lemma verified_operands:
  assumes "statically_checked ve c v" "insn_start c (unat pc)" "unat pc < length (insns c)" "\<not> payload_at c (unat pc)"
    and "Fetch16 0 (insn_at c (unat pc)) = Inr d"
  shows "checked_at \<lparr>code = c, dex_pc = pc, inst_data = d\<rparr> (unat (registers_size c))"
    and "\<exists>h. map_of handlers (OpcodeOf d) = Some h"
    and "IsSwitch (OpcodeOf d) \<Longrightarrow> \<exists>u u'. CheckSwitchTargets ve c pc u = Inr (True, u')"
proof -
  let ?ins = "insn_at c (unat pc)"
  have op: "Opcode ?ins = Inr (OpcodeOf d)" using assms(5) by (simp add: Opcode_def)
  obtain n u u' where n: "SizeInCodeUnits ?ins = Inr n" "unat pc + n \<le> length (insns c)"
    and u: "VerifyInstruction ve c ?ins pc u = Inr (True, u')"
    using assms(1-3) by (fastforce simp: statically_checked_def)
  obtain v1 v2 v3 v4 where v: "verify_a ve c ?ins u = Inr (True, v1)" "verify_b ve c ?ins v1 = Inr (True, v2)"
    "verify_c ve c ?ins v2 = Inr (True, v3)" "verify_extra ve c ?ins pc True v3 = Inr (Some True, v4)"
    using VerifyInstruction_parts [OF u] by metis
  have "n = insn_size (OpcodeOf d)" using opcode_size [OF n(1) assms(5)] assms(4) by (simp add: payload_at_def)
  with operands_checked(1) [OF op v(1)] operands_checked(2) [OF op v(2)] operands_checked(3) [OF op v(3)] n(2) assms(5) show "checked_at \<lparr>code = c, dex_pc = pc, inst_data = d\<rparr> (unat (registers_size c))"
    by (simp add: checked_at_def inst_def insn_at_code_at Let_def)
  show "\<exists>h. map_of handlers (OpcodeOf d) = Some h" using extra_handled [OF v(4) op] .
  show "\<exists>u u'. CheckSwitchTargets ve c pc u = Inr (True, u')" if "IsSwitch (OpcodeOf d)"
  proof -
    have "GetVerifyExtraFlags ?ins = Inr kVerifySwitchTargets"
      using all_target_flags [of "OpcodeOf d"] that op by (simp add: target_flags_def extra_flags)
    with v(4) show ?thesis by (auto simp: verify_extra_def when_ok_def Let_def elim!: rbindE)
  qed
qed

lemma verified_progress_step:
  fixes rt :: "('o, 's) runtime"
  assumes "CheckIntraCodeItem dv p padding c = Inr (Some q)" "code_item_fits c" "Verify ve acc (Some c) code_flow v = Inr (True, v')"
    and "insn_start c (unat pc)" "unat pc < length (insns c)" "\<not> payload_at c (unat pc)"
    and "Fetch16 0 (insn_at c (unat pc)) = Inr d" "\<not> IsThrow (OpcodeOf d)" "\<not> IsReturn (OpcodeOf d)"
    and "frame_ok (frame st)" "number_of_vregs (frame st) = unat (registers_size c)" "code_of rt (sf_method (frame st)) = Some c"
    and "PREAMBLE mini_trace rt \<lparr>code = c, dex_pc = pc, inst_data = d\<rparr> (st\<lparr>frame := SetDexPC pc (frame st)\<rparr>) = Inr st1"
  shows "\<exists>pc' st'. execute_insn mini_trace c pc rt st = Inr (Go pc', st') \<and> insn_start c (unat pc') \<and>
     (unat pc' < length (insns c) \<or> CanFlowThrough (OpcodeOf d) \<and> pc' = pc + of_nat (insn_size (OpcodeOf d)))"
proof -
  let ?x = "\<lparr>code = c, dex_pc = pc, inst_data = d\<rparr>" and ?n = "unat (registers_size c)"
  obtain v1 where "statically_checked ve c v1" using Verify_static [OF assms(3)] ..
  note checked = verified_operands [OF this assms(4-7)]
  obtain h :: "('o, 's) handler" where h: "map_of handlers (OpcodeOf d) = Some h" using checked(2) by blast
  have fits: "frame_fits (frame st1) ?n"
    using PREAMBLE_frame [OF assms(13)] assms(10,11) by (simp add: frame_fits_def frame_ok_def SetDexPC_def)
  have "\<exists>pc' st'. h rt ?x st1 = Inr (Go pc', st')"
  proof (cases "IsSwitch (OpcodeOf d)")
    case True
    then obtain u u' where "CheckSwitchTargets ve c pc u = Inr (True, u')" using checked(3) by blast
    from switch_runs [OF this assms(2,7) True h checked(1) fits] show ?thesis .
  next
    case False
    with assms(8,9) have "goes_on (OpcodeOf d)" by (simp add: goes_on_def)
    from handlers_run [OF h this] have "\<forall>x st n. OpcodeOf (inst_data x) = OpcodeOf d \<and> checked_at x n \<and> frame_fits (frame st) n \<longrightarrow>
        (\<exists>pc st'. h rt x st = Inr (Go pc, st'))" unfolding runs_def by blast
    with checked(1) fits show ?thesis by (metis insn_ctx.select_convs(3))
  qed
  then obtain pc' st' where "execute_insn mini_trace c pc rt st = Inr (Go pc', st')"
    using assms(7,13) h by (auto simp: execute_insn_def insn_at_code_at Let_def)
  with verified_step [OF assms(1-4,6) this assms(12,7)] show ?thesis by blast
qed

section \<open>Code that ends\<close>

text \<open>A runtime in which no listener for instructions or exits appears while the thread runs.\<close>

definition quiet :: "('o, 's) runtime \<Rightarrow> ('o, 's) world \<Rightarrow> bool" where
  "quiet rt w \<longleftrightarrow> (\<forall>n. let i = instr ((AllowThreadSuspension rt ^^ n) w) in \<not> have_dex_pc_listeners i \<and> \<not> have_method_exit_listeners i)"

lemma quietD:
  assumes "quiet rt w"
  shows "\<not> have_dex_pc_listeners (instr w)" "\<not> have_method_exit_listeners (instr w)" "quiet rt (AllowThreadSuspension rt w)"
proof -
  have "\<not> have_dex_pc_listeners (instr ((AllowThreadSuspension rt ^^ n) w)) \<and> \<not> have_method_exit_listeners (instr ((AllowThreadSuspension rt ^^ n) w))" for n
    using assms by (auto simp: quiet_def Let_def)
  from this [of 0] this [of "Suc n" for n]
  show "\<not> have_dex_pc_listeners (instr w)" "\<not> have_method_exit_listeners (instr w)" "quiet rt (AllowThreadSuspension rt w)"
    by (simp_all add: quiet_def Let_def funpow_swap1)
qed

text \<open>Handlers that leave the world alone, but for the moments at which the thread can be suspended.\<close>

definition calm :: "('o, 's) handler \<Rightarrow> bool" where
  "calm h \<longleftrightarrow> (\<forall>rt x st fl st'. h rt x st = Inr (fl, st') \<longrightarrow> env st' = env st \<or> env st' = AllowThreadSuspension rt (env st))"

lemma handlers_calm:
  "calm nop" "calm (put setter a val n)" "calm (put_const a val' n)" "calm (goto offset)" "calm (if_test test)" "calm (if_testz testz)"
  by (auto simp: calm_def nop_def put_def put_const_def goto_def if_test_def if_testz_def branch_def suspend_point_def RelativeAt_def
      next_insn_def elim!: rbindE split: if_split_asm)

definition plain :: "u8 \<Rightarrow> bool" where
  "plain op \<longleftrightarrow> goes_on op \<and> op \<noteq> MOVE_EXCEPTION"

lemma tables_calm: "list_all (\<lambda>(op, h). plain op \<longrightarrow> calm h) handlers"
  by (simp add: handlers_def table_defs attempt_defs plain_def goes_on_def handlers_calm op_defs)

lemma plain_calm:
  assumes "execute_insn mini_trace c pc rt st = Inr (fl, st')" "Fetch16 0 (insn_at c (unat pc)) = Inr d" "plain (OpcodeOf d)"
    and "PREAMBLE mini_trace rt \<lparr>code = c, dex_pc = pc, inst_data = d\<rparr> (st\<lparr>frame := SetDexPC pc (frame st)\<rparr>) = Inr st1"
  shows "env st' = env st1 \<or> env st' = AllowThreadSuspension rt (env st1)"
proof -
  obtain h where h: "map_of handlers (OpcodeOf d) = Some h" "h rt \<lparr>code = c, dex_pc = pc, inst_data = d\<rparr> st1 = Inr (fl, st')"
    using assms(1,2,4) by (auto simp: execute_insn_def insn_at_code_at Let_def split: option.split_asm)
  have "calm h" using tables_calm h(1) assms(3) by (auto dest!: map_of_SomeD simp: list_all_iff)
  with h(2) show ?thesis by (fastforce simp: calm_def)
qed

definition forward_insn :: "CodeItem \<Rightarrow> nat \<Rightarrow> bool" where
  "forward_insn c k \<longleftrightarrow> \<not> payload_at c k \<and> (case Opcode (insn_at c k) of
     Inl e \<Rightarrow> False
   | Inr op \<Rightarrow> IsReturn op \<and> op \<noteq> RETURN_OBJECT \<or>
       plain op \<and> (CanFlowThrough op \<longrightarrow> k + insn_size op < length (insns c)) \<and>
       (IsBranch op \<longrightarrow> (case GetTargetOffset (insn_at c k) of Inl e \<Rightarrow> False | Inr off \<Rightarrow> 0 <s off)))"

text \<open>The beginnings of the instructions, as a list.\<close>

function insn_starts :: "CodeItem \<Rightarrow> nat \<Rightarrow> nat list" where
  "insn_starts c k =
     (if k < length (insns c)
      then k # (case SizeInCodeUnits (insn_at c k) of Inl e \<Rightarrow> [] | Inr n \<Rightarrow> insn_starts c (k + n)) else [])"
  by pat_completeness auto
termination
  by (relation "measure (\<lambda>(c, k). length (insns c) - k)") (auto dest!: SizeInCodeUnits_pos)

declare insn_starts.simps [simp del]

lemma walk_first: "insn_walk c k j \<Longrightarrow> j = k \<or> (\<exists>n. SizeInCodeUnits (insn_at c k) = Inr n)"
  by (induction rule: insn_walk.induct) auto

lemma walk_starts: "insn_walk c k j \<Longrightarrow> j < length (insns c) \<Longrightarrow> j \<in> set (insn_starts c k)"
proof (induction c k rule: insn_starts.induct)
  case (1 c k)
  have k: "k < length (insns c)" using walk_mono [OF 1(2)] 1(3) by simp
  show ?case
  proof (cases "j = k")
    case True
    with k show ?thesis by (simp add: insn_starts.simps [of c k])
  next
    case False
    then obtain n where n: "SizeInCodeUnits (insn_at c k) = Inr n" using walk_first [OF 1(2)] by blast
    with walk_step [OF 1(2) n k] False 1(1) [OF k n _ 1(3)] k show ?thesis by (simp add: insn_starts.simps [of c k])
  qed
qed

definition straight :: "CodeItem \<Rightarrow> bool" where
  "straight c \<longleftrightarrow> insns c \<noteq> [] \<and> list_all (forward_insn c) (insn_starts c 0)"

definition returns :: "u8 \<Rightarrow> ('o, 's) handler \<Rightarrow> bool" where
  "returns op h \<longleftrightarrow> (\<forall>rt x st n. OpcodeOf (inst_data x) = op \<and> checked_at x n \<and> frame_fits (frame st) n \<and>
     \<not> have_method_exit_listeners (instr (AllowThreadSuspension rt (env st))) \<longrightarrow>
     (\<exists>v st'. h rt x st = Inr (Return v, st') \<and> env st' = AllowThreadSuspension rt (env st)))"

lemma do_return_returns:
  fixes val :: "('o, 's, u64) val"
  assumes "val_fits op val"
  shows "returns op (do_return val)"
  unfolding returns_def
proof (intro allI impI, elim conjE)
  fix rt :: "('o, 's) runtime" and x and st :: "('o, 's) istate" and n
  assume *: "OpcodeOf (inst_data x) = op" "checked_at x n" "frame_fits (frame st) n"
    and quiet: "\<not> have_method_exit_listeners (instr (AllowThreadSuspension rt (env st)))"
  obtain v where "val rt x st = Inr v" using val_fitsD [OF assms *] by blast
  with quiet show "\<exists>v st'. do_return val rt x st = Inr (Return v, st') \<and> env st' = AllowThreadSuspension rt (env st)"
    by (simp add: do_return_def post_exit_def suspend_point_def)
qed

lemma tables_return: "list_all (\<lambda>(op, h). IsReturn op \<and> op \<noteq> RETURN_OBJECT \<longrightarrow> returns op h) handlers"
  by (simp add: handlers_def table_defs attempt_defs do_return_returns run_rules op_defs del: One_nat_def)

lemma insn_size_pos: "0 < insn_size op"
  by (cases "kInstructionFormats op") (simp_all add: insn_size_def kInstructionSizeInCodeUnits_def less_eq_Format_def format_rank_def)

lemma forward_offset:
  assumes "0 <s (off :: u32)" "unat (pc :: u32) < 2 ^ 31"
  shows "unat pc < unat (pc + off)"
proof -
  have "\<not> off <s 0" "off \<noteq> 0" using assms(1) by (auto simp: word_sless_alt)
  then have "unat off < 2 ^ 31" "unat off \<noteq> 0" using not_negative by (auto simp: unat_eq_0)
  with assms(2) show ?thesis by (simp add: unat_word_ariths)
qed

lemma checked_small: "CheckIntraCodeItem dv p padding c = Inr (Some q) \<Longrightarrow> code_item_fits c \<Longrightarrow> length (insns c) < 2 ^ 31"
  by (subst checked_tries(1) [symmetric], assumption+)
    (auto simp: CheckIntraCodeItem_def elim!: guard_trueE split: if_split_asm dest: CheckListSize_count)

lemma forward_step:
  fixes rt :: "('o, 's) runtime"
  assumes "CheckIntraCodeItem dv p padding c = Inr (Some q)" "code_item_fits c" "Verify ve acc (Some c) code_flow v = Inr (True, v')"
    and "insn_start c (unat pc)" "unat pc < length (insns c)" "forward_insn c (unat pc)"
    and "frame_ok (frame st)" "number_of_vregs (frame st) = unat (registers_size c)" "code_of rt (sf_method (frame st)) = Some c"
    and d: "Fetch16 0 (insn_at c (unat pc)) = Inr d"
    and pre: "PREAMBLE mini_trace rt \<lparr>code = c, dex_pc = pc, inst_data = d\<rparr> (st\<lparr>frame := SetDexPC pc (frame st)\<rparr>) = Inr st1"
    and exits: "\<not> have_method_exit_listeners (instr (AllowThreadSuspension rt (env st1)))"
  shows "(\<exists>r st'. execute_insn mini_trace c pc rt st = Inr (Return r, st') \<and> env st' = AllowThreadSuspension rt (env st1)) \<or>
    (\<exists>pc' st'. execute_insn mini_trace c pc rt st = Inr (Go pc', st') \<and> unat pc < unat pc' \<and> unat pc' < length (insns c) \<and>
       insn_start c (unat pc') \<and> (env st' = env st1 \<or> env st' = AllowThreadSuspension rt (env st1)))"
proof -
  let ?x = "\<lparr>code = c, dex_pc = pc, inst_data = d\<rparr>" and ?op = "OpcodeOf d"
  have op: "Opcode (insn_at c (unat pc)) = Inr ?op" using d by (simp add: Opcode_def)
  have payload: "\<not> payload_at c (unat pc)" using assms(6) by (simp add: forward_insn_def)
  show ?thesis
  proof (cases "IsReturn ?op \<and> ?op \<noteq> RETURN_OBJECT")
    case True
    obtain v1 where "statically_checked ve c v1" using Verify_static [OF assms(3)] ..
    note checked = verified_operands [OF this assms(4,5) payload d]
    obtain h :: "('o, 's) handler" where h: "map_of handlers ?op = Some h" using checked(2) by blast
    have "returns ?op h" using tables_return h True by (auto dest!: map_of_SomeD simp: list_all_iff)
    moreover have "frame_fits (frame st1) (unat (registers_size c))"
      using PREAMBLE_frame [OF pre] assms(7,8) by (simp add: frame_fits_def frame_ok_def SetDexPC_def)
    ultimately have "\<exists>r st'. h rt ?x st1 = Inr (Return r, st') \<and> env st' = AllowThreadSuspension rt (env st1)"
      using checked(1) exits unfolding returns_def by (metis insn_ctx.select_convs(3))
    then show ?thesis using h d pre by (auto simp: execute_insn_def insn_at_code_at Let_def)
  next
    case False
    with assms(6) op have plain: "plain ?op" and through: "CanFlowThrough ?op \<Longrightarrow> unat pc + insn_size ?op < length (insns c)"
      and branch: "IsBranch ?op \<Longrightarrow> \<exists>off. GetTargetOffset (insn_at c (unat pc)) = Inr off \<and> 0 <s off"
      by (auto simp: forward_insn_def split: sum.split_asm)
    then have kind: "\<not> IsThrow ?op" "\<not> IsReturn ?op" "\<not> IsSwitch ?op" by (auto simp: plain_def goes_on_def)
    from verified_progress_step [OF assms(1-5) payload d kind(1,2) assms(7-9) pre] obtain pc' st' where
        go: "execute_insn mini_trace c pc rt st = Inr (Go pc', st')" "insn_start c (unat pc')"
          "unat pc' < length (insns c) \<or> CanFlowThrough ?op \<and> pc' = pc + of_nat (insn_size ?op)" by blast
    have next_pc: "unat pc < unat (pc + of_nat (insn_size ?op)) \<and> unat (pc + of_nat (insn_size ?op)) < length (insns c)" if "CanFlowThrough ?op"
      using through [OF that] unat_add_size [of pc "insn_size ?op" c] assms(2) insn_size_pos [of ?op] by simp
    obtain d' where "Fetch16 0 (insn_at c (unat pc)) = Inr d'" "legal_flow rt (sf_method (frame st)) \<lparr>code = c, dex_pc = pc, inst_data = d'\<rparr> (Go pc')"
      using execute_insn_flow [OF go(1)] by (auto simp: insn_at_code_at)
    with d kind have "CanFlowThrough ?op \<and> pc' = pc + of_nat (insn_size ?op) \<or>
        IsBranch ?op \<and> (\<exists>off. GetTargetOffset (insn_at c (unat pc)) = Inr off \<and> pc' = pc + off)"
      by (auto simp: Let_def inst_def insn_at_code_at)
    moreover have "unat pc < 2 ^ 31" using assms(5) checked_small [OF assms(1,2)] by simp
    ultimately have "unat pc < unat pc'" using next_pc branch forward_offset by fastforce
    moreover have "unat pc' < length (insns c)" using go(3) next_pc by auto
    ultimately show ?thesis using go plain_calm [OF go(1) d plain pre] by blast
  qed
qed

lemma straight_ends:
  fixes rt :: "('o, 's) runtime"
  assumes "CheckIntraCodeItem dv p padding c = Inr (Some q)" "code_item_fits c" "Verify ve acc (Some c) code_flow v = Inr (True, v')"
    and "straight c" "insn_start c (unat pc)" "unat pc < length (insns c)" "length (insns c) - unat pc \<le> fuel"
    and "frame_ok (frame st)" "number_of_vregs (frame st) = unat (registers_size c)" "code_of rt (sf_method (frame st)) = Some c" "quiet rt (env st)"
  shows "\<exists>r st'. interpret_loop fuel False c pc rt st = Some (Inr (r, st'))"
  using assms(5-)
proof (induction fuel arbitrary: pc st)
  case 0
  then show ?case by simp
next
  case (Suc fuel)
  have forward: "forward_insn c (unat pc)" using walk_starts [OF Suc.prems(1,2)] assms(4) by (simp add: straight_def list_all_iff)
  obtain d where d: "Fetch16 0 (insn_at c (unat pc)) = Inr d" using Suc.prems(2) by (simp add: Fetch16_def)
  have pre: "PREAMBLE False rt \<lparr>code = c, dex_pc = pc, inst_data = d\<rparr> (st\<lparr>frame := SetDexPC pc (frame st)\<rparr>) =
      Inr (st\<lparr>frame := SetDexPC pc (frame st)\<rparr>)"
    using quietD(1) [OF Suc.prems(7)] by (simp add: PREAMBLE_def post_dex_pc_def)
  have exits: "\<not> have_method_exit_listeners (instr (AllowThreadSuspension rt (env (st\<lparr>frame := SetDexPC pc (frame st)\<rparr>))))"
    using quietD(2) [OF quietD(3) [OF Suc.prems(7)]] by simp
  from forward_step [OF assms(1-3) Suc.prems(1,2) forward Suc.prems(4-6) d pre exits] show ?case
  proof
    assume "\<exists>r st'. execute_insn False c pc rt st = Inr (Return r, st') \<and>
      env st' = AllowThreadSuspension rt (env (st\<lparr>frame := SetDexPC pc (frame st)\<rparr>))"
    then show ?thesis by auto
  next
    assume "\<exists>pc' st'. execute_insn False c pc rt st = Inr (Go pc', st') \<and> unat pc < unat pc' \<and> unat pc' < length (insns c) \<and>
      insn_start c (unat pc') \<and> (env st' = env (st\<lparr>frame := SetDexPC pc (frame st)\<rparr>) \<or>
         env st' = AllowThreadSuspension rt (env (st\<lparr>frame := SetDexPC pc (frame st)\<rparr>)))"
    then obtain pc' st' where go: "execute_insn False c pc rt st = Inr (Go pc', st')" and *: "unat pc < unat pc'" "unat pc' < length (insns c)"
      "insn_start c (unat pc')" and env: "env st' = env st \<or> env st' = AllowThreadSuspension rt (env st)" by auto
    have quiet: "quiet rt (env st')" using env Suc.prems(7) quietD(3) [OF Suc.prems(7)] by auto
    have "frame_like (frame st) (frame st')" using keeps_frame_like [OF execute_insn_keeps [OF go]] .
    with Suc.IH [OF *(3,2) _ _ _ _ quiet] Suc.prems(3-6) *(1) go show ?thesis by (simp add: frame_like_def)
  qed
qed

section \<open>What verification gives the interpreter\<close>

text \<open>C4: progress. At the beginning of an instruction of a method that has passed the checks of the
  dex file and the static checks of the method verifier, the interpreter does not fault unless the
  opcode can throw or returns: every register that the handler reads or writes is in the frame, every
  code unit it reads is in the code, the table of a switch is complete, and it goes on at the
  beginning of an instruction. The frame has the size that the code item asks for, and the listeners
  of the preamble have come back.\<close>

theorem verified_progress:
  assumes "CheckIntraCodeItem dv p padding c = Inr (Some q)" "code_item_fits c" "Verify ve acc (Some c) code_flow v = Inr (True, v')"
    and "insn_start c (unat pc)" "unat pc < length (insns c)" "\<not> payload_at c (unat pc)"
    and "Fetch16 0 (insn_at c (unat pc)) = Inr d" "\<not> IsThrow (OpcodeOf d)" "\<not> IsReturn (OpcodeOf d)"
    and "frame_ok (frame st)" "number_of_vregs (frame st) = unat (registers_size c)" "code_of rt (sf_method (frame st)) = Some c"
    and "PREAMBLE mini_trace rt \<lparr>code = c, dex_pc = pc, inst_data = d\<rparr> (st\<lparr>frame := SetDexPC pc (frame st)\<rparr>) = Inr st1"
  shows "\<exists>pc' st'. execute_insn mini_trace c pc rt st = Inr (Go pc', st') \<and> insn_start c (unat pc')"
  using verified_progress_step [OF assms] by blast

lemma branch_code_starts: "insn_start branch_code 1"
proof -
  have "SizeInCodeUnits (insn_at branch_code 0) = Inr 1" "0 < length (insns branch_code)" by code_simp+
  from following [OF first this(2,1)] show ?thesis by simp
qed

theorem verified_progress_witness:
  "\<exists>pc' st'. execute_insn False branch_code 1 (idle_runtime branch_code) (idle_state branch_code) = Inr (Go pc', st') \<and> insn_start branch_code (unat pc')"
proof -
  obtain v' where v': "Verify sample_env 1 (Some branch_code) (\<lambda>_. passed) (new_MethodVerifier ()) = Inr (True, v')"
    using branch_code_verified(3) ..
  have pc: "insn_start branch_code (unat 1)" "unat (1 :: u32) < length (insns branch_code)" "\<not> payload_at branch_code (unat 1)"
      "Fetch16 0 (insn_at branch_code (unat 1)) = Inr 0x38"
    using branch_code_starts by simp code_simp+
  have op: "OpcodeOf 0x38 = 0x38" "\<not> IsThrow 0x38" "\<not> IsReturn 0x38" using branch_code_units(4) by (simp_all add: op_defs)
  have fr: "frame_ok (frame (idle_state branch_code))" "number_of_vregs (frame (idle_state branch_code)) = unat (registers_size branch_code)"
      "code_of (idle_runtime branch_code) (sf_method (frame (idle_state branch_code))) = Some branch_code"
    by (simp_all add: idle_state_def Create_ok) (simp_all add: Create_def idle_runtime_def)
  have pre: "PREAMBLE False (idle_runtime branch_code) \<lparr>code = branch_code, dex_pc = 1, inst_data = 0x38\<rparr>
      (idle_state branch_code\<lparr>frame := SetDexPC 1 (frame (idle_state branch_code))\<rparr>) =
      Inr (idle_state branch_code\<lparr>frame := SetDexPC 1 (frame (idle_state branch_code))\<rparr>)"
    by (simp add: PREAMBLE_def post_dex_pc_def idle_state_def new_Instrumentation_def)
  show ?thesis
    by (rule verified_progress [OF branch_code_verified(1,2) v' pc _ _ fr pre]) (simp_all add: op)
qed



end
