(* ===== verification/Spec2Isabelle.thy ===== *)
theory Spec2Isabelle
  imports Fd_File Safe_Map MiniTrace_Record Art_Class Instrumentation MiniTrace_Buffer
    MiniTrace_Concurrent Instrumentation_Stack Instrumentation_Stubs Utf C_Strings Art_Utils
    MiniTrace_Config Dex_Coverage MiniTrace_Control Leb128 Verified_Progress
begin

text \<open>
  The program is the tracing runtime of AATT: an Android runtime (ART 6, under
  \<open>src/mini-tracing-art6\<close>) extended by MiniTrace, a tracer that registers with the runtime's
  instrumentation, writes one fixed-size record per method or field event into a shared buffer
  and flushes the buffer to a file.

  \<^bold>\<open>Parts and theories.\<close>  Paths are relative to \<open>src/mini-tracing-art6/runtime\<close>.
  \<^item> Art\_Prelude: machine integers, byte buffers, little-endian bytes and abnormal termination
    (the datatype \<open>trap\<close>, results \<open>'a res\<close>).  The target is 32-bit ARM, so a pointer is a
    32-bit word.
  \<^item> Fd\_File: \<open>base/unix_file/fd_file.cc\<close>, files with a guard state.  The answers of the kernel
    are a list in the file's state.
  \<^item> Safe\_Map: \<open>safe_map.h\<close>.
  \<^item> MiniTrace\_Record: the records of \<open>mini_trace.cc\<close>.
  \<^item> Art\_Class: the parts of \<open>art_method.h\<close>, \<open>art_field.h\<close>, \<open>mirror/class.h\<close>,
    \<open>class_linker.cc\<close> and \<open>jit/jit_code_cache.cc\<close> the tracer and the instrumentation use.
  \<^item> Instrumentation, Instrumentation\_Stack, Instrumentation\_Stubs: \<open>instrumentation.cc\<close>, namely
    listeners and event delivery, the instrumentation stack, and entry points with levels and
    deoptimisation.
  \<^item> MiniTrace\_Buffer: the event callbacks, the buffer and its flush, run by one thread.
  \<^item> MiniTrace\_Concurrent: the same buffer with an atomic step per memory access, run by any
    number of threads.
\<close>

end
